(* ===== verification/Prelude.thy ===== *)
theory Prelude
  imports Main "HOL-Library.Word" "HOL-Library.Sublist"
begin

text \<open>
  Shared vocabulary of the development.

  \<^item> Go's two-valued results \<open>(x, err)\<close> are values of a sum type: \<open>Inl e\<close> is
    \<open>err = e\<close>, \<open>Inr x\<close> is \<open>err = nil\<close>.
  \<^item> A Go function that reads or writes the outside world (files, a database, a stream) is a
    function from the world to a result and the next world. \<open>returnE\<close>, \<open>throwE\<close>,
    \<open>bindE\<close>, \<open>catchE\<close> and \<open>ignoreE\<close> are the statement forms the sources use:
    \<open>return x, nil\<close>, \<open>return nil, err\<close>, \<open>x, err := f(); if err != nil { return err }\<close>,
    \<open>if err := f(); err != nil { ... }\<close> and \<open>_ = f()\<close>.
  \<^item> Two proof calculi carry the component proofs. \<open>wpE m Q E w\<close> is the weakest
    precondition of an operation for a postcondition of its normal and its error return; its
    equations are collected in \<open>wp\<close>. \<open>preserves m f\<close> says that an operation leaves an
    observation \<open>f\<close> of the world alone on every path, errors included; its rules are
    collected in \<open>frame\<close>.
  \<^item> Strings and byte slices are both \<open>string\<close>: a Go string is a sequence of bytes and
    \<open>char\<close> is an 8-bit value.
\<close>

section \<open>Results and effects\<close>

named_theorems wp \<open>equations of the weakest-precondition calculus\<close>
named_theorems frame \<open>rules that an operation preserves an observation\<close>
named_theorems go_defs \<open>definitions of small pure helpers, unfolded by the component proofs\<close>

type_synonym bytes = string
type_synonym ('w, 'e, 'a) op = "'w \<Rightarrow> ('e + 'a) \<times> 'w"

definition returnE :: "'a \<Rightarrow> ('w, 'e, 'a) op" where
  "returnE x = (\<lambda>w. (Inr x, w))"

definition throwE :: "'e \<Rightarrow> ('w, 'e, 'a) op" where
  "throwE e = (\<lambda>w. (Inl e, w))"

definition bindE :: "('w, 'e, 'a) op \<Rightarrow> ('a \<Rightarrow> ('w, 'e, 'b) op) \<Rightarrow> ('w, 'e, 'b) op" where
  "bindE m k = (\<lambda>w. case m w of (Inl e, w') \<Rightarrow> (Inl e, w') | (Inr x, w') \<Rightarrow> k x w')"

definition catchE :: "('w, 'e, 'a) op \<Rightarrow> ('e \<Rightarrow> ('w, 'e, 'a) op) \<Rightarrow> ('w, 'e, 'a) op" where
  "catchE m h = (\<lambda>w. case m w of (Inl e, w') \<Rightarrow> h e w' | (Inr x, w') \<Rightarrow> (Inr x, w'))"

definition tryE :: "('w, 'e, 'a) op \<Rightarrow> ('w, 'e, 'e + 'a) op" where
  "tryE m = (\<lambda>w. case m w of (r, w') \<Rightarrow> (Inr r, w'))"

definition getsE :: "('w \<Rightarrow> 'a) \<Rightarrow> ('w, 'e, 'a) op" where
  "getsE f = (\<lambda>w. (Inr (f w), w))"

definition modifyE :: "('w \<Rightarrow> 'w) \<Rightarrow> ('w, 'e, unit) op" where
  "modifyE f = (\<lambda>w. (Inr (), f w))"

definition liftE :: "'e + 'a \<Rightarrow> ('w, 'e, 'a) op" where
  "liftE r = (\<lambda>w. (r, w))"

definition ignoreE :: "('w, 'e, 'a) op \<Rightarrow> ('w, 'e, unit) op" where
  "ignoreE m = bindE (tryE m) (\<lambda>_. returnE ())"

definition wrapE :: "('e \<Rightarrow> 'e) \<Rightarrow> ('w, 'e, 'a) op \<Rightarrow> ('w, 'e, 'a) op" where
  "wrapE f m = catchE m (\<lambda>e. throwE (f e))"

lemmas opE_defs = returnE_def throwE_def bindE_def catchE_def tryE_def getsE_def modifyE_def
  liftE_def ignoreE_def wrapE_def

lemma bindE_returnE [simp]: "bindE (returnE x) k = k x"
  by (simp add: opE_defs)

lemma bindE_throwE [simp]: "bindE (throwE e) k = throwE e"
  by (simp add: opE_defs)

lemma bindE_assoc: "bindE (bindE m k) l = bindE m (\<lambda>x. bindE (k x) l)"
  by (rule ext) (simp add: bindE_def split: prod.splits sum.splits)

text \<open>The sequence of two fallible values.\<close>

fun bind_sum :: "'e + 'a \<Rightarrow> ('a \<Rightarrow> 'e + 'b) \<Rightarrow> 'e + 'b" where
  "bind_sum (Inl err) f = Inl err"
| "bind_sum (Inr x) f = f x"

lemma bind_sum_Inr: "bind_sum x f = Inr y \<longleftrightarrow> (\<exists>z. x = Inr z \<and> f z = Inr y)"
  by (cases x) simp_all

subsection \<open>Weakest preconditions\<close>

definition wpE :: "('w, 'e, 'a) op \<Rightarrow> ('a \<Rightarrow> 'w \<Rightarrow> bool) \<Rightarrow> ('e \<Rightarrow> 'w \<Rightarrow> bool) \<Rightarrow> 'w \<Rightarrow> bool" where
  "wpE m Q E w = (case m w of (Inl e, w') \<Rightarrow> E e w' | (Inr x, w') \<Rightarrow> Q x w')"

lemma wpE_returnE [wp]: "wpE (returnE x) Q E = Q x"
  by (rule ext) (simp add: wpE_def returnE_def)

lemma wpE_throwE [wp]: "wpE (throwE e) Q E = E e"
  by (rule ext) (simp add: wpE_def throwE_def)

lemma wpE_bindE [wp]: "wpE (bindE m k) Q E = wpE m (\<lambda>x. wpE (k x) Q E) E"
  by (rule ext) (simp add: wpE_def bindE_def split: prod.splits sum.splits)

lemma wpE_catchE [wp]: "wpE (catchE m h) Q E = wpE m Q (\<lambda>e. wpE (h e) Q E)"
  by (rule ext) (simp add: wpE_def catchE_def split: prod.splits sum.splits)

lemma wpE_tryE [wp]: "wpE (tryE m) Q E = wpE m (\<lambda>x. Q (Inr x)) (\<lambda>e. Q (Inl e))"
  by (rule ext) (simp add: wpE_def tryE_def split: prod.splits sum.splits)

lemma wpE_getsE [wp]: "wpE (getsE f) Q E = (\<lambda>w. Q (f w) w)"
  by (rule ext) (simp add: wpE_def getsE_def)

lemma wpE_modifyE [wp]: "wpE (modifyE f) Q E = (\<lambda>w. Q () (f w))"
  by (rule ext) (simp add: wpE_def modifyE_def)

lemma wpE_liftE [wp]: "wpE (liftE r) Q E = (case r of Inl e \<Rightarrow> E e | Inr x \<Rightarrow> Q x)"
  by (rule ext) (simp add: wpE_def liftE_def split: sum.splits)

lemma wpE_ignoreE [wp]: "wpE (ignoreE m) Q E = wpE m (\<lambda>_. Q ()) (\<lambda>_. Q ())"
  by (simp add: ignoreE_def wp)

lemma wpE_wrapE [wp]: "wpE (wrapE f m) Q E = wpE m Q (\<lambda>e. E (f e))"
  by (simp add: wrapE_def wp)

text \<open>\<open>if err != nil { return f(err) }\<close>, for an error that is at hand.\<close>

definition unless_nil :: "'x option \<Rightarrow> ('x \<Rightarrow> 'e) \<Rightarrow> ('w, 'e, unit) op" where
  "unless_nil e f = (case e of None \<Rightarrow> returnE () | Some err \<Rightarrow> throwE (f err))"

lemma wpE_unless_nil [wp]:
  "wpE (unless_nil e f) Q E = (case e of None \<Rightarrow> Q () | Some err \<Rightarrow> E (f err))"
  by (simp add: unless_nil_def wp split: option.split)

text \<open>
  The same equations at a state: with them a conditional on a known state is decided before
  its branches are entered, so a run of many such calls follows one path.
\<close>

lemma wpE_at:
  "wpE (bindE m k) Q E a \<longleftrightarrow> wpE m (\<lambda>x. wpE (k x) Q E) E a"
  "wpE (modifyE g) Q' E a \<longleftrightarrow> Q' () (g a)"
  "wpE (returnE x) Q E a \<longleftrightarrow> Q x a"
  "wpE (unless_nil e f) Q' E a \<longleftrightarrow> (case e of None \<Rightarrow> Q' () a | Some err \<Rightarrow> E (f err) a)"
  by (simp_all add: wp split: option.split)

lemma wpE_if [wp]: "wpE (if b then m else n) Q E = (if b then wpE m Q E else wpE n Q E)"
  by simp

lemma wpE_case_option [wp]:
  "wpE (case z of None \<Rightarrow> m | Some x \<Rightarrow> k x) Q E =
     (case z of None \<Rightarrow> wpE m Q E | Some x \<Rightarrow> wpE (k x) Q E)"
  by (simp split: option.splits)

lemma wpE_case_sum [wp]:
  "wpE (case z of Inl e \<Rightarrow> h e | Inr x \<Rightarrow> k x) Q E =
     (case z of Inl e \<Rightarrow> wpE (h e) Q E | Inr x \<Rightarrow> wpE (k x) Q E)"
  by (simp split: sum.splits)

lemma wpE_case_prod [wp]:
  "wpE (case z of (a, b) \<Rightarrow> k a b) Q E = (case z of (a, b) \<Rightarrow> wpE (k a b) Q E)"
  by (simp split: prod.splits)

lemma wpE_mono:
  assumes "wpE m Q E w"
    and "\<And>x w'. Q x w' \<Longrightarrow> Q' x w'"
    and "\<And>e w'. E e w' \<Longrightarrow> E' e w'"
  shows "wpE m Q' E' w"
  using assms by (auto simp: wpE_def split: prod.splits sum.splits)

lemma wpE_conj:
  assumes "wpE m Q E w" and "wpE m Q' E' w"
  shows "wpE m (\<lambda>x w'. Q x w' \<and> Q' x w') (\<lambda>e w'. E e w' \<and> E' e w') w"
  using assms by (auto simp: wpE_def split: prod.splits sum.splits)

text \<open>From a weakest precondition to the equation of a run, and back.\<close>

lemma wpE_InrD: "wpE m Q E w \<Longrightarrow> m w = (Inr x, w') \<Longrightarrow> Q x w'"
  by (simp add: wpE_def)

lemma wpE_InlD: "wpE m Q E w \<Longrightarrow> m w = (Inl e, w') \<Longrightarrow> E e w'"
  by (simp add: wpE_def)

lemma wpE_resultI:
  "wpE m (\<lambda>x w'. r = Inr x \<longrightarrow> v = w' \<longrightarrow> P) (\<lambda>e w'. r = Inl e \<longrightarrow> v = w' \<longrightarrow> P) w
    \<Longrightarrow> m w = (r, v) \<Longrightarrow> P"
  by (auto simp: wpE_def split: sum.splits)

lemma wpE_True [simp]: "wpE m (\<lambda>_ _. True) (\<lambda>_ _. True) w"
  by (simp add: wpE_def split: prod.splits sum.splits)

lemma wpE_succeeds: "wpE m Q (\<lambda>_ _. False) w \<Longrightarrow> \<exists>x w'. m w = (Inr x, w') \<and> Q x w'"
  by (auto simp: wpE_def split: prod.splits sum.splits)

subsection \<open>Frame conditions\<close>

definition preserves :: "('w, 'e, 'a) op \<Rightarrow> ('w \<Rightarrow> 'b) \<Rightarrow> bool" where
  "preserves m f = (\<forall>w. f (snd (m w)) = f w)"

lemma preservesI: "(\<And>w. f (snd (m w)) = f w) \<Longrightarrow> preserves m f"
  by (simp add: preserves_def)

lemma preservesD: "preserves m f \<Longrightarrow> m w = (r, w') \<Longrightarrow> f w' = f w"
  by (metis preserves_def snd_conv)

lemma preserves_returnE [frame, intro!]: "preserves (returnE x) f"
  by (simp add: preserves_def returnE_def)

lemma preserves_throwE [frame, intro!]: "preserves (throwE e) f"
  by (simp add: preserves_def throwE_def)

lemma preserves_getsE [frame, intro!]: "preserves (getsE g) f"
  by (simp add: preserves_def getsE_def)

lemma preserves_liftE [frame, intro!]: "preserves (liftE r) f"
  by (simp add: preserves_def liftE_def)

lemma preserves_bindE [frame]:
  "preserves m f \<Longrightarrow> (\<And>x. preserves (k x) f) \<Longrightarrow> preserves (bindE m k) f"
  by (simp add: preserves_def bindE_def split: prod.splits sum.splits) (metis snd_conv)

lemma preserves_catchE [frame]:
  "preserves m f \<Longrightarrow> (\<And>e. preserves (h e) f) \<Longrightarrow> preserves (catchE m h) f"
  by (simp add: preserves_def catchE_def split: prod.splits sum.splits) (metis snd_conv)

lemma preserves_tryE [frame]: "preserves m f \<Longrightarrow> preserves (tryE m) f"
  by (simp add: preserves_def tryE_def split_beta)

lemma preserves_ignoreE [frame]: "preserves m f \<Longrightarrow> preserves (ignoreE m) f"
  unfolding ignoreE_def by (intro frame)

lemma preserves_wrapE [frame]: "preserves m f \<Longrightarrow> preserves (wrapE g m) f"
  unfolding wrapE_def by (intro frame)

lemma preserves_if [frame]:
  "(b \<Longrightarrow> preserves m f) \<Longrightarrow> (\<not> b \<Longrightarrow> preserves n f) \<Longrightarrow> preserves (if b then m else n) f"
  by simp

lemma preserves_case_option [frame]:
  "preserves m f \<Longrightarrow> (\<And>x. preserves (k x) f) \<Longrightarrow>
     preserves (case z of None \<Rightarrow> m | Some x \<Rightarrow> k x) f"
  by (simp split: option.splits)

lemma preserves_case_sum [frame]:
  "(\<And>e. preserves (h e) f) \<Longrightarrow> (\<And>x. preserves (k x) f) \<Longrightarrow>
     preserves (case z of Inl e \<Rightarrow> h e | Inr x \<Rightarrow> k x) f"
  by (simp split: sum.splits)

lemma preserves_case_prod [frame]:
  "(\<And>a b. preserves (k a b) f) \<Longrightarrow> preserves (case z of (a, b) \<Rightarrow> k a b) f"
  by (simp split: prod.splits)

lemma preserves_wpE: "preserves m f \<Longrightarrow> wpE m (\<lambda>_ w'. f w' = f w) (\<lambda>_ w'. f w' = f w) w"
  by (auto simp: wpE_def preserves_def split: prod.splits sum.splits) (metis snd_conv)+

text \<open>A weakest precondition strengthened by what the operation preserves.\<close>

lemma wpE_preserved:
  assumes "preserves m f" and "wpE m Q E w"
  shows "wpE m (\<lambda>x w'. f w' = f w \<and> Q x w') (\<lambda>e w'. f w' = f w \<and> E e w') w"
  using wpE_conj [OF preserves_wpE [OF assms(1)] assms(2)] .

section \<open>Fixed-width integers\<close>

text \<open>Go's \<open>int32(x)\<close> and \<open>int8(x)\<close> conversions keep the low bits, read as two's complement.\<close>

definition int32_of :: "int \<Rightarrow> int" where
  [go_defs]: "int32_of x = sint (word_of_int x :: 32 word)"

definition int8_of :: "int \<Rightarrow> int" where
  [go_defs]: "int8_of x = sint (word_of_int x :: 8 word)"

definition maxInt64 :: int where
  "maxInt64 = 2 ^ 63 - 1"

lemma int32_of_small: "- (2 ^ 31) \<le> x \<Longrightarrow> x < 2 ^ 31 \<Longrightarrow> int32_of x = x"
  unfolding int32_of_def by (simp add: sint_sbintrunc' signed_take_bit_int_eq_self)

lemma int8_of_small: "- 128 \<le> x \<Longrightarrow> x < 128 \<Longrightarrow> int8_of x = x"
  unfolding int8_of_def by (simp add: sint_sbintrunc' signed_take_bit_int_eq_self)

lemma int8_of_range: "- 128 \<le> int8_of x \<and> int8_of x < 128"
  unfolding int8_of_def
  using sint_greater_eq [of "word_of_int x :: 8 word"] sint_less [of "word_of_int x :: 8 word"]
  by simp

section \<open>Decimal numerals\<close>

text \<open>\<open>strconv.Itoa\<close> and the verb \<open>%05d\<close> of package fmt, for the non-negative numbers the sources print.\<close>

definition digit_char :: "nat \<Rightarrow> char" where
  "digit_char d = char_of (48 + d)"

fun nat_digits :: "nat \<Rightarrow> string" where
  "nat_digits n = (if n < 10 then [digit_char n] else nat_digits (n div 10) @ [digit_char (n mod 10)])"

declare nat_digits.simps [simp del]

definition digits_value :: "string \<Rightarrow> nat" where
  "digits_value s = foldl (\<lambda>acc c. 10 * acc + (of_char c - 48)) 0 s"

lemma of_char_digit_char: "d < 10 \<Longrightarrow> of_char (digit_char d) = (48 + d :: nat)"
  by (simp add: digit_char_def)

lemma digits_value_snoc:
  "digits_value (s @ [c]) = 10 * digits_value s + (of_char c - 48)"
  by (simp add: digits_value_def)

lemma digits_value_nat_digits: "digits_value (nat_digits n) = n"
proof (induction n rule: nat_digits.induct)
  case (1 n)
  show ?case
  proof (cases "n < 10")
    case True
    then have "nat_digits n = [] @ [digit_char n]"
      by (simp add: nat_digits.simps [of n])
    then show ?thesis
      using True digits_value_snoc [of "[]" "digit_char n"]
      by (simp add: of_char_digit_char) (simp add: digits_value_def)
  next
    case False
    then have "nat_digits n = nat_digits (n div 10) @ [digit_char (n mod 10)]"
      by (simp add: nat_digits.simps [of n])
    with 1 False show ?thesis
      by (simp add: digits_value_snoc of_char_digit_char)
  qed
qed

definition pad_zeros :: "nat \<Rightarrow> string \<Rightarrow> string" where
  "pad_zeros k s = replicate (k - length s) (CHR ''0'') @ s"

lemma digits_value_zeros: "digits_value (replicate k (CHR ''0'') @ s) = digits_value s"
  by (induction k) (simp_all add: digits_value_def)

text \<open>\<open>fmt.Sprintf("%05d", n)\<close>: the width counts the sign.\<close>

definition fmt_05d :: "int \<Rightarrow> string" where
  "fmt_05d n = (if n < 0 then CHR ''-'' # pad_zeros 4 (nat_digits (nat (- n)))
               else pad_zeros 5 (nat_digits (nat n)))"

lemma fmt_05d_inj:
  assumes "0 \<le> m" "0 \<le> n" "fmt_05d m = fmt_05d n"
  shows "m = n"
proof -
  have "digits_value (fmt_05d m) = nat m" "digits_value (fmt_05d n) = nat n"
    using assms(1,2) by (simp_all add: fmt_05d_def pad_zeros_def digits_value_zeros
        digits_value_nat_digits)
  with assms show ?thesis by simp
qed

definition itoa :: "int \<Rightarrow> string" where
  "itoa n = (if n < 0 then CHR ''-'' # nat_digits (nat (- n)) else nat_digits (nat n))"

lemma digit_char_not_special:
  "d < 10 \<Longrightarrow> digit_char d \<notin> {CHR ''/'', CHR ''-'', CHR ''.''}"
  using of_char_digit_char [of d] by auto

lemma nat_digits_chars: "c \<in> set (nat_digits n) \<Longrightarrow> \<exists>d<10. c = digit_char d"
proof (induction n rule: nat_digits.induct)
  case (1 n)
  have last: "\<exists>d<10. digit_char (n mod 10) = digit_char d"
    by (intro exI [of _ "n mod 10"]) simp
  show ?case
  proof (cases "n < 10")
    case True
    with 1 show ?thesis by (auto simp: nat_digits.simps [of n])
  next
    case False
    with 1 last show ?thesis by (simp add: nat_digits.simps [of n]) blast
  qed
qed

section \<open>Strings\<close>

text \<open>Package strings: \<open>HasPrefix\<close>, \<open>TrimPrefix\<close> and \<open>Cut\<close> on a one-byte separator.\<close>

definition HasPrefix :: "string \<Rightarrow> string \<Rightarrow> bool" where
  [go_defs]: "HasPrefix s p = (take (length p) s = p)"

definition TrimPrefix :: "string \<Rightarrow> string \<Rightarrow> string" where
  [go_defs]: "TrimPrefix s p = (if HasPrefix s p then drop (length p) s else s)"

definition Cut :: "string \<Rightarrow> char \<Rightarrow> string \<times> string \<times> bool" where
  "Cut s c = (if c \<in> set s
              then (takeWhile (\<lambda>x. x \<noteq> c) s, tl (dropWhile (\<lambda>x. x \<noteq> c) s), True)
              else (s, [], False))"

lemma HasPrefix_iff: "HasPrefix s p = prefix p s"
  by (auto simp: HasPrefix_def prefix_def) (metis append_take_drop_id)

lemma Cut_found:
  assumes "c \<notin> set a"
  shows "Cut (a @ c # b) c = (a, b, True)"
  using assms by (induction a) (auto simp: Cut_def)

lemma Cut_True:
  assumes "Cut s c = (a, b, True)"
  shows "s = a @ c # b \<and> c \<notin> set a"
proof -
  have mem: "c \<in> set s" and a: "a = takeWhile (\<lambda>x. x \<noteq> c) s"
    and b: "b = tl (dropWhile (\<lambda>x. x \<noteq> c) s)"
    using assms by (auto simp: Cut_def split: if_splits)
  have "dropWhile (\<lambda>x. x \<noteq> c) s \<noteq> []"
    using mem by (simp add: dropWhile_eq_Nil_conv)
  then obtain y ys where y: "dropWhile (\<lambda>x. x \<noteq> c) s = y # ys"
    by (cases "dropWhile (\<lambda>x. x \<noteq> c) s") auto
  then have "y = c" using hd_dropWhile [of "\<lambda>x. x \<noteq> c" s] by simp
  then have "dropWhile (\<lambda>x. x \<noteq> c) s = c # b" using y b by simp
  then have "s = a @ c # b" using a takeWhile_dropWhile_id [of "\<lambda>x. x \<noteq> c" s] by simp
  moreover have "c \<notin> set a" using a by (auto dest: set_takeWhileD)
  ultimately show ?thesis by simp
qed

end
