(* ===== verification/Go_Errors.thy ===== *)
theory Go_Errors
  imports Prelude
begin

text \<open>
  The error values of the Go services and the go-kit packages \<open>sys\<close>, \<open>sys/codes\<close>,
  \<open>sys/validate\<close> and \<open>middleware/validation\<close>.

  A Go error is a chain: an error value that may wrap further errors. \<open>go_error\<close> has one
  constructor per concrete error type the sources build or test for; \<open>errors_Is\<close> and the
  \<open>as_\<close> functions are \<open>errors.Is\<close> and \<open>errors.As\<close>, which walk the chain. Two
  sentinel variables with the same text and code are one value of the model; no service declares
  such a pair.
\<close>

section \<open>Status codes\<close>

text \<open>\<open>sys/codes.Code\<close> is a \<open>uint32\<close> with the constants numbered by \<open>iota\<close>.\<close>

type_synonym Code = "32 word"

definition OK :: Code where "OK = 0"
definition Canceled :: Code where "Canceled = 1"
definition Unknown :: Code where "Unknown = 2"
definition InvalidArgument :: Code where "InvalidArgument = 3"
definition DeadlineExceeded :: Code where "DeadlineExceeded = 4"
definition NotFound :: Code where "NotFound = 5"
definition AlreadyExists :: Code where "AlreadyExists = 6"
definition PermissionDenied :: Code where "PermissionDenied = 7"
definition ResourceExhausted :: Code where "ResourceExhausted = 8"
definition FailedPrecondition :: Code where "FailedPrecondition = 9"
definition Aborted :: Code where "Aborted = 10"
definition OutOfRange :: Code where "OutOfRange = 11"
definition Unimplemented :: Code where "Unimplemented = 12"
definition Internal :: Code where "Internal = 13"
definition Unavailable :: Code where "Unavailable = 14"
definition DataLoss :: Code where "DataLoss = 15"
definition Unauthenticated :: Code where "Unauthenticated = 16"

lemmas Code_defs = OK_def Canceled_def Unknown_def InvalidArgument_def DeadlineExceeded_def
  NotFound_def AlreadyExists_def PermissionDenied_def ResourceExhausted_def
  FailedPrecondition_def Aborted_def OutOfRange_def Unimplemented_def Internal_def
  Unavailable_def DataLoss_def Unauthenticated_def

text \<open>The codes of \<open>google.golang.org/grpc/codes\<close>, an enumeration of that package.\<close>

datatype grpc_code =
    G_OK | G_Canceled | G_Unknown | G_InvalidArgument | G_DeadlineExceeded | G_NotFound
  | G_AlreadyExists | G_PermissionDenied | G_ResourceExhausted | G_FailedPrecondition
  | G_Aborted | G_OutOfRange | G_Unimplemented | G_Internal | G_Unavailable | G_DataLoss
  | G_Unauthenticated

text \<open>The numbers the gRPC specification gives them, and the order by number.\<close>

fun grpc_number :: "grpc_code \<Rightarrow> nat" where
  "grpc_number G_OK = 0"
| "grpc_number G_Canceled = 1"
| "grpc_number G_Unknown = 2"
| "grpc_number G_InvalidArgument = 3"
| "grpc_number G_DeadlineExceeded = 4"
| "grpc_number G_NotFound = 5"
| "grpc_number G_AlreadyExists = 6"
| "grpc_number G_PermissionDenied = 7"
| "grpc_number G_ResourceExhausted = 8"
| "grpc_number G_FailedPrecondition = 9"
| "grpc_number G_Aborted = 10"
| "grpc_number G_OutOfRange = 11"
| "grpc_number G_Unimplemented = 12"
| "grpc_number G_Internal = 13"
| "grpc_number G_Unavailable = 14"
| "grpc_number G_DataLoss = 15"
| "grpc_number G_Unauthenticated = 16"

lemma grpc_number_inj: "grpc_number a = grpc_number b \<Longrightarrow> a = b"
  by (cases a; cases b) simp_all

instantiation grpc_code :: linorder
begin

definition less_eq_grpc_code :: "grpc_code \<Rightarrow> grpc_code \<Rightarrow> bool" where
  "less_eq_grpc_code a b = (grpc_number a \<le> grpc_number b)"

definition less_grpc_code :: "grpc_code \<Rightarrow> grpc_code \<Rightarrow> bool" where
  "less_grpc_code a b = (grpc_number a < grpc_number b)"

instance
  by standard (auto simp: less_eq_grpc_code_def less_grpc_code_def intro: grpc_number_inj)

end

text \<open>\<open>toGRPCCode\<close> of \<open>middleware/validation/converter.go\<close>: the switch, with its default.\<close>

definition toGRPCCode :: "Code \<Rightarrow> grpc_code" where
  "toGRPCCode code =
    (if code = OK then G_OK
     else if code = Canceled then G_Canceled
     else if code = InvalidArgument then G_InvalidArgument
     else if code = DeadlineExceeded then G_DeadlineExceeded
     else if code = NotFound then G_NotFound
     else if code = AlreadyExists then G_AlreadyExists
     else if code = PermissionDenied then G_PermissionDenied
     else if code = ResourceExhausted then G_ResourceExhausted
     else if code = FailedPrecondition then G_FailedPrecondition
     else if code = Aborted then G_Aborted
     else if code = OutOfRange then G_OutOfRange
     else if code = Unimplemented then G_Unimplemented
     else if code = Internal then G_Internal
     else if code = Unavailable then G_Unavailable
     else if code = DataLoss then G_DataLoss
     else if code = Unauthenticated then G_Unauthenticated
     else G_Unknown)"

section \<open>Error values\<close>

datatype errno = ENOENT | ENOTDIR | EISDIR | EEXIST | ENOTEMPTY | ENOSPC | EINVAL | EIO | EACCES | ENOTTY | EBADF

datatype go_error =
    CommonError string Code
  | ValidationErrors "string list"
  | StatusError grpc_code string
  | ContextCanceled
  | ContextDeadlineExceeded
  | EOF
  | ErrUnexpectedEOF
  | ErrNoProgress
  | ErrShortWrite
  | ErrNotExist
  | Errno errno
  | ErrNoRows
  | PgError string
  | ErrBodyRead
  | ErrorString string
  | WrapError string go_error
  | JoinError go_error go_error
  | BodyReadError go_error

text \<open>
  \<open>WrapError m e\<close> is \<open>fmt.Errorf("m: %w", e)\<close> and \<open>errors.Wrap(e, "m")\<close>;
  \<open>JoinError a b\<close> is \<open>fmt.Errorf("%w: %w", a, b)\<close>, which unwraps to both;
  \<open>BodyReadError\<close> is the gateway's error type with its own \<open>Is\<close> and \<open>Unwrap\<close>.
  An operating-system error is represented by its errno; \<open>errors.Is(err, os.ErrNotExist)\<close>
  holds for \<open>ENOENT\<close>.
\<close>

fun errors_Is :: "go_error \<Rightarrow> go_error \<Rightarrow> bool" where
  "errors_Is (WrapError m e) t = (WrapError m e = t \<or> errors_Is e t)"
| "errors_Is (JoinError a b) t = (JoinError a b = t \<or> errors_Is a t \<or> errors_Is b t)"
| "errors_Is (BodyReadError e) t = (BodyReadError e = t \<or> t = ErrBodyRead \<or> errors_Is e t)"
| "errors_Is (Errno n) t = (Errno n = t \<or> (n = ENOENT \<and> t = ErrNotExist))"
| "errors_Is e t = (e = t)"

fun as_common :: "go_error \<Rightarrow> (string \<times> Code) option" where
  "as_common (CommonError m c) = Some (m, c)"
| "as_common (WrapError m e) = as_common e"
| "as_common (JoinError a b) = (case as_common a of None \<Rightarrow> as_common b | Some x \<Rightarrow> Some x)"
| "as_common (BodyReadError e) = as_common e"
| "as_common e = None"

fun as_validation :: "go_error \<Rightarrow> string list option" where
  "as_validation (ValidationErrors ms) = Some ms"
| "as_validation (WrapError m e) = as_validation e"
| "as_validation (JoinError a b) = (case as_validation a of None \<Rightarrow> as_validation b | Some x \<Rightarrow> Some x)"
| "as_validation (BodyReadError e) = as_validation e"
| "as_validation e = None"

fun as_status :: "go_error \<Rightarrow> (grpc_code \<times> string) option" where
  "as_status (StatusError c m) = Some (c, m)"
| "as_status (WrapError m e) = as_status e"
| "as_status (JoinError a b) = (case as_status a of None \<Rightarrow> as_status b | Some x \<Rightarrow> Some x)"
| "as_status (BodyReadError e) = as_status e"
| "as_status e = None"

fun as_pgerror :: "go_error \<Rightarrow> string option" where
  "as_pgerror (PgError c) = Some c"
| "as_pgerror (WrapError m e) = as_pgerror e"
| "as_pgerror (JoinError a b) = (case as_pgerror a of None \<Rightarrow> as_pgerror b | Some x \<Rightarrow> Some x)"
| "as_pgerror (BodyReadError e) = as_pgerror e"
| "as_pgerror e = None"

text \<open>\<open>sys/error.go\<close>.\<close>

definition NewCommonError :: "string \<Rightarrow> Code \<Rightarrow> go_error" where
  "NewCommonError msg code = CommonError msg code"

definition IsCommonError :: "go_error \<Rightarrow> bool" where
  "IsCommonError err = (as_common err \<noteq> None)"

definition GetCommonError :: "go_error \<Rightarrow> (string \<times> Code) option" where
  "GetCommonError err = as_common err"

section \<open>Error texts\<close>

text \<open>
  \<open>json.Marshal\<close> of a slice of strings, with the escapes of encoding/json for ASCII input;
  bytes above 127 are copied.
\<close>

definition hex_char :: "nat \<Rightarrow> char" where
  "hex_char d = (if d < 10 then char_of (48 + d) else char_of (87 + d))"

definition json_escape :: "char \<Rightarrow> string" where
  "json_escape c =
    (let n = of_char c :: nat in
     if n = 34 then [CHR 0x5C, CHR 0x22]
     else if n = 92 then [CHR 0x5C, CHR 0x5C]
     else if n = 8 then [CHR 0x5C, CHR ''b'']
     else if n = 12 then [CHR 0x5C, CHR ''f'']
     else if n = 10 then [CHR 0x5C, CHR ''n'']
     else if n = 13 then [CHR 0x5C, CHR ''r'']
     else if n = 9 then [CHR 0x5C, CHR ''t'']
     else if n < 32 \<or> n \<in> {38, 60, 62}
       then [CHR 0x5C, CHR ''u'', CHR ''0'', CHR ''0'', hex_char (n div 16), hex_char (n mod 16)]
     else [c])"

definition json_string :: "string \<Rightarrow> string" where
  "json_string s = CHR 0x22 # concat (map json_escape s) @ [CHR 0x22]"

fun json_join :: "string list \<Rightarrow> string" where
  "json_join [] = []"
| "json_join [s] = json_string s"
| "json_join (s # ss) = json_string s @ CHR '','' # json_join ss"

definition json_string_list :: "string list \<Rightarrow> string" where
  "json_string_list ss = CHR ''['' # json_join ss @ [CHR '']'']"

fun errno_text :: "errno \<Rightarrow> string" where
  "errno_text ENOENT = ''no such file or directory''"
| "errno_text ENOTDIR = ''not a directory''"
| "errno_text EISDIR = ''is a directory''"
| "errno_text EEXIST = ''file exists''"
| "errno_text ENOTEMPTY = ''directory not empty''"
| "errno_text ENOSPC = ''no space left on device''"
| "errno_text EINVAL = ''invalid argument''"
| "errno_text EIO = ''input/output error''"
| "errno_text EACCES = ''permission denied''"
| "errno_text ENOTTY = ''inappropriate ioctl for device''"
| "errno_text EBADF = ''bad file descriptor''"

text \<open>
  \<open>err.Error()\<close>. The text of a status, Postgres or operating-system error is abbreviated to
  the part the sources use (the message, the SQLSTATE, the errno's text).
\<close>

fun error_text :: "go_error \<Rightarrow> string" where
  "error_text (CommonError m c) = m"
| "error_text (ValidationErrors ms) = json_string_list ms"
| "error_text (StatusError c m) = m"
| "error_text ContextCanceled = ''context canceled''"
| "error_text ContextDeadlineExceeded = ''context deadline exceeded''"
| "error_text EOF = ''EOF''"
| "error_text ErrUnexpectedEOF = ''unexpected EOF''"
| "error_text ErrNoProgress = ''multiple Read calls return no data or error''"
| "error_text ErrShortWrite = ''short write''"
| "error_text ErrNotExist = ''file does not exist''"
| "error_text (Errno n) = errno_text n"
| "error_text ErrNoRows = ''no rows in result set''"
| "error_text (PgError c) = c"
| "error_text ErrBodyRead = ''could not read request body''"
| "error_text (ErrorString m) = m"
| "error_text (WrapError m e) = m @ '': '' @ error_text e"
| "error_text (JoinError a b) = error_text a @ '': '' @ error_text b"
| "error_text (BodyReadError e) = error_text e"

section \<open>Validation\<close>

text \<open>\<open>sys/validate\<close>: a condition is evaluated to its error, or to none.\<close>

definition NewValidationErrors :: "string list \<Rightarrow> go_error" where
  "NewValidationErrors messages = ValidationErrors messages"

definition IsValidationError :: "go_error \<Rightarrow> bool" where
  "IsValidationError err = (as_validation err \<noteq> None)"

definition addError :: "string list \<Rightarrow> string \<Rightarrow> string list" where
  "addError ms message = ms @ [message]"

fun validate_loop :: "string list \<Rightarrow> go_error option list \<Rightarrow> go_error option" where
  "validate_loop ve [] = (if ve = [] then None else Some (ValidationErrors ve))"
| "validate_loop ve (None # conds) = validate_loop ve conds"
| "validate_loop ve (Some err # conds) =
     (if IsValidationError err then validate_loop (addError ve (error_text err)) conds
      else Some err)"

definition Validate :: "go_error option list \<Rightarrow> go_error option" where
  "Validate conds = validate_loop [] conds"

lemma validate_loop_None:
  "validate_loop ve conds = None \<longleftrightarrow> ve = [] \<and> (\<forall>c \<in> set conds. c = None)"
  by (induction ve conds rule: validate_loop.induct) (auto simp: addError_def)

lemma Validate_None: "Validate conds = None \<longleftrightarrow> (\<forall>c \<in> set conds. c = None)"
  by (simp add: Validate_def validate_loop_None)

lemma validate_loop_all_validation:
  assumes "\<And>e. Some e \<in> set conds \<Longrightarrow> IsValidationError e"
  shows "validate_loop ve conds =
    (if ve = [] \<and> (\<forall>c \<in> set conds. c = None) then None
     else Some (ValidationErrors (ve @ map error_text (List.map_filter id conds))))"
  using assms
  by (induction ve conds rule: validate_loop.induct)
    (auto simp: addError_def List.map_filter_simps)

section \<open>The error interceptor\<close>

text \<open>
  \<open>handleError\<close> of \<open>middleware/validation/interceptor.go\<close>. The result is the error the
  client receives, always a status error, or none; logging is left out.
  \<open>status_Err\<close> is \<open>(*Status).Err()\<close>: nil for code OK.
\<close>

definition status_Err :: "grpc_code \<times> string \<Rightarrow> go_error option" where
  "status_Err s = (case s of (c, m) \<Rightarrow> if c = G_OK then None else Some (StatusError c m))"

definition handleError :: "go_error option \<Rightarrow> go_error option" where
  "handleError oerr =
    (case oerr of None \<Rightarrow> None
     | Some err \<Rightarrow>
        if IsCommonError err then
          (case GetCommonError err of
             None \<Rightarrow> None
           | Some (msg, c) \<Rightarrow> status_Err (toGRPCCode c, msg))
        else if IsValidationError err then status_Err (G_InvalidArgument, error_text err)
        else (case as_status err of
            Some s \<Rightarrow> status_Err s
          | None \<Rightarrow>
             if errors_Is err ErrUnexpectedEOF then status_Err (G_InvalidArgument, error_text err)
             else if errors_Is err ContextDeadlineExceeded then status_Err (G_DeadlineExceeded, error_text err)
             else if errors_Is err ContextCanceled then status_Err (G_Canceled, error_text err)
             else status_Err (G_Internal, ''internal error'')))"

definition handleError_result :: "go_error + 'a \<Rightarrow> go_error + 'a" where
  "handleError_result r =
    (case r of Inr x \<Rightarrow> Inr x
     | Inl e \<Rightarrow> (case handleError (Some e) of Some e' \<Rightarrow> Inl e' | None \<Rightarrow> Inl e))"

definition ErrorCodesUnaryInterceptor :: "('w, go_error, 'a) op \<Rightarrow> 'w \<Rightarrow> go_error option \<times> ('a option) \<times> 'w" where
  "ErrorCodesUnaryInterceptor handler = (\<lambda>w.
    case handler w of
      (Inl e, w') \<Rightarrow> (handleError (Some e), None, w')
    | (Inr x, w') \<Rightarrow> (handleError None, Some x, w'))"

definition ErrorCodesStreamInterceptor :: "('w, go_error, unit) op \<Rightarrow> 'w \<Rightarrow> go_error option \<times> 'w" where
  "ErrorCodesStreamInterceptor handler = (\<lambda>w.
    case handler w of
      (Inl e, w') \<Rightarrow> (handleError (Some e), w')
    | (Inr _, w') \<Rightarrow> (handleError None, w'))"

text \<open>\<open>status.Code\<close> of the gRPC runtime: the code of the status error in the chain.\<close>

definition status_Code :: "go_error \<Rightarrow> grpc_code" where
  "status_Code err = (case as_status err of Some (c, _) \<Rightarrow> c | None \<Rightarrow> G_Unknown)"

end
