(* ===== verification/Contextx.thy ===== *)
theory Contextx
  imports Go_Errors
begin

text \<open>
  Contexts: package context of the standard library as far as the services use it, and the
  go-kit packages \<open>contextx/claimsctx\<close>, \<open>ipctx\<close>, \<open>txctx\<close> and \<open>traceIDctx\<close>.

  Every world of the development carries a clock \<open>now\<close> that each outside call advances. A
  context ends at a given tick with a given error (cancellation or deadline) or never, so
  \<open>ctx.Err()\<close> is a function of the context and the clock and never changes back to nil.
\<close>

record clocked =
  now :: nat

text \<open>Why a context ends: the two errors \<open>ctx.Err()\<close> can return.\<close>

datatype ctx_cause = Cancelled | Expired

fun ctx_cause_error :: "ctx_cause \<Rightarrow> go_error" where
  "ctx_cause_error Cancelled = ContextCanceled"
| "ctx_cause_error Expired = ContextDeadlineExceeded"

datatype ctx_value = CtxString string | CtxTx nat

record ctx =
  ctx_done :: "(nat \<times> ctx_cause) option"
  ctx_vals :: "string \<Rightarrow> ctx_value option"
  ctx_peer :: "string option"

definition Background :: ctx where
  "Background = \<lparr>ctx_done = None, ctx_vals = (\<lambda>_. None), ctx_peer = None\<rparr>"

definition ctx_Err :: "ctx \<Rightarrow> nat \<Rightarrow> go_error option" where
  "ctx_Err c t = (case ctx_done c of None \<Rightarrow> None | Some (d, c) \<Rightarrow> if d \<le> t then Some (ctx_cause_error c) else None)"

definition WithoutCancel :: "ctx \<Rightarrow> ctx" where
  "WithoutCancel c = c\<lparr>ctx_done := None\<rparr>"

definition WithValue :: "ctx \<Rightarrow> string \<Rightarrow> ctx_value \<Rightarrow> ctx" where
  "WithValue c k v = c\<lparr>ctx_vals := (ctx_vals c)(k \<mapsto> v)\<rparr>"

lemma ctx_Err_Background [simp]: "ctx_Err Background t = None"
  by (simp add: ctx_Err_def Background_def)

lemma ctx_Err_WithoutCancel [simp]: "ctx_Err (WithoutCancel c) t = None"
  by (simp add: ctx_Err_def WithoutCancel_def)

lemma ctx_Err_WithValue [simp]: "ctx_Err (WithValue c k v) t = ctx_Err c t"
  by (simp add: ctx_Err_def WithValue_def)

lemma ctx_Err_cases: "ctx_Err c t \<in> {None, Some ContextCanceled, Some ContextDeadlineExceeded}"
  by (auto simp: ctx_Err_def split: option.splits) (metis ctx_cause_error.simps ctx_cause.exhaust)

lemma ctx_Err_mono: "ctx_Err c t = Some e \<Longrightarrow> t \<le> t' \<Longrightarrow> ctx_Err c t' = Some e"
  by (auto simp: ctx_Err_def split: option.splits if_splits)

text \<open>\<open>if err := ctx.Err(); err != nil { return err }\<close>: a poll takes one tick.\<close>

definition ctxErr :: "ctx \<Rightarrow> ('a clocked_scheme, go_error, unit) op" where
  "ctxErr c = (\<lambda>w. let w' = w\<lparr>now := Suc (now w)\<rparr> in
     case ctx_Err c (now w) of Some e \<Rightarrow> (Inl e, w') | None \<Rightarrow> (Inr (), w'))"

lemma wpE_ctxErr:
  "wpE (ctxErr c) Q E =
     (\<lambda>w. case ctx_Err c (now w) of
        Some e \<Rightarrow> E e (w\<lparr>now := Suc (now w)\<rparr>) | None \<Rightarrow> Q () (w\<lparr>now := Suc (now w)\<rparr>))"
  by (rule ext) (simp add: wpE_def ctxErr_def Let_def split: option.splits)

lemma preserves_ctxErr:
  "(\<And>w t. f (w\<lparr>now := t\<rparr>) = f w) \<Longrightarrow> preserves (ctxErr c) f"
  by (simp add: preserves_def ctxErr_def Let_def split: option.splits)

section \<open>Values carried by a context\<close>

definition UserEmailKey :: string where "UserEmailKey = ''user_email''"
definition UserIDKey :: string where "UserIDKey = ''user_id''"
definition IpKey :: string where "IpKey = ''ip''"
definition TxKey :: string where "TxKey = ''tx''"
definition TraceIDKey :: string where "TraceIDKey = ''trace_id''"

lemmas ctx_key_defs = UserEmailKey_def UserIDKey_def IpKey_def TxKey_def TraceIDKey_def

definition ctx_string :: "ctx \<Rightarrow> string \<Rightarrow> string option" where
  "ctx_string c k = (case ctx_vals c k of Some (CtxString s) \<Rightarrow> Some s | _ \<Rightarrow> None)"

definition InjectUserEmail :: "ctx \<Rightarrow> string \<Rightarrow> ctx" where
  "InjectUserEmail c email = WithValue c UserEmailKey (CtxString email)"

definition InjectUserID :: "ctx \<Rightarrow> string \<Rightarrow> ctx" where
  "InjectUserID c userID = WithValue c UserIDKey (CtxString userID)"

definition ExtractUserEmail :: "ctx \<Rightarrow> string \<times> bool" where
  "ExtractUserEmail c = (case ctx_string c UserEmailKey of
     Some email \<Rightarrow> (email, True) | None \<Rightarrow> (''unknown'', False))"

definition ExtractUserID :: "ctx \<Rightarrow> string \<times> bool" where
  "ExtractUserID c = (case ctx_string c UserIDKey of
     Some userID \<Rightarrow> (userID, True) | None \<Rightarrow> ([], False))"

definition InjectTraceId :: "ctx \<Rightarrow> string \<Rightarrow> ctx" where
  "InjectTraceId c traceID = WithValue c TraceIDKey (CtxString traceID)"

definition ExtractTraceId :: "ctx \<Rightarrow> string \<times> bool" where
  "ExtractTraceId c = (case ctx_string c TraceIDKey of
     Some traceID \<Rightarrow> (traceID, True) | None \<Rightarrow> ([], False))"

definition InjectTx :: "ctx \<Rightarrow> nat \<Rightarrow> ctx" where
  "InjectTx c tx = WithValue c TxKey (CtxTx tx)"

definition ExtractTx :: "ctx \<Rightarrow> nat option" where
  "ExtractTx c = (case ctx_vals c TxKey of Some (CtxTx tx) \<Rightarrow> Some tx | _ \<Rightarrow> None)"

text \<open>
  \<open>net.SplitHostPort\<close>: the port follows the last colon; a host in brackets may hold colons.
\<close>

definition last_index :: "char \<Rightarrow> string \<Rightarrow> nat option" where
  "last_index c s = (if c \<in> set s
     then Some (length s - 1 - length (takeWhile (\<lambda>x. x \<noteq> c) (rev s))) else None)"

definition SplitHostPort :: "string \<Rightarrow> (string \<times> string) option" where
  "SplitHostPort hp =
    (case last_index (CHR '':'') hp of None \<Rightarrow> None
     | Some i \<Rightarrow>
        if take 1 hp = ''['' then
          (if CHR '']'' \<notin> set hp then None
           else let e = length (takeWhile (\<lambda>x. x \<noteq> CHR '']'') hp) in
             if e + 1 \<noteq> i then None
             else if CHR ''['' \<in> set (drop 1 hp) \<or> CHR '']'' \<in> set (drop (e + 1) hp) then None
             else Some (take (e - 1) (drop 1 hp), drop (i + 1) hp))
        else if CHR '':'' \<in> set (take i hp) then None
        else if CHR ''['' \<in> set hp \<or> CHR '']'' \<in> set hp then None
        else Some (take i hp, drop (i + 1) hp))"

definition InjectIp :: "ctx \<Rightarrow> ctx" where
  "InjectIp c =
    (case ctx_peer c of None \<Rightarrow> c
     | Some addr \<Rightarrow>
        (case SplitHostPort addr of None \<Rightarrow> c
         | Some (ip, _) \<Rightarrow> WithValue c IpKey (CtxString ip)))"

definition ExtractIP :: "ctx \<Rightarrow> string \<times> bool" where
  "ExtractIP c = (case ctx_string c IpKey of
     Some ip \<Rightarrow> (ip, True) | None \<Rightarrow> (''unknown'', False))"

lemmas contextx_defs = InjectUserEmail_def InjectUserID_def ExtractUserEmail_def ExtractUserID_def
  InjectTraceId_def ExtractTraceId_def InjectTx_def ExtractTx_def InjectIp_def ExtractIP_def
  ctx_string_def WithValue_def

text \<open>The keys are distinct, so a value injected under one key is read back unchanged.\<close>

lemma Extract_Inject:
  "ExtractUserEmail (InjectUserEmail c e) = (e, True)"
  "ExtractUserID (InjectUserID c u) = (u, True)"
  "ExtractTraceId (InjectTraceId c t) = (t, True)"
  "ExtractTx (InjectTx c x) = Some x"
  "ExtractUserEmail (InjectUserID c u) = ExtractUserEmail c"
  "ExtractUserID (InjectUserEmail c e) = ExtractUserID c"
  "ExtractIP (InjectTx c x) = ExtractIP c"
  by (simp_all add: contextx_defs ctx_key_defs)

end
