(* ===== verification/Go_OS.thy ===== *)
theory Go_OS
  imports Contextx "HOL-Library.Finite_Map"
begin

text \<open>
  The part of the standard library that the storage service drives: \<open>path/filepath\<close>,
  \<open>os\<close> on a file tree, \<open>syscall.Statfs\<close> and \<open>io.Copy\<close>.

  A path is the list of its components below the root; directories configured relative to the
  working directory are taken as resolved. A file tree is a finite map from paths to nodes.
  Every call takes one tick of the clock, and \<open>faults\<close> says which ticks fail, with which
  fault and, for a write, after how many bytes. All theorems quantify over \<open>faults\<close>, so they
  cover every pattern of I/O errors. Symbolic links, permissions and other processes that
  change the tree are not modelled.
\<close>

section \<open>Paths\<close>

type_synonym path = "string list"

fun split_slash :: "string \<Rightarrow> string \<Rightarrow> string list" where
  "split_slash acc [] = [rev acc]"
| "split_slash acc (c # cs) =
     (if c = CHR ''/'' then rev acc # split_slash [] cs else split_slash (c # acc) cs)"

text \<open>One component of \<open>filepath.Clean\<close> on a rooted path.\<close>

definition clean_step :: "path \<Rightarrow> string \<Rightarrow> path" where
  "clean_step p c = (if c = [] \<or> c = ''.'' then p else if c = ''..'' then butlast p else p @ [c])"

definition filepath_Join :: "path \<Rightarrow> string list \<Rightarrow> path" where
  "filepath_Join base elems = foldl clean_step base (concat (map (split_slash []) elems))"

definition filepath_Dir :: "path \<Rightarrow> path" where
  "filepath_Dir p = butlast p"

definition filepath_Base :: "path \<Rightarrow> string" where
  "filepath_Base p = (if p = [] then ''/'' else last p)"

text \<open>A name that stays a single component under \<open>Join\<close>.\<close>

definition plain_name :: "string \<Rightarrow> bool" where
  "plain_name s = (s \<noteq> [] \<and> s \<noteq> ''.'' \<and> s \<noteq> ''..'' \<and> CHR ''/'' \<notin> set s)"

lemma split_slash_plain: "CHR ''/'' \<notin> set s \<Longrightarrow> split_slash acc s = [rev acc @ s]"
  by (induction s arbitrary: acc) auto

lemma Join_Nil [simp]: "filepath_Join base [] = base"
  by (simp add: filepath_Join_def)

lemma Join_Cons_plain:
  assumes "plain_name s"
  shows "filepath_Join base (s # ss) = filepath_Join (base @ [s]) ss"
  using assms by (simp add: filepath_Join_def plain_name_def split_slash_plain clean_step_def)

lemma Join_empty: "filepath_Join base ([] # ss) = filepath_Join base ss"
  by (simp add: filepath_Join_def clean_step_def)

lemma Join_dotdot: "filepath_Join base (''..'' # ss) = filepath_Join (butlast base) ss"
  by (simp add: filepath_Join_def clean_step_def)

section \<open>File trees\<close>

datatype node = Dir | File bytes

type_synonym fs = "(path, node) fmap"

definition file_at :: "fs \<Rightarrow> path \<Rightarrow> bytes option" where
  "file_at t p = (if p = [] then None else case fmlookup t p of Some (File d) \<Rightarrow> Some d | _ \<Rightarrow> None)"

definition dir_at :: "fs \<Rightarrow> path \<Rightarrow> bool" where
  "dir_at t p = (p = [] \<or> fmlookup t p = Some Dir)"

definition below_file :: "fs \<Rightarrow> path \<Rightarrow> bool" where
  "below_file t p = list_ex (\<lambda>q. file_at t q \<noteq> None) (prefixes p)"

definition fs_lookup :: "fs \<Rightarrow> path \<Rightarrow> errno + node" where
  "fs_lookup t p =
    (if p = [] then Inr Dir
     else case fmlookup t p of Some n \<Rightarrow> Inr n
     | None \<Rightarrow> if below_file t p then Inl ENOTDIR else Inl ENOENT)"

definition has_child :: "fs \<Rightarrow> path \<Rightarrow> bool" where
  "has_child t p = (fmfilter (\<lambda>q. strict_prefix p q) t \<noteq> fmempty)"

definition fs_mkdirall :: "fs \<Rightarrow> path \<Rightarrow> errno + fs" where
  "fs_mkdirall t p =
    (if below_file t p then Inl ENOTDIR
     else Inr (fold (\<lambda>q. fmupd q Dir) (filter (\<lambda>q. q \<noteq> []) (prefixes p)) t))"

text \<open>\<open>open(O_CREATE|O_TRUNC)\<close>: the parent must be a directory, the target not one.\<close>

definition fs_create :: "fs \<Rightarrow> path \<Rightarrow> errno + fs" where
  "fs_create t p =
    (case fs_lookup t (butlast p) of Inl e \<Rightarrow> Inl e
     | Inr (File _) \<Rightarrow> Inl ENOTDIR
     | Inr Dir \<Rightarrow> if dir_at t p then Inl EISDIR else Inr (fmupd p (File []) t))"

definition fs_append :: "fs \<Rightarrow> path \<Rightarrow> bytes \<Rightarrow> fs" where
  "fs_append t p bs = (case file_at t p of None \<Rightarrow> t | Some d \<Rightarrow> fmupd p (File (d @ bs)) t)"

definition fs_remove :: "fs \<Rightarrow> path \<Rightarrow> errno + fs" where
  "fs_remove t p =
    (case fs_lookup t p of Inl e \<Rightarrow> Inl e
     | Inr (File _) \<Rightarrow> Inr (fmdrop p t)
     | Inr Dir \<Rightarrow> if has_child t p then Inl ENOTEMPTY else Inr (fmdrop p t))"

definition fs_removeall :: "fs \<Rightarrow> path \<Rightarrow> errno + fs" where
  "fs_removeall t p =
    (case fs_lookup t p of
       Inl e \<Rightarrow> if e = ENOENT then Inr t else Inl e
     | Inr _ \<Rightarrow> Inr (fmfilter (\<lambda>q. \<not> prefix p q) t))"

text \<open>\<open>os.Rename\<close> of a file. The sources never rename a directory; the model refuses it.\<close>

definition fs_rename :: "fs \<Rightarrow> path \<Rightarrow> path \<Rightarrow> errno + fs" where
  "fs_rename t old new =
    (case fs_lookup t old of Inl e \<Rightarrow> Inl e
     | Inr Dir \<Rightarrow> Inl EINVAL
     | Inr (File d) \<Rightarrow>
        (case fs_lookup t (butlast new) of Inl e \<Rightarrow> Inl e
         | Inr (File _) \<Rightarrow> Inl ENOTDIR
         | Inr Dir \<Rightarrow> if dir_at t new then Inl EEXIST
                    else Inr (fmupd new (File d) (fmdrop old t))))"

section \<open>The world of the storage service\<close>

text \<open>
  Faults of the device: the disk is full, the device fails, access is refused. A fault is never
  an error about the tree itself, such as a missing file, which only the tree decides.
\<close>

datatype fault = DiskFull | DeviceError | AccessDenied

fun fault_errno :: "fault \<Rightarrow> errno" where
  "fault_errno DiskFull = ENOSPC"
| "fault_errno DeviceError = EIO"
| "fault_errno AccessDenied = EACCES"

lemma fault_errno_not_tree: "fault_errno e \<noteq> ENOENT"
  by (cases e) simp_all

record fs_world = clocked +
  nodes :: fs
  faults :: "nat \<Rightarrow> (fault \<times> nat) option"
  disk :: "nat \<Rightarrow> nat \<times> nat"
  temp_names :: "nat \<Rightarrow> string"
  dir_size :: int
  readBytes :: "int option"
  writeBytes :: "int option"

text \<open>
  \<open>disk\<close> is what \<open>statfs\<close> reports at a tick (available blocks, block size),
  \<open>temp_names\<close> the random part of a temporary name. The two counters belong to the metrics of
  \<open>internal/observability\<close>; none stands for a counter that was never initialised.
\<close>

type_synonym 'a fsop = "(fs_world, go_error, 'a) op"

text \<open>A call that changes the tree or fails without effect, and one that only reads it.\<close>

definition sys_update :: "(fs \<Rightarrow> errno + fs) \<Rightarrow> unit fsop" where
  "sys_update f = (\<lambda>w. let w' = w\<lparr>now := Suc (now w)\<rparr> in
     case faults w (now w) of Some (e, _) \<Rightarrow> (Inl (Errno (fault_errno e)), w')
     | None \<Rightarrow> (case f (nodes w) of Inl e \<Rightarrow> (Inl (Errno e), w')
              | Inr t \<Rightarrow> (Inr (), w'\<lparr>nodes := t\<rparr>)))"

definition sys_read :: "(fs_world \<Rightarrow> errno + 'a) \<Rightarrow> 'a fsop" where
  "sys_read f = (\<lambda>w. let w' = w\<lparr>now := Suc (now w)\<rparr> in
     case faults w (now w) of Some (e, _) \<Rightarrow> (Inl (Errno (fault_errno e)), w')
     | None \<Rightarrow> (case f w of Inl e \<Rightarrow> (Inl (Errno e), w') | Inr x \<Rightarrow> (Inr x, w')))"

definition os_MkdirAll :: "path \<Rightarrow> unit fsop" where
  "os_MkdirAll p = sys_update (\<lambda>t. fs_mkdirall t p)"

definition os_Remove :: "path \<Rightarrow> unit fsop" where
  "os_Remove p = sys_update (\<lambda>t. fs_remove t p)"

definition os_RemoveAll :: "path \<Rightarrow> unit fsop" where
  "os_RemoveAll p = sys_update (\<lambda>t. fs_removeall t p)"

definition os_Rename :: "path \<Rightarrow> path \<Rightarrow> unit fsop" where
  "os_Rename old new = sys_update (\<lambda>t. fs_rename t old new)"

definition os_Stat :: "path \<Rightarrow> node fsop" where
  "os_Stat p = sys_read (\<lambda>w. fs_lookup (nodes w) p)"

definition os_ReadFile :: "path \<Rightarrow> bytes fsop" where
  "os_ReadFile p = sys_read (\<lambda>w. case fs_lookup (nodes w) p of
     Inl e \<Rightarrow> Inl e | Inr Dir \<Rightarrow> Inl EISDIR | Inr (File d) \<Rightarrow> Inr d)"

text \<open>\<open>os.Open\<close> gives a handle on the node it finds; a directory opens too.\<close>

definition os_Open :: "path \<Rightarrow> node fsop" where
  "os_Open p = os_Stat p"

definition file_Stat_Size :: "node \<Rightarrow> int fsop" where
  "file_Stat_Size h = sys_read (\<lambda>w. Inr (case h of Dir \<Rightarrow> dir_size w | File d \<Rightarrow> int (length d)))"

definition file_Seek :: "node \<Rightarrow> int \<Rightarrow> unit fsop" where
  "file_Seek h off = sys_read (\<lambda>w. if off < 0 then Inl EINVAL else Inr ())"

text \<open>\<open>(*os.File).Write\<close>: a failing write may have stored a prefix.\<close>

definition file_Write :: "path \<Rightarrow> bytes \<Rightarrow> unit fsop" where
  "file_Write p bs = (\<lambda>w. let w' = w\<lparr>now := Suc (now w)\<rparr> in
     case faults w (now w) of
       Some (e, k) \<Rightarrow> (Inl (Errno (fault_errno e)), w'\<lparr>nodes := fs_append (nodes w) p (take k bs)\<rparr>)
     | None \<Rightarrow> (Inr (), w'\<lparr>nodes := fs_append (nodes w) p bs\<rparr>))"

text \<open>\<open>Sync\<close>, \<open>Close\<close> and \<open>Chmod\<close> leave the tree alone and may fail.\<close>

definition file_Op :: "unit fsop" where
  "file_Op = sys_read (\<lambda>w. Inr ())"

text \<open>
  \<open>os.CreateTemp(dir, prefix*suffix)\<close>: the random part is the world's choice; a name that is
  taken every time is reported as \<open>EEXIST\<close>.
\<close>

definition os_CreateTemp :: "path \<Rightarrow> string \<Rightarrow> string \<Rightarrow> path fsop" where
  "os_CreateTemp dir pre suf = (\<lambda>w.
     let p = dir @ [pre @ temp_names w (now w) @ suf]; w' = w\<lparr>now := Suc (now w)\<rparr> in
     case faults w (now w) of Some (e, _) \<Rightarrow> (Inl (Errno (fault_errno e)), w')
     | None \<Rightarrow> if fmlookup (nodes w) p \<noteq> None then (Inl (Errno EEXIST), w')
              else (case fs_create (nodes w) p of
                  Inl e \<Rightarrow> (Inl (Errno e), w') | Inr t \<Rightarrow> (Inr p, w'\<lparr>nodes := t\<rparr>)))"

text \<open>\<open>os.WriteFile\<close>: create or truncate, write, close.\<close>

definition os_WriteFile :: "path \<Rightarrow> bytes \<Rightarrow> unit fsop" where
  "os_WriteFile p bs =
    bindE (sys_update (\<lambda>t. fs_create t p)) (\<lambda>_.
    bindE (file_Write p bs) (\<lambda>_. file_Op))"

definition syscall_Statfs :: "path \<Rightarrow> (nat \<times> nat) fsop" where
  "syscall_Statfs dir = sys_read (\<lambda>w. case fs_lookup (nodes w) dir of
     Inl e \<Rightarrow> Inl e | Inr _ \<Rightarrow> Inr (disk w (now w)))"

section \<open>What the calls do to files and directories\<close>

definition files :: "fs_world \<Rightarrow> path \<Rightarrow> bytes option" where
  "files w = file_at (nodes w)"

definition is_dir :: "fs_world \<Rightarrow> path \<Rightarrow> bool" where
  "is_dir w = dir_at (nodes w)"

lemma files_tick [simp]: "files (w\<lparr>now := n\<rparr>) = files w"
  by (simp add: files_def)

lemma is_dir_tick [simp]: "is_dir (w\<lparr>now := n\<rparr>) = is_dir w"
  by (simp add: is_dir_def)

lemma files_counters [simp]:
  "files (w\<lparr>readBytes := a\<rparr>) = files w" "files (w\<lparr>writeBytes := a\<rparr>) = files w"
  by (simp_all add: files_def)

lemma fmlookup_fold_upd:
  "fmlookup (fold (\<lambda>q. fmupd q v) qs t) p = (if p \<in> set qs then Some v else fmlookup t p)"
  by (induction qs arbitrary: t) auto

lemma mkdirall_file_at:
  assumes "fs_mkdirall t p = Inr t'"
  shows "file_at t' = file_at t"
proof
  fix q
  have "prefix q p \<Longrightarrow> file_at t q = None"
    using assms by (auto simp: fs_mkdirall_def below_file_def list_ex_iff split: if_splits)
  moreover have "fmlookup t' q = (if prefix q p \<and> q \<noteq> [] then Some Dir else fmlookup t q)"
    using assms by (auto simp: fs_mkdirall_def fmlookup_fold_upd split: if_splits)
  ultimately show "file_at t' q = file_at t q"
    by (auto simp: file_at_def)
qed

lemma mkdirall_dir_at:
  "fs_mkdirall t p = Inr t' \<Longrightarrow> dir_at t' q = (dir_at t q \<or> prefix q p)"
  by (auto simp: fs_mkdirall_def dir_at_def fmlookup_fold_upd split: if_splits)

lemma create_file_at: "fs_create t p = Inr t' \<Longrightarrow> file_at t' = (file_at t)(p \<mapsto> [])"
  by (rule ext) (auto simp: fs_create_def file_at_def dir_at_def split: sum.splits node.splits if_splits)

lemma create_dir_at: "fs_create t p = Inr t' \<Longrightarrow> dir_at t' = dir_at t"
  by (rule ext) (auto simp: fs_create_def dir_at_def split: sum.splits node.splits if_splits)

lemma append_file_at:
  "file_at (fs_append t p bs) =
     (case file_at t p of None \<Rightarrow> file_at t | Some d \<Rightarrow> (file_at t)(p \<mapsto> d @ bs))"
  by (rule ext) (auto simp: fs_append_def file_at_def split: option.splits node.splits)

lemma append_dir_at: "dir_at (fs_append t p bs) = dir_at t"
  by (rule ext) (auto simp: fs_append_def dir_at_def file_at_def split: option.splits node.splits)

lemma remove_file_at: "fs_remove t p = Inr t' \<Longrightarrow> file_at t' = (file_at t)(p := None)"
  by (rule ext) (auto simp: fs_remove_def file_at_def split: sum.splits node.splits if_splits)

lemma removeall_file_at:
  "fs_removeall t p = Inr t' \<Longrightarrow> \<not> prefix p q \<Longrightarrow> file_at t' q = file_at t q"
  by (auto simp: fs_removeall_def file_at_def split: sum.splits if_splits)

lemma removeall_file_at_below:
  "fs_removeall t p = Inr t' \<Longrightarrow> prefix p q \<Longrightarrow> file_at t' q = None \<or> t' = t"
  by (auto simp: fs_removeall_def file_at_def split: sum.splits if_splits)

lemma removeall_dir_at:
  "fs_removeall t p = Inr t' \<Longrightarrow> \<not> prefix p q \<Longrightarrow> dir_at t' q = dir_at t q"
  by (auto simp: fs_removeall_def dir_at_def split: sum.splits if_splits)

lemma fs_lookup_File: "fs_lookup t p = Inr (File d) \<longleftrightarrow> file_at t p = Some d"
  by (auto simp: fs_lookup_def file_at_def split: option.splits node.splits)

lemma fs_lookup_Dir: "fs_lookup t p = Inr Dir \<longleftrightarrow> dir_at t p"
  by (auto simp: fs_lookup_def dir_at_def split: option.splits)

lemma file_not_dir: "file_at t p = Some d \<Longrightarrow> \<not> dir_at t p"
  by (auto simp: file_at_def dir_at_def split: if_splits)

lemma dir_not_file: "dir_at t p \<Longrightarrow> file_at t p = None"
  by (auto simp: file_at_def dir_at_def)

lemma fs_rename_Inr:
  "fs_rename t old new = Inr t' \<longleftrightarrow>
     (\<exists>d. file_at t old = Some d \<and> dir_at t (butlast new) \<and> \<not> dir_at t new \<and>
          t' = fmupd new (File d) (fmdrop old t))"
  unfolding fs_rename_def
  by (cases "fs_lookup t old"; cases "fs_lookup t (butlast new)")
    (auto simp: fs_lookup_def file_at_def dir_at_def split: node.splits if_splits option.splits)

lemma rename_file_at:
  assumes "fs_rename t old new = Inr t'"
  obtains d where "file_at t old = Some d" "file_at t' = (file_at t)(old := None, new \<mapsto> d)"
proof -
  from assms obtain d where d: "file_at t old = Some d" "\<not> dir_at t new"
    and t': "t' = fmupd new (File d) (fmdrop old t)"
    by (auto simp: fs_rename_Inr)
  have "file_at t' q = ((file_at t)(old := None, new \<mapsto> d)) q" for q
    using d by (auto simp: t' file_at_def dir_at_def)
  with d(1) show ?thesis by (intro that) auto
qed

text \<open>
  Rules for a single call under any fault pattern: the conclusion of each is the weakest
  precondition, the premises say what is known of the next world on either return.
\<close>

named_theorems fs_wp \<open>call rules under any fault pattern\<close>

lemma wpE_sys_update:
  assumes "\<And>w' t. f (nodes w) = Inr t \<Longrightarrow> nodes w' = t \<Longrightarrow> Q () w'"
    and "\<And>e w'. (e = ENOENT \<Longrightarrow> f (nodes w) = Inl ENOENT) \<Longrightarrow> nodes w' = nodes w \<Longrightarrow> E (Errno e) w'"
  shows "wpE (sys_update f) Q E w"
  by (cases "faults w (now w)"; cases "f (nodes w)")
    (auto simp: fault_errno_not_tree wpE_def sys_update_def Let_def intro!: assms)

lemma wpE_sys_read:
  assumes "\<And>x w'. f w = Inr x \<Longrightarrow> nodes w' = nodes w \<Longrightarrow> Q x w'"
    and "\<And>e w'. (e = ENOENT \<Longrightarrow> f w = Inl ENOENT) \<Longrightarrow> nodes w' = nodes w \<Longrightarrow> E (Errno e) w'"
  shows "wpE (sys_read f) Q E w"
  by (cases "faults w (now w)"; cases "f w")
    (auto simp: fault_errno_not_tree wpE_def sys_read_def Let_def intro!: assms)

lemma MkdirAll_wp [fs_wp]:
  assumes "\<And>w'. files w' = files w \<Longrightarrow> Q () w'" "\<And>e w'. files w' = files w \<Longrightarrow> E e w'"
  shows "wpE (os_MkdirAll p) Q E w"
  unfolding os_MkdirAll_def
  by (rule wpE_sys_update) (auto simp: files_def mkdirall_file_at intro!: assms)

lemma lookup_ENOENT: "fs_lookup (nodes w) p = Inl e \<Longrightarrow> files w p = None"
  by (auto simp: fs_lookup_def files_def file_at_def split: if_splits option.splits)

lemma Remove_wp [fs_wp]:
  assumes "\<And>w'. files w' = (files w)(p := None) \<Longrightarrow> Q () w'"
    and "\<And>e w'. (e = ENOENT \<Longrightarrow> files w p = None) \<Longrightarrow> files w' = files w \<Longrightarrow> E (Errno e) w'"
  shows "wpE (os_Remove p) Q E w"
proof -
  have "fs_remove (nodes w) p = Inl ENOENT \<Longrightarrow> files w p = None"
    by (auto simp: fs_remove_def dest: lookup_ENOENT split: sum.splits node.splits if_splits)
  then show ?thesis
    unfolding os_Remove_def
    by (intro wpE_sys_update) (auto simp: files_def remove_file_at intro!: assms)
qed

lemma RemoveAll_wp [fs_wp]:
  assumes "\<And>w'. (\<And>q. \<not> prefix p q \<Longrightarrow> files w' q = files w q) \<Longrightarrow> Q () w'"
    and "\<And>e w'. files w' = files w \<Longrightarrow> E e w'"
  shows "wpE (os_RemoveAll p) Q E w"
  unfolding os_RemoveAll_def
  by (rule wpE_sys_update) (auto simp: files_def removeall_file_at intro!: assms)

lemma Rename_wp [fs_wp]:
  assumes "\<And>d w'. files w old = Some d \<Longrightarrow> files w' = (files w)(old := None, new \<mapsto> d) \<Longrightarrow> Q () w'"
    and "\<And>e w'. files w' = files w \<Longrightarrow> E e w'"
  shows "wpE (os_Rename old new) Q E w"
  unfolding os_Rename_def
proof (rule wpE_sys_update)
  fix w' :: fs_world and t
  assume "fs_rename (nodes w) old new = Inr t" and w': "nodes w' = t"
  then obtain d where "file_at (nodes w) old = Some d" "file_at t = (file_at (nodes w))(old := None, new \<mapsto> d)"
    by (elim rename_file_at)
  with w' show "Q () w'" by (intro assms(1)) (simp_all add: files_def)
qed (simp add: assms(2) files_def)

lemma Write_wp [fs_wp]:
  assumes "\<And>w'. files w' = (case files w p of None \<Rightarrow> files w | Some d \<Rightarrow> (files w)(p \<mapsto> d @ bs)) \<Longrightarrow> Q () w'"
    and "\<And>e w'. (\<And>q. q \<noteq> p \<Longrightarrow> files w' q = files w q) \<Longrightarrow> E e w'"
  shows "wpE (file_Write p bs) Q E w"
proof -
  have "file_at (fs_append (nodes w) p bs') q = file_at (nodes w) q" if "q \<noteq> p" for q bs'
    using that by (simp add: append_file_at split: option.splits)
  then show ?thesis
    by (auto simp: wpE_def file_Write_def Let_def files_def append_file_at
        split: option.splits intro!: assms)
qed

lemma file_Op_wp [fs_wp]:
  assumes "\<And>w'. files w' = files w \<Longrightarrow> Q () w'" "\<And>e w'. files w' = files w \<Longrightarrow> E e w'"
  shows "wpE file_Op Q E w"
  unfolding file_Op_def by (rule wpE_sys_read) (auto simp: files_def intro!: assms)

lemma CreateTemp_wp [fs_wp]:
  assumes "\<And>x w'. files w' = (files w)(dir @ [pre @ x @ suf] \<mapsto> []) \<Longrightarrow>
      files w (dir @ [pre @ x @ suf]) = None \<Longrightarrow> Q (dir @ [pre @ x @ suf]) w'"
    and "\<And>e w'. files w' = files w \<Longrightarrow> E e w'"
  shows "wpE (os_CreateTemp dir pre suf) Q E w"
proof -
  have "file_at (nodes w) p = None" if "fmlookup (nodes w) p = None" for p
    using that by (simp add: file_at_def)
  then show ?thesis
    by (auto simp: wpE_def os_CreateTemp_def Let_def files_def create_file_at
        split: option.splits sum.splits intro!: assms)
qed

lemma ReadFile_wp [fs_wp]:
  assumes "\<And>d w'. files w p = Some d \<Longrightarrow> files w' = files w \<Longrightarrow> Q d w'"
    and "\<And>e w'. (e = ENOENT \<Longrightarrow> files w p = None) \<Longrightarrow> files w' = files w \<Longrightarrow> E (Errno e) w'"
  shows "wpE (os_ReadFile p) Q E w"
  unfolding os_ReadFile_def
  by (rule wpE_sys_read)
    (auto simp: files_def file_at_def fs_lookup_def split: sum.splits node.splits option.splits if_splits
      intro!: assms)

lemma Open_wp [fs_wp]:
  assumes "\<And>d w'. files w p = Some d \<Longrightarrow> files w' = files w \<Longrightarrow> Q (File d) w'"
    and "\<And>w'. is_dir w p \<Longrightarrow> files w' = files w \<Longrightarrow> Q Dir w'"
    and "\<And>e w'. (e = ENOENT \<Longrightarrow> files w p = None) \<Longrightarrow> files w' = files w \<Longrightarrow> E (Errno e) w'"
  shows "wpE (os_Open p) Q E w"
  unfolding os_Open_def os_Stat_def
proof (rule wpE_sys_read)
  fix n and w' :: fs_world
  assume "fs_lookup (nodes w) p = Inr n" "nodes w' = nodes w"
  then show "Q n w'"
    using assms(1,2) by (cases n) (simp_all add: files_def is_dir_def fs_lookup_File fs_lookup_Dir)
qed (auto simp: files_def dest: lookup_ENOENT intro!: assms(3))

lemma Stat_wp [fs_wp]:
  assumes "\<And>d w'. files w p = Some d \<Longrightarrow> files w' = files w \<Longrightarrow> Q (File d) w'"
    and "\<And>w'. is_dir w p \<Longrightarrow> files w' = files w \<Longrightarrow> Q Dir w'"
    and "\<And>e w'. (e = ENOENT \<Longrightarrow> files w p = None) \<Longrightarrow> files w' = files w \<Longrightarrow> E (Errno e) w'"
  shows "wpE (os_Stat p) Q E w"
  using assms by (rule Open_wp [unfolded os_Open_def])

lemma Statfs_wp [fs_wp]:
  assumes "\<And>x w'. files w' = files w \<Longrightarrow> Q x w'" "\<And>e w'. files w' = files w \<Longrightarrow> E e w'"
  shows "wpE (syscall_Statfs p) Q E w"
  unfolding syscall_Statfs_def by (rule wpE_sys_read) (auto simp: files_def intro!: assms)

lemma Stat_Size_wp [fs_wp]:
  assumes "\<And>w'. files w' = files w \<Longrightarrow> Q (case h of Dir \<Rightarrow> dir_size w | File d \<Rightarrow> int (length d)) w'"
    and "\<And>e w'. files w' = files w \<Longrightarrow> E e w'"
  shows "wpE (file_Stat_Size h) Q E w"
  unfolding file_Stat_Size_def by (rule wpE_sys_read) (auto simp: files_def intro!: assms)

lemma Seek_wp [fs_wp]:
  assumes "\<And>w'. 0 \<le> off \<Longrightarrow> files w' = files w \<Longrightarrow> Q () w'" "\<And>e w'. files w' = files w \<Longrightarrow> E e w'"
  shows "wpE (file_Seek h off) Q E w"
  unfolding file_Seek_def
  by (rule wpE_sys_read) (auto simp: files_def split: if_splits intro!: assms)

lemma ctxErr_wp [fs_wp]:
  assumes "\<And>w'. files w' = files w \<Longrightarrow> Q () w'"
    and "\<And>e w'. ctx_done c \<noteq> None \<Longrightarrow> files w' = files w \<Longrightarrow> E e w'"
  shows "wpE (ctxErr c) Q E (w :: fs_world)"
  by (auto simp: wpE_ctxErr ctx_Err_def split: option.splits intro!: assms)

section \<open>Calls in a calm world\<close>

text \<open>
  A world is calm when no call is going to fail by itself: there are no injected faults and the
  disk has space. In a calm world each call succeeds under the conditions the file tree imposes.
\<close>

definition calm :: "fs_world \<Rightarrow> bool" where
  "calm w = ((\<forall>t. faults w t = None) \<and> (\<forall>t. 0 < fst (disk w t) \<and> 0 < snd (disk w t)))"

text \<open>Nothing but the clock and the tree changes from one world to the next.\<close>

definition same_env :: "fs_world \<Rightarrow> fs_world \<Rightarrow> bool" where
  "same_env w w' = (faults w' = faults w \<and> disk w' = disk w \<and> temp_names w' = temp_names w \<and> dir_size w' = dir_size w)"

lemma same_env_refl [simp]: "same_env w w"
  by (simp add: same_env_def)

lemma same_env_trans: "same_env a b \<Longrightarrow> same_env b c \<Longrightarrow> same_env a c"
  by (simp add: same_env_def)

lemma calm_same_env: "same_env w w' \<Longrightarrow> calm w' = calm w"
  by (simp add: same_env_def calm_def)

named_theorems calm_wp \<open>call rules in a calm world\<close>

lemma calm_sys_update:
  assumes "calm w" "f (nodes w) = Inr t"
    and "\<And>w'. same_env w w' \<Longrightarrow> nodes w' = t \<Longrightarrow> Q () w'"
  shows "wpE (sys_update f) Q E w"
  using assms by (simp add: wpE_def sys_update_def Let_def calm_def same_env_def)

lemma calm_sys_read:
  assumes "calm w" "f w = Inr x"
    and "\<And>w'. same_env w w' \<Longrightarrow> nodes w' = nodes w \<Longrightarrow> Q x w'"
  shows "wpE (sys_read f) Q E w"
  using assms by (simp add: wpE_def sys_read_def Let_def calm_def same_env_def)

lemma calm_MkdirAll [calm_wp]:
  assumes "calm w" "\<And>q. prefix q p \<Longrightarrow> files w q = None"
    and "\<And>w'. same_env w w' \<Longrightarrow> files w' = files w \<Longrightarrow> (\<And>q. is_dir w' q = (is_dir w q \<or> prefix q p)) \<Longrightarrow> Q () w'"
  shows "wpE (os_MkdirAll p) Q E w"
proof -
  have "\<not> below_file (nodes w) p"
    using assms(2) by (auto simp: below_file_def list_ex_iff files_def)
  then obtain t where t: "fs_mkdirall (nodes w) p = Inr t"
    by (auto simp: fs_mkdirall_def)
  show ?thesis unfolding os_MkdirAll_def
    by (rule calm_sys_update [where f = "\<lambda>t. fs_mkdirall t p", OF assms(1) t], rule assms(3))
      (auto simp: files_def is_dir_def mkdirall_file_at [OF t] mkdirall_dir_at [OF t])
qed

lemma calm_CreateTemp [calm_wp]:
  assumes "calm w" "is_dir w dir"
    and "\<And>t. files w (dir @ [pre @ temp_names w t @ suf]) = None"
    and "\<And>t. \<not> is_dir w (dir @ [pre @ temp_names w t @ suf])"
    and "\<And>x w'. same_env w w' \<Longrightarrow> files w' = (files w)(dir @ [pre @ x @ suf] \<mapsto> []) \<Longrightarrow>
           is_dir w' = is_dir w \<Longrightarrow> files w (dir @ [pre @ x @ suf]) = None \<Longrightarrow> Q (dir @ [pre @ x @ suf]) w'"
  shows "wpE (os_CreateTemp dir pre suf) Q E w"
proof -
  let ?p = "dir @ [pre @ temp_names w (now w) @ suf]"
  have free: "fmlookup (nodes w) ?p = None"
    using assms(3) [of "now w"] assms(4) [of "now w"]
    by (auto simp: files_def is_dir_def file_at_def dir_at_def split: option.splits node.splits)
  have "fs_lookup (nodes w) (butlast ?p) = Inr Dir"
    using assms(2) by (simp add: is_dir_def fs_lookup_Dir)
  then obtain t where t: "fs_create (nodes w) ?p = Inr t"
    using assms(4) [of "now w"] by (auto simp: fs_create_def is_dir_def)
  have "faults w (now w) = None" using assms(1) by (simp add: calm_def)
  then show ?thesis
    using free t
    by (simp add: wpE_def os_CreateTemp_def Let_def, intro assms(5))
      (simp_all add: same_env_def files_def is_dir_def create_file_at [OF t] create_dir_at [OF t]
        assms(3) [unfolded files_def])
qed

lemma calm_Write [calm_wp]:
  assumes "calm w" "files w p = Some d"
    and "\<And>w'. same_env w w' \<Longrightarrow> files w' = (files w)(p \<mapsto> d @ bs) \<Longrightarrow> is_dir w' = is_dir w \<Longrightarrow> Q () w'"
  shows "wpE (file_Write p bs) Q E w"
proof -
  have "faults w (now w) = None" using assms(1) by (simp add: calm_def)
  then show ?thesis
    using assms(2) by (simp add: wpE_def file_Write_def Let_def, intro assms(3))
      (simp_all add: same_env_def files_def is_dir_def append_file_at append_dir_at)
qed

lemma calm_file_Op [calm_wp]:
  assumes "calm w"
    and "\<And>w'. same_env w w' \<Longrightarrow> files w' = files w \<Longrightarrow> is_dir w' = is_dir w \<Longrightarrow> Q () w'"
  shows "wpE file_Op Q E w"
  unfolding file_Op_def
  by (rule calm_sys_read [OF assms(1)], rule refl, rule assms(2)) (simp_all add: files_def is_dir_def)

lemma calm_Rename [calm_wp]:
  assumes "calm w" "files w old = Some d" "is_dir w (butlast new)" "\<not> is_dir w new"
    and "\<And>w'. same_env w w' \<Longrightarrow> files w' = (files w)(old := None, new \<mapsto> d) \<Longrightarrow>
           is_dir w' = is_dir w \<Longrightarrow> Q () w'"
  shows "wpE (os_Rename old new) Q E w"
proof -
  let ?t = "fmupd new (File d) (fmdrop old (nodes w))"
  have t: "fs_rename (nodes w) old new = Inr ?t"
    using assms(2-4) by (auto simp: fs_rename_Inr files_def is_dir_def)
  have f: "file_at ?t = (file_at (nodes w))(old := None, new \<mapsto> d)"
    using t assms(2) by (elim rename_file_at) (simp add: files_def)
  have d: "dir_at ?t = dir_at (nodes w)"
  proof
    fix q
    have "\<not> dir_at (nodes w) old" using assms(2) by (simp add: files_def file_not_dir)
    then show "dir_at ?t q = dir_at (nodes w) q"
      using assms(4) by (auto simp: dir_at_def is_dir_def)
  qed
  show ?thesis unfolding os_Rename_def
    by (rule calm_sys_update [where f = "\<lambda>t. fs_rename t old new", OF assms(1) t], rule assms(5)) (simp_all add: files_def is_dir_def f d)
qed

lemma calm_Remove [calm_wp]:
  assumes "calm w" "files w p = Some d"
    and "\<And>w'. same_env w w' \<Longrightarrow> files w' = (files w)(p := None) \<Longrightarrow> is_dir w' = is_dir w \<Longrightarrow> Q () w'"
  shows "wpE (os_Remove p) Q E w"
proof -
  have t: "fs_remove (nodes w) p = Inr (fmdrop p (nodes w))"
    using assms(2) by (simp add: fs_remove_def files_def flip: fs_lookup_File)
  have d: "dir_at (fmdrop p (nodes w)) = dir_at (nodes w)"
    using assms(2) by (auto simp: fun_eq_iff dir_at_def files_def dest: file_not_dir)
  show ?thesis unfolding os_Remove_def
    by (rule calm_sys_update [where f = "\<lambda>t. fs_remove t p", OF assms(1) t], rule assms(3))
      (simp_all add: files_def is_dir_def remove_file_at [OF t] d)
qed

lemma lookup_missing:
  assumes "\<And>q. prefix q p \<Longrightarrow> files w q = None" "\<not> is_dir w p"
  shows "fs_lookup (nodes w) p = Inl ENOENT"
proof -
  have "\<not> below_file (nodes w) p"
    using assms(1) by (auto simp: below_file_def list_ex_iff files_def)
  moreover have "fmlookup (nodes w) p = None" "p \<noteq> []"
    using assms(1) [of p] assms(2)
    by (auto simp: files_def file_at_def is_dir_def dir_at_def split: option.splits node.splits)
  ultimately show ?thesis by (simp add: fs_lookup_def)
qed

lemma calm_Remove_missing:
  assumes "calm w" "\<And>q. prefix q p \<Longrightarrow> files w q = None" "\<not> is_dir w p"
    and "\<And>w'. same_env w w' \<Longrightarrow> files w' = files w \<Longrightarrow> is_dir w' = is_dir w \<Longrightarrow> E (Errno ENOENT) w'"
  shows "wpE (os_Remove p) Q E w"
proof -
  have "fs_lookup (nodes w) p = Inl ENOENT"
    using assms(2,3) by (rule lookup_missing)
  then have "fs_remove (nodes w) p = Inl ENOENT" by (simp add: fs_remove_def)
  then show ?thesis
    using assms(1)
    by (simp add: os_Remove_def wpE_def sys_update_def Let_def calm_def, intro assms(4))
      (simp_all add: same_env_def files_def is_dir_def)
qed

lemma calm_RemoveAll [calm_wp]:
  assumes "calm w"
    and "\<And>w' :: fs_world. same_env w w' \<Longrightarrow> (\<And>q. \<not> prefix p q \<Longrightarrow> files w' q = files w q) \<Longrightarrow>
          (\<And>q. \<not> prefix p q \<Longrightarrow> is_dir w' q = is_dir w q) \<Longrightarrow> Q () w'"
    and "\<And>e w'. same_env w w' \<Longrightarrow> files w' = files w \<Longrightarrow> is_dir w' = is_dir w \<Longrightarrow> E e w'"
  shows "wpE (os_RemoveAll p) Q E w"
proof (cases "fs_removeall (nodes w) p")
  case (Inl e)
  then show ?thesis
    using assms(1) by (simp add: os_RemoveAll_def wpE_def sys_update_def Let_def calm_def, intro assms(3))
      (simp_all add: same_env_def files_def is_dir_def)
next
  case (Inr t)
  show ?thesis unfolding os_RemoveAll_def
    by (rule calm_sys_update [where f = "\<lambda>t. fs_removeall t p", OF assms(1) Inr], rule assms(2))
      (simp_all add: files_def is_dir_def removeall_file_at [OF Inr] removeall_dir_at [OF Inr])
qed

lemma calm_Statfs [calm_wp]:
  assumes "calm w" "is_dir w dir"
    and "\<And>a b w'. 0 < a \<Longrightarrow> 0 < b \<Longrightarrow> same_env w w' \<Longrightarrow> files w' = files w \<Longrightarrow> is_dir w' = is_dir w \<Longrightarrow> Q (a, b) w'"
  shows "wpE (syscall_Statfs dir) Q E w"
proof -
  have "fs_lookup (nodes w) dir = Inr Dir" using assms(2) by (simp add: is_dir_def fs_lookup_Dir)
  then show ?thesis unfolding syscall_Statfs_def
    by (intro calm_sys_read [OF assms(1), where x = "disk w (now w)"])
      (use assms in \<open>auto simp: calm_def files_def is_dir_def intro!: assms(3) [of "fst (disk w (now w))" "snd (disk w (now w))", simplified]\<close>)
qed

lemma calm_Open [calm_wp]:
  assumes "calm w" "files w p = Some d"
    and "\<And>w'. same_env w w' \<Longrightarrow> files w' = files w \<Longrightarrow> is_dir w' = is_dir w \<Longrightarrow> Q (File d) w'"
  shows "wpE (os_Open p) Q E w"
  unfolding os_Open_def os_Stat_def
  by (rule calm_sys_read [OF assms(1), where x = "File d"])
    (use assms(2) in \<open>auto simp: fs_lookup_File files_def is_dir_def intro!: assms(3)\<close>)

lemma calm_Open_missing:
  assumes "calm w" "\<And>q. prefix q p \<Longrightarrow> files w q = None" "\<not> is_dir w p"
    and "\<And>w'. same_env w w' \<Longrightarrow> files w' = files w \<Longrightarrow> is_dir w' = is_dir w \<Longrightarrow> E (Errno ENOENT) w'"
  shows "wpE (os_Open p) Q E w"
proof -
  have "fs_lookup (nodes w) p = Inl ENOENT"
    using assms(2,3) by (rule lookup_missing)
  then show ?thesis
    using assms(1)
    by (simp add: os_Open_def os_Stat_def wpE_def sys_read_def Let_def calm_def, intro assms(4))
      (simp_all add: same_env_def files_def is_dir_def)
qed

lemma calm_Stat_Dir [calm_wp]:
  assumes "calm w" "is_dir w p"
    and "\<And>w'. same_env w w' \<Longrightarrow> files w' = files w \<Longrightarrow> is_dir w' = is_dir w \<Longrightarrow> Q Dir w'"
  shows "wpE (os_Stat p) Q E w"
  unfolding os_Stat_def
  by (rule calm_sys_read [OF assms(1), where x = Dir])
    (use assms(2) in \<open>auto simp: fs_lookup_Dir files_def is_dir_def intro!: assms(3)\<close>)

lemma calm_Stat_Size [calm_wp]:
  assumes "calm w"
    and "\<And>w'. same_env w w' \<Longrightarrow> files w' = files w \<Longrightarrow> is_dir w' = is_dir w \<Longrightarrow> Q (int (length d)) w'"
  shows "wpE (file_Stat_Size (File d)) Q E w"
  unfolding file_Stat_Size_def
  by (rule calm_sys_read [OF assms(1), where x = "int (length d)"])
    (auto simp: files_def is_dir_def intro!: assms(2))

lemma calm_Seek [calm_wp]:
  assumes "calm w" "0 \<le> off"
    and "\<And>w'. same_env w w' \<Longrightarrow> files w' = files w \<Longrightarrow> is_dir w' = is_dir w \<Longrightarrow> Q () w'"
  shows "wpE (file_Seek h off) Q E w"
  unfolding file_Seek_def
  by (rule calm_sys_read [OF assms(1), where x = "()"])
    (use assms(2) in \<open>auto simp: files_def is_dir_def intro!: assms(3)\<close>)

lemma calm_ReadFile [calm_wp]:
  assumes "calm w" "files w p = Some d"
    and "\<And>w'. same_env w w' \<Longrightarrow> files w' = files w \<Longrightarrow> is_dir w' = is_dir w \<Longrightarrow> Q d w'"
  shows "wpE (os_ReadFile p) Q E w"
proof -
  have "fs_lookup (nodes w) p = Inr (File d)" using assms(2) by (simp add: files_def fs_lookup_File)
  then show ?thesis unfolding os_ReadFile_def
    by (intro calm_sys_read [OF assms(1), where x = d]) (auto simp: files_def is_dir_def intro!: assms(3))
qed

lemma calm_ReadFile_missing:
  assumes "calm w" "\<And>q. prefix q p \<Longrightarrow> files w q = None" "\<not> is_dir w p"
    and "\<And>w'. same_env w w' \<Longrightarrow> files w' = files w \<Longrightarrow> is_dir w' = is_dir w \<Longrightarrow> E (Errno ENOENT) w'"
  shows "wpE (os_ReadFile p) Q E w"
proof -
  have "fs_lookup (nodes w) p = Inl ENOENT"
    using assms(2,3) by (rule lookup_missing)
  then show ?thesis
    using assms(1)
    by (simp add: os_ReadFile_def wpE_def sys_read_def Let_def calm_def, intro assms(4))
      (simp_all add: same_env_def files_def is_dir_def)
qed

lemma calm_ctxErr [calm_wp]:
  assumes "ctx_done c = None"
    and "\<And>w'. same_env w w' \<Longrightarrow> files w' = files w \<Longrightarrow> is_dir w' = is_dir w \<Longrightarrow> Q () w'"
  shows "wpE (ctxErr c) Q E (w :: fs_world)"
  using assms by (simp add: wpE_ctxErr ctx_Err_def same_env_def)

section \<open>Readers and \<open>io.Copy\<close>\<close>

text \<open>
  An \<open>io.Reader\<close> is the list of what its successive \<open>Read\<close> calls return: the bytes and
  the error, if any; a reader that is used up returns EOF. \<open>io.Copy\<close> reads into a buffer
  of 32 KiB.
\<close>

type_synonym reads = "(bytes \<times> go_error option) list"

fun chunks :: "nat \<Rightarrow> bytes \<Rightarrow> bytes list" where
  "chunks n bs = (if bs = [] \<or> n = 0 then [] else take n bs # chunks n (drop n bs))"

declare chunks.simps [simp del]

definition copyBufferSize :: nat where
  "copyBufferSize = 32 * 1024"

definition bytes_reads :: "bytes \<Rightarrow> reads" where
  "bytes_reads bs = map (\<lambda>c. (c, None)) (chunks copyBufferSize bs)"

text \<open>What a reader delivers before it ends, and how it ends: none is a clean EOF.\<close>

fun reads_data :: "reads \<Rightarrow> bytes" where
  "reads_data [] = []"
| "reads_data ((bs, None) # rs) = bs @ reads_data rs"
| "reads_data ((bs, Some e) # rs) = bs"

fun reads_error :: "reads \<Rightarrow> go_error option" where
  "reads_error [] = None"
| "reads_error ((bs, None) # rs) = reads_error rs"
| "reads_error ((bs, Some e) # rs) = (if e = EOF then None else Some e)"

lemma concat_chunks: "0 < n \<Longrightarrow> concat (chunks n bs) = bs"
proof (induction n bs rule: chunks.induct)
  case (1 n bs)
  then show ?case
    by (cases "bs = []") (simp_all add: chunks.simps [of n bs] chunks.simps [of n "[]"])
qed

lemma reads_data_None: "reads_data (map (\<lambda>c. (c, None)) cs) = concat cs"
  by (induction cs) auto

lemma reads_error_None: "reads_error (map (\<lambda>c. (c, None)) cs) = None"
  by (induction cs) auto

lemma bytes_reads_data [simp]: "reads_data (bytes_reads bs) = bs"
  by (simp add: bytes_reads_def reads_data_None concat_chunks copyBufferSize_def)

lemma bytes_reads_error [simp]: "reads_error (bytes_reads bs) = None"
  by (simp add: bytes_reads_def reads_error_None)

end
