(* ===== verification/Md5.thy ===== *)
theory Md5
  imports Prelude
begin

text \<open>
  Package \<open>crypto/md5\<close>: the digest of RFC 1321, and \<open>fmt.Sprintf("%x", h.Sum(nil))\<close> of it.
  A running hash is represented by the bytes written to it so far, since \<open>Sum\<close> depends on
  their concatenation only.
\<close>

unbundle bit_operations_syntax

type_synonym u32 = "32 word"

definition md5_K :: "u32 list" where
  "md5_K =
    [3614090360, 3905402710, 606105819, 3250441966, 4118548399, 1200080426,
     2821735955, 4249261313, 1770035416, 2336552879, 4294925233, 2304563134,
     1804603682, 4254626195, 2792965006, 1236535329, 4129170786, 3225465664,
     643717713, 3921069994, 3593408605, 38016083, 3634488961, 3889429448,
     568446438, 3275163606, 4107603335, 1163531501, 2850285829, 4243563512,
     1735328473, 2368359562, 4294588738, 2272392833, 1839030562, 4259657740,
     2763975236, 1272893353, 4139469664, 3200236656, 681279174, 3936430074,
     3572445317, 76029189, 3654602809, 3873151461, 530742520, 3299628645,
     4096336452, 1126891415, 2878612391, 4237533241, 1700485571, 2399980690,
     4293915773, 2240044497, 1873313359, 4264355552, 2734768916, 1309151649,
     4149444226, 3174756917, 718787259, 3951481745]"

definition md5_s :: "nat list" where
  "md5_s =
    [7, 12, 17, 22, 7, 12, 17, 22, 7, 12, 17, 22, 7, 12, 17, 22,
     5, 9, 14, 20, 5, 9, 14, 20, 5, 9, 14, 20, 5, 9, 14, 20,
     4, 11, 16, 23, 4, 11, 16, 23, 4, 11, 16, 23, 4, 11, 16, 23,
     6, 10, 15, 21, 6, 10, 15, 21, 6, 10, 15, 21, 6, 10, 15, 21]"

definition le_word :: "bytes \<Rightarrow> u32" where
  "le_word bs = fold (\<lambda>c acc. push_bit 8 acc + of_nat (of_char c)) (rev bs) 0"

fun le_words :: "bytes \<Rightarrow> u32 list" where
  "le_words (a # b # c # d # bs) = le_word [a, b, c, d] # le_words bs"
| "le_words bs = []"

definition le_bytes :: "nat \<Rightarrow> nat \<Rightarrow> bytes" where
  "le_bytes k n = map (\<lambda>i. char_of (n div 256 ^ i mod 256)) [0..<k]"

definition md5_pad :: "bytes \<Rightarrow> bytes" where
  "md5_pad m = m @ char_of (128 :: nat) # replicate ((119 - length m mod 64) mod 64) (char_of (0 :: nat))
     @ le_bytes 8 (8 * length m)"

type_synonym md5_state = "u32 \<times> u32 \<times> u32 \<times> u32"

definition md5_round :: "u32 list \<Rightarrow> nat \<Rightarrow> md5_state \<Rightarrow> md5_state" where
  "md5_round M i = (\<lambda>(a, b, c, d).
     let (f, g) =
       (if i < 16 then ((b AND c) OR (NOT b AND d), i)
        else if i < 32 then ((d AND b) OR (NOT d AND c), (5 * i + 1) mod 16)
        else if i < 48 then (b XOR c XOR d, (3 * i + 5) mod 16)
        else (c XOR (b OR NOT d), 7 * i mod 16))
     in (d, b + word_rotl (md5_s ! i) (f + a + md5_K ! i + M ! g), b, c))"

definition md5_block :: "u32 list \<Rightarrow> md5_state \<Rightarrow> md5_state" where
  "md5_block M = (\<lambda>(a, b, c, d).
     case fold (md5_round M) [0..<64] (a, b, c, d) of
       (a', b', c', d') \<Rightarrow> (a + a', b + b', c + c', d + d'))"

fun md5_blocks :: "u32 list \<Rightarrow> md5_state \<Rightarrow> md5_state" where
  "md5_blocks ws st = (if length ws < 16 then st else md5_blocks (drop 16 ws) (md5_block (take 16 ws) st))"

declare md5_blocks.simps [simp del]

definition md5_sum :: "bytes \<Rightarrow> bytes" where
  "md5_sum m = (case md5_blocks (le_words (md5_pad m)) (1732584193, 4023233417, 2562383102, 271733878) of
     (a, b, c, d) \<Rightarrow> concat (map (\<lambda>x. le_bytes 4 (unat x)) [a, b, c, d]))"

definition hex_digit :: "nat \<Rightarrow> char" where
  "hex_digit d = (if d < 10 then char_of (48 + d) else char_of (87 + d))"

definition hex :: "bytes \<Rightarrow> string" where
  "hex bs = concat (map (\<lambda>c. [hex_digit (of_char c div 16), hex_digit (of_char c mod 16)]) bs)"

definition md5Hex :: "bytes \<Rightarrow> string" where
  "md5Hex data = hex (md5_sum data)"

lemma length_md5Hex: "length (md5Hex data) = 32"
proof -
  have h: "length (hex bs) = 2 * length bs" for bs
    by (induction bs) (simp_all add: hex_def)
  show ?thesis
    by (simp add: md5Hex_def h md5_sum_def le_bytes_def split: prod.splits)
qed

lemma md5Hex_nonempty: "md5Hex data \<noteq> []"
  using length_md5Hex [of data] by auto

end
