(* ===== verification/Storage_Repo.thy ===== *)
theory Storage_Repo
  imports Go_OS Md5
begin

text \<open>
  The repository layer of the storage service, \<open>services/storage/internal/repository/storage\<close>:
  where blobs, staged uploads and multipart sessions live in the file tree, how a file is
  written so that its name appears only when it is complete, and how the parts of a multipart
  upload are assembled.

  Definitions follow the Go functions one by one. Log calls are left out. The JSON documents the
  repository keeps beside the data are written and read by \<open>encoding/json\<close>, which is a
  parameter \<open>json_codec\<close> of the operations that use it.
\<close>

section \<open>Data\<close>

record BlobMeta =
  BlobID :: string
  ChecksumMD5 :: string
  SizeBytes :: int
  ContentType :: string

record PartInfo =
  PartNumber :: int
  PartChecksumMD5 :: string

record multipartSessionMeta =
  ExpectedParts :: int
  SessionContentType :: string
  SessionBlobID :: string

record writeResult =
  checksumMD5 :: string
  sizeBytes :: int

record repo =
  dataDir :: path
  multipartDir :: path

record json_codec =
  marshal_manifest :: "string \<Rightarrow> string \<Rightarrow> go_error + bytes"
  marshal_session :: "multipartSessionMeta \<Rightarrow> go_error + bytes"
  unmarshal_session :: "bytes \<Rightarrow> go_error + multipartSessionMeta"
  marshal_blobmeta :: "BlobMeta \<Rightarrow> go_error + bytes"
  unmarshal_blobmeta :: "bytes \<Rightarrow> go_error + BlobMeta"

definition ErrBlobNotFound :: go_error where
  "ErrBlobNotFound = NewCommonError ''blob not found'' NotFound"
definition ErrUploadNotFound :: go_error where
  "ErrUploadNotFound = NewCommonError ''upload not found'' NotFound"
definition ErrInvalidBlobSize :: go_error where
  "ErrInvalidBlobSize = NewCommonError ''invalid blob size'' InvalidArgument"
definition ErrInvalidParts :: go_error where
  "ErrInvalidParts = NewCommonError ''invalid parts'' InvalidArgument"
definition ErrInvalidPartNumber :: go_error where
  "ErrInvalidPartNumber = NewCommonError ''invalid part number'' InvalidArgument"
definition ErrChecksumMismatch :: go_error where
  "ErrChecksumMismatch = NewCommonError ''checksum mismatch'' InvalidArgument"
definition ErrDiskFull :: go_error where
  "ErrDiskFull = NewCommonError ''insufficient disk space'' ResourceExhausted"

lemmas storage_errors = ErrBlobNotFound_def ErrUploadNotFound_def ErrInvalidBlobSize_def
  ErrInvalidParts_def ErrInvalidPartNumber_def ErrChecksumMismatch_def ErrDiskFull_def

definition stagingUploadsDirname :: string where "stagingUploadsDirname = ''uploads''"
definition stagingObjectFilename :: string where "stagingObjectFilename = ''object.bin''"
definition stagingManifestFilename :: string where "stagingManifestFilename = ''manifest.json''"
definition multipartCompletionDirname :: string where "multipartCompletionDirname = ''completed''"

section \<open>Paths\<close>

definition blobShard :: "string \<Rightarrow> string" where
  "blobShard blobID = (if length blobID < 2 then blobID else take 2 blobID)"

definition blobsRootPath :: "repo \<Rightarrow> path" where
  "blobsRootPath r = dataDir r"

definition blobPath :: "repo \<Rightarrow> string \<Rightarrow> path" where
  "blobPath r blobID = filepath_Join (blobsRootPath r) [blobShard blobID, blobID]"

definition stagingRootPath :: "repo \<Rightarrow> path" where
  "stagingRootPath r = multipartDir r"

definition stagingUploadsPath :: "repo \<Rightarrow> path" where
  "stagingUploadsPath r = filepath_Join (stagingRootPath r) [stagingUploadsDirname]"

definition singlePartUploadPath :: "repo \<Rightarrow> string \<Rightarrow> path" where
  "singlePartUploadPath r blobID = filepath_Join (stagingUploadsPath r) [blobID]"

definition singlePartObjectPath :: "repo \<Rightarrow> string \<Rightarrow> path" where
  "singlePartObjectPath r blobID = filepath_Join (singlePartUploadPath r blobID) [stagingObjectFilename]"

definition multipartSessionPath :: "repo \<Rightarrow> string \<Rightarrow> path" where
  "multipartSessionPath r uploadID = filepath_Join (stagingUploadsPath r) [uploadID]"

definition multipartCompletedDir :: "repo \<Rightarrow> path" where
  "multipartCompletedDir r = filepath_Join (stagingRootPath r) [multipartCompletionDirname]"

definition completedMetaShard :: "string \<Rightarrow> string" where
  "completedMetaShard uploadID = blobShard uploadID"

definition completedMultipartMetaPath :: "repo \<Rightarrow> string \<Rightarrow> path" where
  "completedMultipartMetaPath r uploadID =
     filepath_Join (multipartCompletedDir r) [completedMetaShard uploadID, uploadID @ ''.json'']"

definition multipartMetaPath :: "repo \<Rightarrow> string \<Rightarrow> path" where
  "multipartMetaPath r uploadID = filepath_Join (multipartSessionPath r uploadID) [stagingManifestFilename]"

definition multipartPartPath :: "repo \<Rightarrow> string \<Rightarrow> int \<Rightarrow> path" where
  "multipartPartPath r uploadID partNumber =
     filepath_Join (multipartSessionPath r uploadID) [''part_'' @ fmt_05d partNumber]"

definition blobIDForUpload :: "string \<Rightarrow> string" where
  "blobIDForUpload uploadID = uploadID"

section \<open>Writing a file atomically\<close>

definition ensureWritableDiskSpace :: "path \<Rightarrow> unit fsop" where
  "ensureWritableDiskSpace dir =
    bindE (wrapE (WrapError ''statfs data dir'') (syscall_Statfs dir)) (\<lambda>(bavail, bsize).
    if bavail = 0 \<or> bsize = 0 then throwE ErrDiskFull else returnE ())"

definition ensureDirReady :: "path \<Rightarrow> unit fsop" where
  "ensureDirReady dir =
    bindE (wrapE (WrapError ''create dir'') (os_MkdirAll dir)) (\<lambda>_.
    ensureWritableDiskSpace dir)"

definition isDiskFull :: "go_error \<Rightarrow> bool" where
  "isDiskFull err = errors_Is err (Errno ENOSPC)"

definition domainDiskFull :: "go_error \<Rightarrow> go_error" where
  "domainDiskFull err = (if isDiskFull err then ErrDiskFull else err)"

text \<open>\<open>contextReader.Read\<close> around one read of the inner reader.\<close>

definition contextReader_Read :: "ctx \<Rightarrow> bytes \<times> go_error option \<Rightarrow> (bytes \<times> go_error option) fsop" where
  "contextReader_Read ctx rd =
    bindE (tryE (ctxErr ctx)) (\<lambda>pre.
    case pre of
      Inl err \<Rightarrow> returnE ([], Some err)
    | Inr _ \<Rightarrow>
       (case rd of
          (n, Some err) \<Rightarrow> returnE (n, Some err)
        | (n, None) \<Rightarrow>
           bindE (tryE (ctxErr ctx)) (\<lambda>post.
           case post of
             Inl err \<Rightarrow> returnE (n, Some err)
           | Inr _ \<Rightarrow> returnE (n, None))))"

text \<open>
  \<open>io.Copy(io.MultiWriter(file, hasher), newContextReader(ctx, reader))\<close>: the bytes copied,
  which are both what the file received and what the hash has seen.
\<close>

primrec io_Copy :: "reads \<Rightarrow> ctx \<Rightarrow> path \<Rightarrow> bytes \<Rightarrow> bytes fsop" where
  "io_Copy [] ctx dst acc =
    bindE (contextReader_Read ctx ([], Some EOF)) (\<lambda>(bs, err).
    case err of
      None \<Rightarrow> returnE acc
    | Some e \<Rightarrow> if e = EOF then returnE acc else throwE e)"
| "io_Copy (rd # reader) ctx dst acc =
    bindE (contextReader_Read ctx rd) (\<lambda>(bs, err).
    bindE (if bs = [] then returnE () else file_Write dst bs) (\<lambda>_.
    case err of
      None \<Rightarrow> io_Copy reader ctx dst (acc @ bs)
    | Some e \<Rightarrow> if e = EOF then returnE (acc @ bs) else throwE e))"

definition closeAndRemove :: "path \<Rightarrow> unit fsop" where
  "closeAndRemove tempPath = bindE (ignoreE file_Op) (\<lambda>_. ignoreE (os_Remove tempPath))"

definition createAtomicTempFile :: "path \<Rightarrow> string \<Rightarrow> path fsop" where
  "createAtomicTempFile finalPath entity =
    (let dir = filepath_Dir finalPath; base = filepath_Base finalPath in
    bindE (wrapE (WrapError (''create dir for '' @ entity @ '' file'')) (os_MkdirAll dir)) (\<lambda>_.
    bindE (wrapE (WrapError (''create temp '' @ entity @ '' file''))
             (os_CreateTemp dir (base @ ''.'') ''.tmp'')) (\<lambda>tempPath.
    bindE (catchE file_Op (\<lambda>err.
             bindE (closeAndRemove tempPath) (\<lambda>_.
             throwE (WrapError (''chmod temp '' @ entity @ '' file'') err)))) (\<lambda>_.
    returnE tempPath))))"

definition writeAtomically :: "ctx \<Rightarrow> path \<Rightarrow> reads \<Rightarrow> string \<Rightarrow> writeResult fsop" where
  "writeAtomically ctx finalPath reader entity =
    bindE (createAtomicTempFile finalPath entity) (\<lambda>tempPath.
    bindE (catchE (io_Copy reader ctx tempPath []) (\<lambda>copyErr.
             bindE (closeAndRemove tempPath) (\<lambda>_.
             if isDiskFull copyErr then throwE (domainDiskFull copyErr)
             else throwE (WrapError (''write '' @ entity @ '' data'') copyErr)))) (\<lambda>written.
    bindE (catchE file_Op (\<lambda>err.
             bindE (closeAndRemove tempPath) (\<lambda>_.
             throwE (WrapError (''sync temp '' @ entity @ '' file'') err)))) (\<lambda>_.
    bindE (catchE file_Op (\<lambda>err.
             bindE (ignoreE (os_Remove tempPath)) (\<lambda>_.
             throwE (WrapError (''close temp '' @ entity @ '' file'') err)))) (\<lambda>_.
    bindE (catchE (os_Rename tempPath finalPath) (\<lambda>err.
             bindE (ignoreE (os_Remove tempPath)) (\<lambda>_.
             throwE (WrapError (''commit '' @ entity @ '' file'') err)))) (\<lambda>_.
    returnE \<lparr>checksumMD5 = md5Hex written, sizeBytes = int (length written)\<rparr>)))))"

section \<open>Single blobs\<close>

definition writeSinglePartManifest :: "json_codec \<Rightarrow> repo \<Rightarrow> string \<Rightarrow> unit fsop" where
  "writeSinglePartManifest js r blobID =
    bindE (wrapE (WrapError ''marshal staged blob manifest'')
             (liftE (marshal_manifest js blobID ''staged''))) (\<lambda>manifestBytes.
    bindE (writeAtomically Background
             (filepath_Join (singlePartUploadPath r blobID) [stagingManifestFilename])
             (bytes_reads manifestBytes) ''staged blob manifest'') (\<lambda>_.
    returnE ()))"

definition cleanupSinglePartStagingBestEffort :: "repo \<Rightarrow> string \<Rightarrow> unit fsop" where
  "cleanupSinglePartStagingBestEffort r blobID = ignoreE (os_RemoveAll (singlePartUploadPath r blobID))"

definition StoreBlob :: "json_codec \<Rightarrow> repo \<Rightarrow> ctx \<Rightarrow> string \<Rightarrow> reads \<Rightarrow> BlobMeta fsop" where
  "StoreBlob js r ctx blobID reader =
    bindE (ctxErr ctx) (\<lambda>_.
    bindE (ensureDirReady (blobsRootPath r)) (\<lambda>_.
    bindE (ensureDirReady (singlePartUploadPath r blobID)) (\<lambda>_.
    bindE (writeSinglePartManifest js r blobID) (\<lambda>_.
    bindE (writeAtomically ctx (singlePartObjectPath r blobID) reader ''staged blob'') (\<lambda>result.
    bindE (ensureDirReady (filepath_Dir (blobPath r blobID))) (\<lambda>_.
    bindE (wrapE (WrapError ''publish staged blob file'')
             (os_Rename (singlePartObjectPath r blobID) (blobPath r blobID))) (\<lambda>_.
    bindE (cleanupSinglePartStagingBestEffort r blobID) (\<lambda>_.
    returnE \<lparr>BlobID = blobID, ChecksumMD5 = checksumMD5 result,
             SizeBytes = sizeBytes result, ContentType = []\<rparr>))))))))"

text \<open>
  An open blob: the node found and the offset and limit the reader has been given. A reader
  without a limit reads to the end of the file.
\<close>

record blob_reader =
  handle :: node
  offset :: int
  limit :: "int option"

definition openBlob :: "repo \<Rightarrow> string \<Rightarrow> (node \<times> int) fsop" where
  "openBlob r blobID =
    bindE (catchE (os_Open (blobPath r blobID)) (\<lambda>err.
             if errors_Is err ErrNotExist then throwE ErrBlobNotFound
             else throwE (WrapError ''open blob file'' err))) (\<lambda>file.
    bindE (catchE (file_Stat_Size file) (\<lambda>err.
             bindE (ignoreE file_Op) (\<lambda>_. throwE (WrapError ''stat blob file'' err)))) (\<lambda>size.
    returnE (file, size)))"

definition RetrieveBlob :: "repo \<Rightarrow> ctx \<Rightarrow> string \<Rightarrow> (blob_reader \<times> int) fsop" where
  "RetrieveBlob r ctx blobID =
    bindE (ctxErr ctx) (\<lambda>_.
    bindE (openBlob r blobID) (\<lambda>(file, totalSize).
    returnE (\<lparr>handle = file, offset = 0, limit = None\<rparr>, totalSize)))"

definition RetrieveBlobRange :: "repo \<Rightarrow> ctx \<Rightarrow> string \<Rightarrow> int \<Rightarrow> int \<Rightarrow> (blob_reader \<times> int) fsop" where
  "RetrieveBlobRange r ctx blobID off len =
    bindE (ctxErr ctx) (\<lambda>_.
    bindE (openBlob r blobID) (\<lambda>(file, totalSize).
    let off' = (if off > totalSize then totalSize else off) in
    bindE (catchE (file_Seek file off') (\<lambda>err.
             bindE (ignoreE file_Op) (\<lambda>_. throwE (WrapError ''seek blob file'' err)))) (\<lambda>_.
    let remaining = (if totalSize - off' < 0 then 0 else totalSize - off');
        len' = (if len > remaining then remaining else len) in
    returnE (\<lparr>handle = file, offset = off', limit = Some len'\<rparr>, totalSize))))"

definition removeCompletedMultipartMeta :: "repo \<Rightarrow> string \<Rightarrow> unit fsop" where
  "removeCompletedMultipartMeta r uploadID =
    catchE (os_Remove (completedMultipartMetaPath r uploadID)) (\<lambda>err.
      if errors_Is err ErrNotExist then returnE ()
      else throwE (WrapError ''remove completed multipart meta'' err))"

definition DeleteBlob :: "repo \<Rightarrow> ctx \<Rightarrow> string \<Rightarrow> unit fsop" where
  "DeleteBlob r ctx blobID =
    bindE (ctxErr ctx) (\<lambda>_.
    bindE (catchE (os_Remove (blobPath r blobID)) (\<lambda>err.
             if \<not> errors_Is err ErrNotExist then throwE (WrapError ''remove blob file'' err)
             else returnE ())) (\<lambda>_.
    bindE (removeCompletedMultipartMeta r blobID) (\<lambda>_.
    returnE ())))"

definition repo_HealthCheck :: "repo \<Rightarrow> ctx \<Rightarrow> unit fsop" where
  "repo_HealthCheck r ctx =
    bindE (ctxErr ctx) (\<lambda>_.
    bindE (wrapE (WrapError ''stat data dir'') (os_Stat (dataDir r))) (\<lambda>info.
    if info \<noteq> Dir then throwE (ErrorString ''data dir is not a directory'')
    else
    bindE (ensureWritableDiskSpace (dataDir r)) (\<lambda>_.
    bindE (wrapE (WrapError ''create temp healthcheck file'')
             (os_CreateTemp (dataDir r) ''healthcheck-'' [])) (\<lambda>tempPath.
    bindE (catchE (file_Write tempPath ''ok'') (\<lambda>err.
             bindE (closeAndRemove tempPath) (\<lambda>_.
             throwE (WrapError ''write temp healthcheck file'' err)))) (\<lambda>_.
    bindE (catchE file_Op (\<lambda>err.
             bindE (ignoreE (os_Remove tempPath)) (\<lambda>_.
             throwE (WrapError ''close temp healthcheck file'' err)))) (\<lambda>_.
    bindE (wrapE (WrapError ''remove temp healthcheck file'') (os_Remove tempPath)) (\<lambda>_.
    returnE ())))))))"

section \<open>Multipart uploads\<close>

definition CreateMultipartSession :: "json_codec \<Rightarrow> repo \<Rightarrow> ctx \<Rightarrow> string \<Rightarrow> int \<Rightarrow> string \<Rightarrow> unit fsop" where
  "CreateMultipartSession js r ctx uploadID expectedParts contentType =
    bindE (ctxErr ctx) (\<lambda>_.
    bindE (wrapE (WrapError ''create multipart session dir'')
             (os_MkdirAll (multipartSessionPath r uploadID))) (\<lambda>_.
    bindE (wrapE (WrapError ''marshal multipart session meta'')
             (liftE (marshal_session js \<lparr>ExpectedParts = expectedParts,
                SessionContentType = contentType, SessionBlobID = blobIDForUpload uploadID\<rparr>))) (\<lambda>metaBytes.
    bindE (wrapE (WrapError ''write multipart session meta'')
             (os_WriteFile (multipartMetaPath r uploadID) metaBytes)) (\<lambda>_.
    returnE ()))))"

definition multipartSessionExists :: "repo \<Rightarrow> string \<Rightarrow> bool fsop" where
  "multipartSessionExists r uploadID =
    bindE (tryE (os_Stat (multipartSessionPath r uploadID))) (\<lambda>info.
    returnE (info = Inr Dir))"

definition StorePart :: "repo \<Rightarrow> ctx \<Rightarrow> string \<Rightarrow> int \<Rightarrow> reads \<Rightarrow> string fsop" where
  "StorePart r ctx uploadID partNumber reader =
    bindE (ctxErr ctx) (\<lambda>_.
    bindE (multipartSessionExists r uploadID) (\<lambda>exists.
    if \<not> exists then throwE ErrUploadNotFound
    else
    bindE (writeAtomically ctx (multipartPartPath r uploadID partNumber) reader ''multipart part'') (\<lambda>result.
    returnE (checksumMD5 result))))"

definition CleanupMultipart :: "repo \<Rightarrow> ctx \<Rightarrow> string \<Rightarrow> unit fsop" where
  "CleanupMultipart r ctx uploadID =
    bindE (ctxErr ctx) (\<lambda>_.
    catchE (os_RemoveAll (multipartSessionPath r uploadID)) (\<lambda>err.
      if errors_Is err ErrNotExist then returnE ()
      else throwE (WrapError ''cleanup multipart session'' err)))"

definition cleanupMultipartBestEffort :: "repo \<Rightarrow> ctx \<Rightarrow> string \<Rightarrow> unit fsop" where
  "cleanupMultipartBestEffort r ctx uploadID = ignoreE (CleanupMultipart r (WithoutCancel ctx) uploadID)"

definition writeCompletedMultipartMeta :: "json_codec \<Rightarrow> repo \<Rightarrow> string \<Rightarrow> BlobMeta \<Rightarrow> unit fsop" where
  "writeCompletedMultipartMeta js r uploadID meta =
    bindE (ensureDirReady (multipartCompletedDir r)) (\<lambda>_.
    bindE (wrapE (WrapError ''marshal completed multipart meta'') (liftE (marshal_blobmeta js meta))) (\<lambda>metaBytes.
    bindE (writeAtomically Background (completedMultipartMetaPath r uploadID)
             (bytes_reads metaBytes) ''completed multipart meta'') (\<lambda>_.
    returnE ())))"

definition readMultipartSessionMeta :: "json_codec \<Rightarrow> repo \<Rightarrow> string \<Rightarrow> multipartSessionMeta fsop" where
  "readMultipartSessionMeta js r uploadID =
    bindE (catchE (os_ReadFile (multipartMetaPath r uploadID)) (\<lambda>err.
             if errors_Is err ErrNotExist then throwE ErrUploadNotFound
             else throwE (WrapError ''read multipart session meta'' err))) (\<lambda>metaBytes.
    wrapE (WrapError ''unmarshal multipart session meta'') (liftE (unmarshal_session js metaBytes)))"

definition readCompletedMultipartMeta :: "json_codec \<Rightarrow> repo \<Rightarrow> string \<Rightarrow> BlobMeta fsop" where
  "readCompletedMultipartMeta js r uploadID =
    bindE (catchE (os_ReadFile (completedMultipartMetaPath r uploadID)) (\<lambda>err.
             if errors_Is err ErrNotExist then throwE ErrNotExist
             else throwE (WrapError ''read completed multipart meta'' err))) (\<lambda>metaBytes.
    wrapE (WrapError ''unmarshal completed multipart meta'') (liftE (unmarshal_blobmeta js metaBytes)))"

definition blobExists :: "repo \<Rightarrow> string \<Rightarrow> bool fsop" where
  "blobExists r blobID =
    bindE (tryE (os_Stat (blobPath r blobID))) (\<lambda>info.
    case info of
      Inr node \<Rightarrow> returnE (node \<noteq> Dir)
    | Inl err \<Rightarrow> if errors_Is err ErrNotExist then returnE False
                 else throwE (WrapError ''stat blob file'' err))"

text \<open>Reading an open part file to its end; a failing read may have delivered a prefix.\<close>

definition file_reads :: "node \<Rightarrow> reads fsop" where
  "file_reads h = (\<lambda>w. let w' = w\<lparr>now := Suc (now w)\<rparr> in
     case h of
       Dir \<Rightarrow> (Inr [([], Some (Errno EISDIR))], w')
     | File d \<Rightarrow>
        (case faults w (now w) of
           Some (e, k) \<Rightarrow> (Inr (bytes_reads (take k d) @ [([], Some (Errno (fault_errno e)))]), w')
         | None \<Rightarrow> (Inr (bytes_reads d), w')))"

text \<open>The loop over the listed parts in \<open>AssembleParts\<close>; the result is everything written.\<close>

primrec assembleLoop :: "PartInfo list \<Rightarrow> repo \<Rightarrow> ctx \<Rightarrow> string \<Rightarrow> path \<Rightarrow> bytes \<Rightarrow> bytes fsop" where
  "assembleLoop [] r ctx uploadID tempPath written = returnE written"
| "assembleLoop (part # parts) r ctx uploadID tempPath written =
    bindE (catchE (os_Open (multipartPartPath r uploadID (PartNumber part))) (\<lambda>openErr.
             bindE (closeAndRemove tempPath) (\<lambda>_.
             if errors_Is openErr ErrNotExist then throwE ErrUploadNotFound
             else throwE (WrapError ''open multipart part'' openErr)))) (\<lambda>partFile.
    bindE (file_reads partFile) (\<lambda>partReader.
    bindE (tryE (io_Copy partReader ctx tempPath [])) (\<lambda>copied.
    bindE (tryE file_Op) (\<lambda>closed.
    case copied of
      Inl copyErr \<Rightarrow>
        bindE (closeAndRemove tempPath) (\<lambda>_.
        if isDiskFull copyErr then throwE ErrDiskFull
        else throwE (WrapError ''copy multipart part'' copyErr))
    | Inr n \<Rightarrow>
       (case closed of
          Inl closeErr \<Rightarrow>
            bindE (closeAndRemove tempPath) (\<lambda>_.
            throwE (WrapError ''close multipart part'' closeErr))
        | Inr _ \<Rightarrow>
           if md5Hex n \<noteq> PartChecksumMD5 part then
             bindE (closeAndRemove tempPath) (\<lambda>_. throwE ErrChecksumMismatch)
           else assembleLoop parts r ctx uploadID tempPath (written @ n))))))"

text \<open>From the first part to the rename that publishes the assembled blob.\<close>

definition assembleBlob :: "repo \<Rightarrow> ctx \<Rightarrow> string \<Rightarrow> PartInfo list \<Rightarrow> string \<Rightarrow> bytes fsop" where
  "assembleBlob r ctx uploadID parts destBlobID =
    bindE (ensureDirReady (blobsRootPath r)) (\<lambda>_.
    bindE (createAtomicTempFile (blobPath r destBlobID) ''assembled blob'') (\<lambda>tempPath.
    bindE (assembleLoop parts r ctx uploadID tempPath []) (\<lambda>written.
    bindE (catchE file_Op (\<lambda>err.
             bindE (closeAndRemove tempPath) (\<lambda>_.
             throwE (WrapError ''sync assembled blob temp file'' err)))) (\<lambda>_.
    bindE (catchE file_Op (\<lambda>err.
             bindE (ignoreE (os_Remove tempPath)) (\<lambda>_.
             throwE (WrapError ''close assembled blob temp file'' err)))) (\<lambda>_.
    bindE (catchE (os_Rename tempPath (blobPath r destBlobID)) (\<lambda>err.
             bindE (ignoreE (os_Remove tempPath)) (\<lambda>_.
             throwE (WrapError ''commit assembled blob file'' err)))) (\<lambda>_.
    returnE written))))))"

definition assembleSession :: "json_codec \<Rightarrow> repo \<Rightarrow> ctx \<Rightarrow> string \<Rightarrow> PartInfo list \<Rightarrow> string \<Rightarrow> BlobMeta fsop" where
  "assembleSession js r ctx uploadID parts destBlobID =
    bindE (readMultipartSessionMeta js r uploadID) (\<lambda>sessionMeta.
    if ExpectedParts sessionMeta > 0 \<and> int32_of (int (length parts)) \<noteq> ExpectedParts sessionMeta
    then throwE ErrInvalidParts
    else
    let dest = (if SessionBlobID sessionMeta \<noteq> [] then SessionBlobID sessionMeta else destBlobID) in
    bindE (assembleBlob r ctx uploadID parts dest) (\<lambda>written.
    let meta = \<lparr>BlobID = dest, ChecksumMD5 = md5Hex written,
                SizeBytes = int (length written), ContentType = SessionContentType sessionMeta\<rparr> in
    bindE (catchE (writeCompletedMultipartMeta js r uploadID meta) (\<lambda>err.
             bindE (catchE (DeleteBlob r (WithoutCancel ctx) dest) (\<lambda>deleteErr.
                      throwE (WrapError ''persist completed multipart meta'' err))) (\<lambda>_.
             throwE err))) (\<lambda>_.
    bindE (cleanupMultipartBestEffort r ctx uploadID) (\<lambda>_.
    returnE meta))))"

definition AssembleParts :: "json_codec \<Rightarrow> repo \<Rightarrow> ctx \<Rightarrow> string \<Rightarrow> PartInfo list \<Rightarrow> string \<Rightarrow> BlobMeta fsop" where
  "AssembleParts js r ctx uploadID parts destBlobID =
    bindE (ctxErr ctx) (\<lambda>_.
    bindE (tryE (readCompletedMultipartMeta js r uploadID)) (\<lambda>completed.
    case completed of
      Inr completedMeta \<Rightarrow>
        bindE (blobExists r (BlobID completedMeta)) (\<lambda>exists.
        if exists then returnE completedMeta
        else
        bindE (ignoreE (removeCompletedMultipartMeta r uploadID)) (\<lambda>_.
        assembleSession js r ctx uploadID parts destBlobID))
    | Inl err \<Rightarrow>
        if errors_Is err ErrNotExist then assembleSession js r ctx uploadID parts destBlobID
        else
        bindE (ignoreE (removeCompletedMultipartMeta r uploadID)) (\<lambda>_.
        assembleSession js r ctx uploadID parts destBlobID)))"

end
