(* ===== verification/Storage_Spec.thy ===== *)
theory Storage_Spec
  imports Storage_Repo
begin

text \<open>
  What the storage repository promises. The abstract state is a map from blob ids to contents,
  \<open>blobs r w\<close>; the lemmas show that each repository operation, run on the file tree under
  any pattern of I/O faults, changes that map as its contract says or not at all.
\<close>

section \<open>Names and layout\<close>

text \<open>
  Blob ids are generated by the service (\<open>uuid.New().String()\<close>), so they are non-empty and
  hold neither a slash nor a dot. The two configured directories must not contain one another,
  as with the defaults \<open>/data/blobs\<close> and \<open>/data/staging\<close>.
\<close>

definition blob_id_ok :: "string \<Rightarrow> bool" where
  "blob_id_ok s = (s \<noteq> [] \<and> CHR ''/'' \<notin> set s \<and> CHR ''.'' \<notin> set s)"

definition repo_ok :: "repo \<Rightarrow> bool" where
  "repo_ok r = (\<not> prefix (dataDir r) (multipartDir r) \<and> \<not> prefix (multipartDir r) (dataDir r))"

definition blobs :: "repo \<Rightarrow> fs_world \<Rightarrow> string \<Rightarrow> bytes option" where
  "blobs r w i = (if blob_id_ok i then files w (blobPath r i) else None)"

lemma blobs_files: "files v = files v' \<Longrightarrow> blobs r v = blobs r v'"
  by (simp add: blobs_def fun_eq_iff)

lemma plain_blob_id: "blob_id_ok s \<Longrightarrow> plain_name s"
  by (auto simp: blob_id_ok_def plain_name_def)

lemma plain_shard: "blob_id_ok s \<Longrightarrow> plain_name (blobShard s)"
  by (auto simp: blob_id_ok_def plain_name_def blobShard_def dest: in_set_takeD)
    (metis in_set_takeD list.set_intros)+

lemma plain_suffix: "plain_name (s @ ''.json'')" if "blob_id_ok s"
  using that by (auto simp: blob_id_ok_def plain_name_def)

lemma plain_constants [simp]:
  "plain_name stagingUploadsDirname" "plain_name stagingObjectFilename"
  "plain_name stagingManifestFilename" "plain_name multipartCompletionDirname"
  by (simp_all add: plain_name_def stagingUploadsDirname_def stagingObjectFilename_def
      stagingManifestFilename_def multipartCompletionDirname_def)

lemma fmt_05d_no_slash: "CHR ''/'' \<notin> set (fmt_05d n)"
proof -
  have "CHR ''/'' \<notin> set (nat_digits k)" for k
    by (metis insertI1 nat_digits_chars digit_char_not_special)
  then show ?thesis by (auto simp: fmt_05d_def pad_zeros_def)
qed

lemma plain_part: "plain_name (''part_'' @ fmt_05d n)"
  using fmt_05d_no_slash by (auto simp: plain_name_def)

lemma blobPath_ok: "blob_id_ok s \<Longrightarrow> blobPath r s = dataDir r @ [blobShard s, s]"
  by (simp add: blobPath_def blobsRootPath_def Join_Cons_plain plain_blob_id plain_shard)

lemma uploadsPath_eq: "stagingUploadsPath r = multipartDir r @ [stagingUploadsDirname]"
  by (simp add: stagingUploadsPath_def stagingRootPath_def Join_Cons_plain)

lemma uploadPath_ok:
  "blob_id_ok s \<Longrightarrow> singlePartUploadPath r s = multipartDir r @ [stagingUploadsDirname, s]"
  "blob_id_ok s \<Longrightarrow> multipartSessionPath r s = multipartDir r @ [stagingUploadsDirname, s]"
  by (simp_all add: singlePartUploadPath_def multipartSessionPath_def uploadsPath_eq Join_Cons_plain plain_blob_id)

lemma objectPath_ok:
  "blob_id_ok s \<Longrightarrow>
     singlePartObjectPath r s = multipartDir r @ [stagingUploadsDirname, s, stagingObjectFilename]"
  by (simp add: singlePartObjectPath_def uploadPath_ok Join_Cons_plain)

lemma metaPath_ok:
  "blob_id_ok s \<Longrightarrow>
     multipartMetaPath r s = multipartDir r @ [stagingUploadsDirname, s, stagingManifestFilename]"
  by (simp add: multipartMetaPath_def uploadPath_ok Join_Cons_plain)

lemma partPath_ok:
  "blob_id_ok s \<Longrightarrow>
     multipartPartPath r s n = multipartDir r @ [stagingUploadsDirname, s, ''part_'' @ fmt_05d n]"
  by (simp add: multipartPartPath_def uploadPath_ok Join_Cons_plain plain_part [simplified])

lemma completedPath_ok:
  "blob_id_ok s \<Longrightarrow> completedMultipartMetaPath r s =
     multipartDir r @ [multipartCompletionDirname, blobShard s, s @ ''.json'']"
  by (simp add: completedMultipartMetaPath_def multipartCompletedDir_def stagingRootPath_def
      completedMetaShard_def Join_Cons_plain plain_shard plain_suffix)

lemmas storage_paths = blobPath_ok uploadPath_ok objectPath_ok metaPath_ok partPath_ok completedPath_ok

lemma outside_data:
  assumes "repo_ok r"
  shows "dataDir r @ p \<noteq> multipartDir r @ q"
  using assms by (metis append_eq_append_conv2 prefix_def repo_ok_def)

lemma blobPath_not_staged:
  assumes "repo_ok r" "blob_id_ok s"
  shows "blobPath r s \<noteq> multipartDir r @ q" "\<not> prefix (multipartDir r @ q) (blobPath r s)"
  using assms outside_data by (auto simp: blobPath_ok prefix_def)

lemma blobPath_inj: "blob_id_ok s \<Longrightarrow> blob_id_ok s' \<Longrightarrow> blobPath r s = blobPath r s' \<longleftrightarrow> s = s'"
  by (auto simp: blobPath_ok)

section \<open>Writing a file atomically\<close>

text \<open>The temporary names \<open>createAtomicTempFile\<close> may use for a target.\<close>

definition temp_of :: "path \<Rightarrow> path \<Rightarrow> bool" where
  "temp_of p q = (\<exists>x. q = filepath_Dir p @ [(filepath_Base p @ ''.'') @ x @ ''.tmp''])"

lemma temp_of_self: "p \<noteq> [] \<Longrightarrow> \<not> temp_of p p"
proof
  assume "p \<noteq> []" "temp_of p p"
  then obtain x where "butlast p @ [last p] = butlast p @ [(last p @ ''.'') @ x @ ''.tmp'']"
    by (auto simp: temp_of_def filepath_Dir_def filepath_Base_def)
  then show False by simp
qed

lemma blobPath_not_temp:
  assumes "blob_id_ok s" "blob_id_ok s'"
  shows "\<not> temp_of (blobPath r s) (blobPath r s')"
  using assms by (auto simp: temp_of_def blobPath_ok filepath_Dir_def filepath_Base_def blob_id_ok_def)

text \<open>Agreement of two worlds on every file outside a set of paths.\<close>

definition same_files_except :: "(path \<Rightarrow> bool) \<Rightarrow> fs_world \<Rightarrow> fs_world \<Rightarrow> bool" where
  "same_files_except S w w' = (\<forall>q. \<not> S q \<longrightarrow> files w' q = files w q)"

lemma same_filesI: "(\<And>q. \<not> S q \<Longrightarrow> files w' q = files w q) \<Longrightarrow> same_files_except S w w'"
  by (auto simp: same_files_except_def)

lemma same_filesD: "same_files_except S w w' \<Longrightarrow> \<not> S q \<Longrightarrow> files w' q = files w q"
  by (auto simp: same_files_except_def)

lemma same_files_upd:
  "same_files_except S v w' \<Longrightarrow> files v = (files w)(p := x) \<Longrightarrow> S p \<Longrightarrow> same_files_except S w w'"
  by (auto simp: same_files_except_def)

lemma same_files_trans:
  "same_files_except S w v \<Longrightarrow> same_files_except S v w' \<Longrightarrow> same_files_except S w w'"
  by (auto simp: same_files_except_def)

lemma same_files_mono:
  "same_files_except S w w' \<Longrightarrow> (\<And>q. S q \<Longrightarrow> S' q) \<Longrightarrow> same_files_except S' w w'"
  by (auto simp: same_files_except_def)

lemma same_files_refl [simp]: "same_files_except S w w"
  by (simp add: same_files_except_def)

lemma same_files_eq: "files w' = files w \<Longrightarrow> same_files_except S w w'"
  by (simp add: same_files_except_def)

lemma same_files_blobs:
  assumes "same_files_except S w w'" "\<And>i. blob_id_ok i \<Longrightarrow> \<not> S (blobPath r i)"
  shows "blobs r w' = blobs r w"
  using assms by (auto simp: blobs_def fun_eq_iff same_files_except_def)

lemma contextReader_wp [fs_wp]:
  assumes "\<And>w'. files w' = files w \<Longrightarrow> Q rd w'"
    and "\<And>bs e w'. e \<noteq> EOF \<Longrightarrow> files w' = files w \<Longrightarrow> Q (bs, Some e) w'"
  shows "wpE (contextReader_Read ctx rd) Q E w"
proof -
  have ctx: "ctx_Err ctx t = Some e \<Longrightarrow> e \<noteq> EOF" for t e
    using ctx_Err_cases [of ctx t] by auto
  show ?thesis
    using assms by (cases rd) (auto simp: contextReader_Read_def wp wpE_ctxErr ctx split: option.splits)
qed

lemma io_Copy_wp:
  assumes "files w dst = Some d"
  shows "wpE (io_Copy rd ctx dst acc)
    (\<lambda>n w'. n = acc @ reads_data rd \<and> reads_error rd = None \<and> files w' = (files w)(dst \<mapsto> d @ reads_data rd))
    (\<lambda>e w'. same_files_except (\<lambda>q. q = dst) w w') w"
  using assms
proof (induction rd arbitrary: acc d w)
  case Nil
  then show ?case
    by (auto simp: wp same_files_except_def fun_upd_idem intro!: contextReader_wp split: option.splits)
next
  case (Cons r rd)
  obtain bs oe where r: "r = (bs, oe)" by (cases r)
  have step: "wpE (if b = [] then returnE () else file_Write dst b) Q E w'"
    if "files w' = files w"
      "\<And>w''. files w'' = (files w)(dst \<mapsto> d @ b) \<Longrightarrow> Q () w''"
      "\<And>e w''. same_files_except (\<lambda>q. q = dst) w w'' \<Longrightarrow> E e w''" for b Q E and w' :: fs_world
    using that(1) Cons.prems
    by (auto simp: wp fun_upd_idem intro!: Write_wp that(2,3) same_filesI)
  show ?case
    unfolding io_Copy.simps wpE_bindE
  proof (rule contextReader_wp, goal_cases)
    case (1 w1)
    show ?case
      unfolding r prod.case wpE_bindE
    proof (rule step [OF 1], goal_cases)
      case (1 w2)
      show ?case
      proof (cases oe)
        case None
        have "wpE (io_Copy rd ctx dst (acc @ bs))
           (\<lambda>n w'. n = (acc @ bs) @ reads_data rd \<and> reads_error rd = None \<and>
              files w' = (files w2)(dst \<mapsto> (d @ bs) @ reads_data rd))
           (\<lambda>e w'. same_files_except (\<lambda>q. q = dst) w2 w') w2"
          by (rule Cons.IH) (simp add: 1)
        then show ?thesis
          by (simp add: None) (erule wpE_mono, auto simp: 1 intro: same_files_upd)
      qed (auto simp: wp 1 same_files_except_def)
    qed simp
  next
    case (2 bs e w1)
    then show ?case
      unfolding prod.case wpE_bindE by (intro step) (auto simp: wp same_files_except_def)
  qed
qed


lemma closeAndRemove_wp [fs_wp]:
  assumes "\<And>w'. same_files_except (\<lambda>q. q = p) w w' \<Longrightarrow> Q () w'"
  shows "wpE (closeAndRemove p) Q E w"
  unfolding closeAndRemove_def wp
  by (rule file_Op_wp; rule Remove_wp; auto intro!: assms simp: same_files_except_def)

lemma createAtomicTempFile_wp:
  "wpE (createAtomicTempFile p ent)
    (\<lambda>t w'. temp_of p t \<and> files w' = (files w)(t \<mapsto> []))
    (\<lambda>e w'. same_files_except (temp_of p) w w') w"
  unfolding createAtomicTempFile_def Let_def wp
proof (rule MkdirAll_wp, goal_cases)
  case (1 w1)
  have t: "temp_of p (filepath_Dir p @ [(filepath_Base p @ ''.'') @ x @ ''.tmp''])" for x
    by (auto simp: temp_of_def)
  show ?case
  proof (rule CreateTemp_wp, goal_cases)
    case (1 x w2)
    let ?t = "filepath_Dir p @ [(filepath_Base p @ ''.'') @ x @ ''.tmp'']"
    have w2: "files w2 = (files w)(?t \<mapsto> [])" using 1 \<open>files w1 = files w\<close> by simp
    have "same_files_except (temp_of p) w v"
      if "same_files_except (\<lambda>q. q = ?t) v' v" "files v' = files w2" for v v'
      by (rule same_files_upd [OF same_files_mono [OF that(1)]]) (use t that w2 in \<open>auto simp del: append.simps\<close>)
    then show ?case
      by (intro file_Op_wp closeAndRemove_wp) (simp_all add: w2 t [simplified])
  qed (simp add: 1 same_files_eq)
qed (simp add: same_files_eq)

text \<open>
  A successful write leaves the target with exactly what the reader delivered; a failed write
  leaves every file but its own temporary file as it was.
\<close>

lemma writeAtomically_wp:
  assumes "p \<noteq> []"
  shows "wpE (writeAtomically ctx p rd ent)
    (\<lambda>res w'. reads_error rd = None \<and> files w' p = Some (reads_data rd) \<and>
       res = \<lparr>checksumMD5 = md5Hex (reads_data rd), sizeBytes = int (length (reads_data rd))\<rparr> \<and>
       same_files_except (\<lambda>q. q = p \<or> temp_of p q) w w')
    (\<lambda>e w'. same_files_except (temp_of p) w w') w"
  unfolding writeAtomically_def wpE_bindE
proof (rule wpE_mono [OF createAtomicTempFile_wp], goal_cases)
  case (1 t w1)
  then have t: "temp_of p t" "t \<noteq> p" and w1: "files w1 = (files w)(t \<mapsto> [])"
    using temp_of_self [OF assms] by auto
  have fail: "same_files_except (temp_of p) w v" if "same_files_except (\<lambda>q. q = t) w1 v" for v
    using that t w1 by (auto simp: same_files_except_def)
  show ?case
    unfolding wp
  proof (rule wpE_mono [OF io_Copy_wp [where d = "[]"]], goal_cases)
    case (2 n w2)
    then have w2: "files w2 = (files w)(t \<mapsto> reads_data rd)"
      and n: "n = reads_data rd" "reads_error rd = None" by (simp_all add: w1)
    have clean: "same_files_except (temp_of p) w v"
      if "files v = files w2 \<or> files v = (files w2)(t := None)" for v
      using that t w2 by (auto simp: same_files_except_def)
    have clean': "same_files_except (temp_of p) w v"
      if "same_files_except (\<lambda>q. q = t) v' v" "files v' = files w2" for v v'
      using that t w2 by (auto simp: same_files_except_def split: if_splits)
    show ?case
      by (intro file_Op_wp closeAndRemove_wp Rename_wp Remove_wp)
        (use n t w2 in \<open>auto intro: clean clean' simp: same_files_except_def\<close>)
  next
    case (3 e w2)
    then show ?case
      by (auto intro!: closeAndRemove_wp intro: fail same_files_trans split: if_splits)
  qed (simp add: w1)
qed simp


section \<open>Single blobs\<close>

text \<open>Everything below the staging directory, where no blob lives.\<close>

definition staged :: "repo \<Rightarrow> path \<Rightarrow> bool" where
  "staged r q = prefix (multipartDir r) q"

lemma staged_append [simp]: "staged r (multipartDir r @ q)"
  by (simp add: staged_def)

lemma staged_temp:
  assumes "q \<noteq> []" "temp_of (multipartDir r @ q) t"
  shows "staged r t"
proof -
  from assms obtain x where "t = butlast (multipartDir r @ q) @ [x]"
    by (auto simp: temp_of_def filepath_Dir_def)
  with assms(1) show ?thesis by (simp add: butlast_append)
qed

lemma staged_blobs: "repo_ok r \<Longrightarrow> same_files_except (staged r) w w' \<Longrightarrow> blobs r w' = blobs r w"
  by (erule same_files_blobs) (metis append_Nil2 blobPath_not_staged(2) staged_def)

lemma ensureDirReady_wp [fs_wp]:
  assumes "\<And>w'. files w' = files w \<Longrightarrow> Q () w'" "\<And>e w'. files w' = files w \<Longrightarrow> E e w'"
  shows "wpE (ensureDirReady d) Q E w"
  unfolding ensureDirReady_def ensureWritableDiskSpace_def wp split_def
  by (auto intro!: MkdirAll_wp Statfs_wp assms)

lemma writeStaged_wp:
  assumes "q \<noteq> []"
  shows "wpE (writeAtomically ctx (multipartDir r @ q) rd ent)
    (\<lambda>res w'. reads_error rd = None \<and> files w' (multipartDir r @ q) = Some (reads_data rd) \<and>
       res = \<lparr>checksumMD5 = md5Hex (reads_data rd), sizeBytes = int (length (reads_data rd))\<rparr> \<and>
       same_files_except (staged r) w w')
    (\<lambda>e w'. same_files_except (staged r) w w') w"
  using assms by (intro wpE_mono [OF writeAtomically_wp])
    (auto elim!: same_files_mono dest: staged_temp)

lemma writeSinglePartManifest_wp:
  assumes "blob_id_ok i"
  shows "wpE (writeSinglePartManifest js r i)
    (\<lambda>_ w'. same_files_except (staged r) w w') (\<lambda>e w'. same_files_except (staged r) w w') w"
  unfolding writeSinglePartManifest_def uploadPath_ok(1) [OF assms]
  by (simp add: wp Join_Cons_plain split: sum.splits)
    (auto intro: wpE_mono [OF writeStaged_wp])

text \<open>The published blob: everything outside staging but its own path is as before.\<close>

lemma StoreBlob_wp:
  assumes "repo_ok r" "blob_id_ok i"
  shows "wpE (StoreBlob js r ctx i rd)
    (\<lambda>m w'. reads_error rd = None \<and> blobs r w' = (blobs r w)(i \<mapsto> reads_data rd) \<and>
       m = \<lparr>BlobID = i, ChecksumMD5 = md5Hex (reads_data rd),
            SizeBytes = int (length (reads_data rd)), ContentType = []\<rparr>)
    (\<lambda>e w'. blobs r w' = blobs r w) w"
proof -
  note st = staged_blobs [OF assms(1)]
  have dir: "wpE (ensureDirReady d) Q E v"
    if "same_files_except (staged r) w v"
      "\<And>v'. same_files_except (staged r) w v' \<Longrightarrow> Q () v'"
      "\<And>e v'. same_files_except (staged r) w v' \<Longrightarrow> E e v'" for d Q E v
    using that by (intro ensureDirReady_wp) (auto simp: same_files_except_def)
  show ?thesis
    unfolding StoreBlob_def wp objectPath_ok [OF assms(2)]
  proof (rule ctxErr_wp, goal_cases)
    case (1 w0)
    then have w0: "same_files_except (staged r) w w0" by (rule same_files_eq)
    show ?case
    proof (rule dir [OF w0], rule dir, assumption, rule wpE_mono [OF writeSinglePartManifest_wp [OF assms(2)]], goal_cases)
      case (1 w1 w2 _ w3)
      then have w3: "same_files_except (staged r) w w3" by (blast intro: same_files_trans)
      show ?case
      proof (rule wpE_mono [OF writeStaged_wp], goal_cases)
        case (2 res w4)
        then have w4: "same_files_except (staged r) w w4" by (blast intro: same_files_trans w3)
        let ?o = "multipartDir r @ [stagingUploadsDirname, i, stagingObjectFilename]"
        have published: "blobs r v = (blobs r w)(i \<mapsto> reads_data rd)"
          if "same_files_except (staged r) v' v"
            "files v' = (files w4)(?o := None, blobPath r i \<mapsto> reads_data rd)" for v v'
        proof
          fix j
          have "blob_id_ok j \<Longrightarrow> \<not> staged r (blobPath r j)"
            using blobPath_not_staged(2) [OF assms(1), of j "[]"] by (simp add: staged_def)
          then show "blobs r v j = ((blobs r w)(i \<mapsto> reads_data rd)) j"
            using assms(2) that w4 blobPath_not_staged(1) [OF assms(1), of j]
            by (auto simp: blobs_def same_files_except_def blobPath_inj)
        qed
        show ?case
        proof (rule ensureDirReady_wp, rule Rename_wp, goal_cases)
          case (1 w5 d w6)
          with 2 have w6: "files w6 = (files w4)(?o := None, blobPath r i \<mapsto> reads_data rd)"
            by auto
          have "\<not> staged r q \<Longrightarrow> \<not> prefix (multipartDir r @ [stagingUploadsDirname, i]) q" for q
            by (auto simp: staged_def prefix_def)
          with 2 show ?case
            unfolding cleanupSinglePartStagingBestEffort_def wp uploadPath_ok(1) [OF assms(2)]
            by (intro RemoveAll_wp) (auto intro!: published [OF same_filesI w6])
        qed (use w4 st in \<open>auto simp: same_files_except_def\<close>)
      qed (auto intro: st same_files_trans w3)
    qed (auto intro: st same_files_trans)
  qed (simp add: blobs_def fun_eq_iff)
qed

text \<open>What an open reader delivers when it is read to its end.\<close>

definition reader_data :: "blob_reader \<Rightarrow> bytes" where
  "reader_data b = (case handle b of Dir \<Rightarrow> []
     | File d \<Rightarrow> (let rest = drop (nat (offset b)) d in
                case limit b of None \<Rightarrow> rest | Some n \<Rightarrow> take (nat n) rest))"

lemma openBlob_wp:
  assumes "blob_id_ok i" "\<not> is_dir w (blobPath r i)"
  shows "wpE (openBlob r i)
    (\<lambda>(h, size) w'. \<exists>d. h = File d \<and> size = int (length d) \<and> blobs r w i = Some d \<and> files w' = files w)
    (\<lambda>e w'. files w' = files w \<and> (e = ErrBlobNotFound \<longrightarrow> blobs r w i = None)) w"
  unfolding openBlob_def wp
  by (rule Open_wp)
    (use assms in \<open>auto simp: wp blobs_def ErrBlobNotFound_def NewCommonError_def intro!: Stat_Size_wp file_Op_wp\<close>)

lemma ctx_not_common: "ctx_Err c t \<noteq> Some (CommonError m k)"
  using ctx_Err_cases [of c t] by auto

lemma RetrieveBlob_wp:
  assumes "blob_id_ok i" "\<not> is_dir w (blobPath r i)"
  shows "wpE (RetrieveBlob r ctx i)
    (\<lambda>(b, size) w'. \<exists>d. blobs r w i = Some d \<and> reader_data b = d \<and> 0 \<le> offset b \<and> size = int (length d) \<and> blobs r w' = blobs r w)
    (\<lambda>e w'. blobs r w' = blobs r w \<and> (e = ErrBlobNotFound \<longrightarrow> blobs r w i = None)) w"
  unfolding RetrieveBlob_def wp wpE_ctxErr
  using assms ctx_not_common [of ctx "now w" "''blob not found''" NotFound]
  by (auto split: option.splits simp: wp split_def reader_data_def blobs_def fun_eq_iff
      ErrBlobNotFound_def NewCommonError_def
      intro!: wpE_mono [OF openBlob_wp])

lemma RetrieveBlobRange_wp:
  assumes "blob_id_ok i" "\<not> is_dir w (blobPath r i)" "0 \<le> off"
  shows "wpE (RetrieveBlobRange r ctx i off len)
    (\<lambda>(b, size) w'. \<exists>d. blobs r w i = Some d \<and> reader_data b = take (nat len) (drop (nat off) d) \<and> 0 \<le> offset b \<and>
       size = int (length d) \<and> blobs r w' = blobs r w)
    (\<lambda>e w'. blobs r w' = blobs r w \<and> (e = ErrBlobNotFound \<longrightarrow> blobs r w i = None)) w"
  unfolding RetrieveBlobRange_def wp wpE_ctxErr
  using assms ctx_not_common [of ctx "now w" "''blob not found''" NotFound]
  by (auto split: option.splits simp: wp split_def Let_def reader_data_def blobs_def fun_eq_iff
      ErrBlobNotFound_def NewCommonError_def
      intro!: wpE_mono [OF openBlob_wp] Seek_wp file_Op_wp)

lemma DeleteBlob_wp:
  assumes "repo_ok r" "blob_id_ok i"
  shows "wpE (DeleteBlob r ctx i)
    (\<lambda>_ w'. blobs r w' = (blobs r w)(i := None))
    (\<lambda>e w'. blobs r w' = blobs r w \<or> blobs r w' = (blobs r w)(i := None)) w"
proof -
  let ?c = "completedMultipartMetaPath r i"
  have other: "blob_id_ok j \<Longrightarrow> blobPath r j \<noteq> ?c" for j
    using blobPath_not_staged(1) [OF assms(1)] assms(2) by (simp add: completedPath_ok)
  have gone: "blobs r v = (blobs r w)(i := None)"
    if "files v' = (files w)(blobPath r i := None) \<or> files v' = files w \<and> files w (blobPath r i) = None"
      "same_files_except (\<lambda>q. q = ?c) v' v" for v v'
  proof
    fix j
    show "blobs r v j = ((blobs r w)(i := None)) j"
      using that assms(2) other [of j] by (auto simp: blobs_def same_files_except_def blobPath_inj)
  qed
  have marker: "wpE (removeCompletedMultipartMeta r i) Q E v"
    if "\<And>v'. same_files_except (\<lambda>q. q = ?c) v v' \<Longrightarrow> Q () v'"
      "\<And>e v'. same_files_except (\<lambda>q. q = ?c) v v' \<Longrightarrow> E e v'" for Q E v
    unfolding removeCompletedMultipartMeta_def wp
    by (rule Remove_wp) (auto intro!: that simp: same_files_except_def)
  show ?thesis
    unfolding DeleteBlob_def wp
    by (rule ctxErr_wp)
      (auto intro!: Remove_wp marker intro: gone blobs_files split: if_splits)
qed

end
