(* ===== verification/Storage_Multipart.thy ===== *)
theory Storage_Multipart
  imports Storage_Spec
begin

text \<open>
  Multipart uploads of the storage repository: sessions and parts live in staging and never
  touch a blob, and \<open>AssembleParts\<close> publishes the concatenation of the listed parts, each
  with the checksum the client listed for it, or leaves every other blob as it was.
\<close>

section \<open>Sessions and parts\<close>

definition part_matches :: "repo \<Rightarrow> fs_world \<Rightarrow> string \<Rightarrow> PartInfo \<Rightarrow> bytes \<Rightarrow> bool" where
  "part_matches r w uploadID part d =
    (files w (multipartPartPath r uploadID (PartNumber part)) = Some d \<and> md5Hex d = PartChecksumMD5 part)"

lemma reads_error_snoc: "reads_error (map (\<lambda>c. (c, None)) cs @ [([], Some (Errno e))]) = Some (Errno e)"
  by (induction cs) auto

lemma file_reads_wp:
  assumes "\<And>rd w'. (\<And>d. h = File d \<Longrightarrow> reads_error rd = None \<Longrightarrow> reads_data rd = d) \<Longrightarrow>
      (h = Dir \<Longrightarrow> reads_error rd \<noteq> None) \<Longrightarrow> files w' = files w \<Longrightarrow> Q rd w'"
  shows "wpE (file_reads h) Q E w"
  by (auto simp: wpE_def file_reads_def Let_def reads_error_snoc [folded bytes_reads_def]
      bytes_reads_def reads_error_snoc reads_error_None reads_data_None concat_chunks copyBufferSize_def
      split: node.splits option.splits intro!: assms)

lemma assembleLoop_wp:
  assumes "files w t = Some wr" "\<And>n. multipartPartPath r u n \<noteq> t"
  shows "wpE (assembleLoop parts r ctx u t wr)
    (\<lambda>n w'. \<exists>ds. list_all2 (part_matches r w u) parts ds \<and> n = wr @ concat ds \<and>
       files w' = (files w)(t \<mapsto> n))
    (\<lambda>e w'. same_files_except (\<lambda>q. q = t) w w') w"
  using assms(1)
proof (induction parts arbitrary: wr w)
  case Nil
  then show ?case by (auto simp: wp fun_eq_iff)
next
  case (Cons part parts)
  let ?p = "multipartPartPath r u (PartNumber part)"
  have fail: "wpE (closeAndRemove t) Q E v"
    if "same_files_except (\<lambda>q. q = t) w v" "\<And>v'. same_files_except (\<lambda>q. q = t) w v' \<Longrightarrow> Q () v'" for Q E v
    using that by (intro closeAndRemove_wp) (blast intro: same_files_trans)
  have copy: "wpE (file_reads h)
      (\<lambda>rd. wpE (io_Copy rd ctx t []) (\<lambda>x. Q (Inr x)) (\<lambda>e. Q (Inl e))) E v"
    if v: "files v = files w"
      and ok: "\<And>d v'. h = File d \<Longrightarrow> files v' = (files w)(t \<mapsto> wr @ d) \<Longrightarrow> Q (Inr d) v'"
      and bad: "\<And>e v'. same_files_except (\<lambda>q. q = t) w v' \<Longrightarrow> Q (Inl e) v'" for h Q E and v :: fs_world
  proof (rule file_reads_wp, goal_cases)
    case (1 rd v1)
    have "files v1 t = Some wr" using 1(3) v Cons.prems by simp
    from io_Copy_wp [OF this, of rd ctx "[]"] show ?case
    proof (rule wpE_mono, goal_cases)
      case (1 n v2)
      then show ?case
        using \<open>\<And>d. h = File d \<Longrightarrow> reads_error rd = None \<Longrightarrow> reads_data rd = d\<close>
          \<open>h = Dir \<Longrightarrow> reads_error rd \<noteq> None\<close> \<open>files v1 = files v\<close> v
        by (cases h) (auto intro!: ok)
    next
      case (2 e v2)
      then show ?case using \<open>files v1 = files v\<close> v by (intro bad) (simp add: same_files_except_def)
    qed
  qed
  have rest: "wpE (assembleLoop parts r ctx u t (wr @ d))
      (\<lambda>n w'. \<exists>ds. list_all2 (part_matches r w u) (part # parts) ds \<and> n = wr @ concat ds \<and>
         files w' = (files w)(t \<mapsto> n))
      (\<lambda>e w'. same_files_except (\<lambda>q. q = t) w w') v"
    if d: "files w ?p = Some d" "md5Hex d = PartChecksumMD5 part"
      and v: "files v = (files w)(t \<mapsto> wr @ d)" for d v
  proof -
    have "files v t = Some (wr @ d)" using v by simp
    from Cons.IH [OF this] show ?thesis
    proof (rule wpE_mono, goal_cases)
      case (1 n w')
      then obtain ds where ds: "list_all2 (part_matches r v u) parts ds" "n = (wr @ d) @ concat ds"
        "files w' = (files v)(t \<mapsto> n)" by blast
      have "part_matches r v u = part_matches r w u"
        using v assms(2) by (auto simp: part_matches_def fun_eq_iff)
      with ds d v show ?case
        by (intro exI [of _ "d # ds"]) (simp add: part_matches_def)
    qed (rule same_files_upd [OF _ v], auto)
  qed
  have tail: "wpE (file_reads h)
      (\<lambda>rd. wpE (io_Copy rd ctx t []) (\<lambda>x. K (Inr x)) (\<lambda>e. K (Inl e))) E v"
    if "files v = files w" and "\<And>d. h = File d \<Longrightarrow> files w ?p = Some d"
    and "K = (\<lambda>copied. wpE file_Op (\<lambda>y. J copied (Inr y)) (\<lambda>e. J copied (Inl e)))"
    and "\<And>d c v'. files w ?p = Some d \<Longrightarrow> files v' = (files w)(t \<mapsto> wr @ d) \<Longrightarrow> J (Inr d) c v'"
    and "\<And>e c v'. same_files_except (\<lambda>q. q = t) w v' \<Longrightarrow> J (Inl e) c v'" for h K J E and v :: fs_world
    by (rule copy [OF that(1)]; simp add: that(3); rule file_Op_wp)
      (auto intro!: that(2,4,5) simp: same_files_except_def)
  show ?case
    unfolding assembleLoop.simps wpE_bindE wpE_catchE wpE_tryE
  proof (rule Open_wp, goal_cases)
    case (1 d w1)
    show ?case
      by (rule tail [OF 1(2) _ refl])
        (use 1(1) in \<open>auto simp: wp simp del: fun_upd_apply split: sum.splits
          intro!: rest fail intro: same_files_upd [OF same_files_refl]\<close>)
  next
    case (2 w1)
    show ?case
      by (rule tail [OF 2(2) _ refl])
        (auto simp: wp simp del: fun_upd_apply split: sum.splits
          intro!: rest fail intro: same_files_upd [OF same_files_refl])
  next
    case (3 e w1)
    then show ?case by (intro fail) (auto simp: wp same_files_eq)
  qed
qed


section \<open>Publishing the assembled blob\<close>

lemma assembleBlob_wp:
  assumes "repo_ok r" "blob_id_ok u" "blob_id_ok i"
  shows "wpE (assembleBlob r ctx u parts i)
    (\<lambda>n w'. (\<exists>ds. list_all2 (part_matches r w u) parts ds \<and> n = concat ds) \<and>
       files w' (blobPath r i) = Some n \<and>
       same_files_except (\<lambda>q. q = blobPath r i \<or> temp_of (blobPath r i) q) w w')
    (\<lambda>e w'. same_files_except (temp_of (blobPath r i)) w w') w"
  unfolding assembleBlob_def wp
proof (rule ensureDirReady_wp, rule wpE_mono [OF createAtomicTempFile_wp], goal_cases)
  case (1 w0 t w1)
  let ?p = "blobPath r i"
  have t: "temp_of ?p t" "t \<noteq> ?p" and w1: "files w1 = (files w)(t \<mapsto> [])"
    using 1 assms(3) temp_of_self [of ?p] by (auto simp: blobPath_ok)
  have np: "multipartPartPath r u n \<noteq> t" for n
  proof -
    obtain x where "t = dataDir r @ [blobShard i, x]"
      using t(1) assms(3) by (auto simp: temp_of_def blobPath_ok filepath_Dir_def butlast_append)
    then show ?thesis
      using outside_data [OF assms(1), of "[blobShard i, x]", symmetric] assms(2) by (simp add: partPath_ok)
  qed
  have pm: "part_matches r w1 u = part_matches r w u"
    using np by (auto simp: part_matches_def fun_eq_iff w1)
  have clean: "same_files_except (temp_of ?p) w v"
    if "files v' = (files w)(t := x)" "same_files_except (\<lambda>q. q = t) v' v" for v v' x
    by (rule same_files_upd [OF same_files_mono [OF that(2)] that(1)]) (use t in auto)
  show ?case
  proof (rule wpE_mono [OF assembleLoop_wp [where wr = "[]", OF _ np]], goal_cases)
    case (2 n w2)
    then have w2: "files w2 = (files w)(t \<mapsto> n)" and n: "\<exists>ds. list_all2 (part_matches r w u) parts ds \<and> n = concat ds"
      by (auto simp: w1 pm)
    have upd: "same_files_except (temp_of ?p) w v" if "files v = (files w)(t := x)" for v x
      by (rule clean [OF that same_files_refl])
    show ?case
      by (intro file_Op_wp closeAndRemove_wp Rename_wp Remove_wp)
        (use n t w2 in \<open>auto intro: upd clean simp: same_files_except_def [of "\<lambda>q. q = ?p \<or> temp_of ?p q"]\<close>)
  qed (auto simp: w1 intro: clean [OF w1])
qed (auto simp: same_files_except_def)

lemma data_temp_blobs:
  assumes "blob_id_ok i" "same_files_except (temp_of (blobPath r i)) w w'"
  shows "blobs r w' = blobs r w"
  using assms(2) by (rule same_files_blobs) (simp add: assms(1) blobPath_not_temp)

lemma data_write_blobs:
  assumes "blob_id_ok i" "same_files_except (\<lambda>q. q = blobPath r i \<or> temp_of (blobPath r i) q) w w'"
  shows "blobs r w' = (blobs r w)(i := files w' (blobPath r i))"
proof
  fix j
  show "blobs r w' j = ((blobs r w)(i := files w' (blobPath r i))) j"
    using assms blobPath_not_temp [of i j r]
    by (auto simp: blobs_def same_files_except_def blobPath_inj)
qed

lemma writeCompletedMultipartMeta_wp:
  assumes "blob_id_ok u"
  shows "wpE (writeCompletedMultipartMeta js r u m)
    (\<lambda>_ w'. same_files_except (staged r) w w' \<and>
       (\<exists>d. marshal_blobmeta js m = Inr d \<and> files w' (completedMultipartMetaPath r u) = Some d))
    (\<lambda>e w'. same_files_except (staged r) w w') w"
  unfolding writeCompletedMultipartMeta_def wp completedPath_ok [OF assms]
  by (rule ensureDirReady_wp)
    (auto simp: same_files_except_def split: sum.splits intro!: wpE_mono [OF writeStaged_wp])

lemma CleanupMultipart_wp:
  assumes "blob_id_ok u"
  shows "wpE (CleanupMultipart r ctx u)
    (\<lambda>_ w'. same_files_except (staged r) w w') (\<lambda>e w'. same_files_except (staged r) w w') w"
proof -
  have "\<not> staged r q \<Longrightarrow> \<not> prefix (multipartDir r @ [stagingUploadsDirname, u]) q" for q
    by (auto simp: staged_def prefix_def)
  then show ?thesis
    unfolding CleanupMultipart_def wp uploadPath_ok(2) [OF assms]
    by (intro ctxErr_wp RemoveAll_wp) (auto simp: wp same_files_except_def)
qed

lemma cleanupMultipartBestEffort_wp:
  assumes "blob_id_ok u" "\<And>w'. same_files_except (staged r) w w' \<Longrightarrow> Q () w'"
  shows "wpE (cleanupMultipartBestEffort r ctx u) Q E w"
  unfolding cleanupMultipartBestEffort_def wp
  using assms(2) by (intro wpE_mono [OF CleanupMultipart_wp [OF assms(1)]])

text \<open>A blob is either whole or absent after a failed assembly, never partial.\<close>

definition whole_or_absent :: "repo \<Rightarrow> fs_world \<Rightarrow> string \<Rightarrow> PartInfo list \<Rightarrow> string \<Rightarrow> fs_world \<Rightarrow> bool" where
  "whole_or_absent r w u parts i w' = (\<exists>x. blobs r w' = (blobs r w)(i := x) \<and>
     (x = blobs r w i \<or> x = None \<or> (\<exists>ds. list_all2 (part_matches r w u) parts ds \<and> x = Some (concat ds))))"

lemma whole_or_absent_same: "blobs r w' = blobs r w \<Longrightarrow> whole_or_absent r w u parts i w'"
  unfolding whole_or_absent_def by (intro exI [of _ "blobs r w i"]) simp

lemma assembleSession_wp:
  assumes "repo_ok r" "blob_id_ok u" "blob_id_ok i"
    and dest: "\<And>d sm. files w (multipartMetaPath r u) = Some d \<Longrightarrow> unmarshal_session js d = Inr sm \<Longrightarrow>
      (if SessionBlobID sm \<noteq> [] then SessionBlobID sm else destBlobID) = i"
  shows "wpE (assembleSession js r ctx u parts destBlobID)
    (\<lambda>m w'. \<exists>ds. list_all2 (part_matches r w u) parts ds \<and>
       blobs r w' = (blobs r w)(i \<mapsto> concat ds) \<and> BlobID m = i \<and>
       ChecksumMD5 m = md5Hex (concat ds) \<and> SizeBytes m = int (length (concat ds)))
    (\<lambda>e w'. whole_or_absent r w u parts i w') w"
  unfolding assembleSession_def readMultipartSessionMeta_def wp wpE_bindE
proof (rule ReadFile_wp, goal_cases)
  case (1 d w1)
  have same: "whole_or_absent r w u parts i v" if "files v = files w" for v
    using that by (intro whole_or_absent_same blobs_files)
  show ?case
  proof (cases "unmarshal_session js d")
    case (Inl e)
    then show ?thesis using 1 same by simp
  next
    case (Inr sm)
    have pm: "part_matches r w1 u = part_matches r w u" using 1 by (simp add: part_matches_def fun_eq_iff)
    have b1: "blobs r w1 = blobs r w" using 1 by (intro blobs_files)
    have fin: "wpE (catchE (writeCompletedMultipartMeta js r u m) (\<lambda>err.
             bindE (catchE (DeleteBlob r (WithoutCancel ctx) i) (\<lambda>deleteErr.
                      throwE (WrapError ''persist completed multipart meta'' err))) (\<lambda>_.
             throwE err)))
        (\<lambda>_. wpE (cleanupMultipartBestEffort r ctx u) (\<lambda>_ w'. blobs r w' = (blobs r w)(i \<mapsto> n)) F)
        (\<lambda>e w'. whole_or_absent r w u parts i w') v"
      if v: "blobs r v = (blobs r w)(i \<mapsto> n)"
        and n: "\<exists>ds. list_all2 (part_matches r w u) parts ds \<and> n = concat ds" for v n m F
      unfolding wp
    proof (rule wpE_mono [OF writeCompletedMultipartMeta_wp [OF assms(2)]], goal_cases)
      case (1 _ v1)
      then show ?case
        using v staged_blobs [OF assms(1)]
        by (intro cleanupMultipartBestEffort_wp [OF assms(2)]) (metis staged_blobs)
    next
      case (2 e v1)
      then have "blobs r v1 = (blobs r w)(i \<mapsto> n)" using staged_blobs [OF assms(1)] v by metis
      then show ?case
        using n by (intro wpE_mono [OF DeleteBlob_wp [OF assms(1,3)]]) (auto simp: whole_or_absent_def)
    qed
    have go: "wpE (assembleBlob r ctx u parts i)
       (\<lambda>n. wpE (catchE (writeCompletedMultipartMeta js r u (M n)) (\<lambda>err.
             bindE (catchE (DeleteBlob r (WithoutCancel ctx) i) (\<lambda>deleteErr.
                      throwE (WrapError ''persist completed multipart meta'' err))) (\<lambda>_.
             throwE err)))
        (\<lambda>_. wpE (cleanupMultipartBestEffort r ctx u) (\<lambda>_. Q n) F)
        (\<lambda>e w'. whole_or_absent r w u parts i w'))
       (\<lambda>e w'. whole_or_absent r w u parts i w') w1"
      if "\<And>ds v. list_all2 (part_matches r w u) parts ds \<Longrightarrow> blobs r v = (blobs r w)(i \<mapsto> concat ds) \<Longrightarrow> Q (concat ds) v"
      for M Q F
    proof (rule wpE_mono [OF assembleBlob_wp [OF assms(1-3)]], goal_cases)
      case (1 n w2)
      then have "blobs r w2 = (blobs r w)(i \<mapsto> n)"
        using data_write_blobs [OF assms(3), of r w1 w2] b1 by simp
      with 1 show ?case
        using that
        by (intro wpE_mono [OF fin [where n = n and v = w2]]) (auto simp: pm elim!: wpE_mono)
    qed (use b1 data_temp_blobs [OF assms(3)] in \<open>auto intro: whole_or_absent_same\<close>)
    show ?thesis
      unfolding Inr sum.case Let_def dest [OF 1(1) Inr] wpE_if wpE_throwE wpE_bindE wpE_returnE
      using same [of w1] 1(2) by (auto intro!: go)
  qed
qed (auto simp: wp intro!: whole_or_absent_same blobs_files)


text \<open>
  \<open>AssembleParts\<close> under any faults: a replay of a finished upload returns the recorded
  metadata of a blob that is still there; otherwise the blob becomes the concatenation of the
  parts. \<open>dest\<close> says which blob id the session names.
\<close>

definition session_dest :: "json_codec \<Rightarrow> repo \<Rightarrow> fs_world \<Rightarrow> string \<Rightarrow> string \<Rightarrow> string \<Rightarrow> bool" where
  "session_dest js r w u destBlobID i =
    (case files w (multipartMetaPath r u) of None \<Rightarrow> True
     | Some d \<Rightarrow> (case unmarshal_session js d of Inl _ \<Rightarrow> True
        | Inr sm \<Rightarrow> (if SessionBlobID sm \<noteq> [] then SessionBlobID sm else destBlobID) = i))"

lemma AssembleParts_wp:
  assumes "repo_ok r" "blob_id_ok u" "blob_id_ok i" "session_dest js r w u destBlobID i"
  shows "wpE (AssembleParts js r ctx u parts destBlobID)
    (\<lambda>m w'.
       (\<exists>d. files w (completedMultipartMetaPath r u) = Some d \<and> unmarshal_blobmeta js d = Inr m \<and>
            files w (blobPath r (BlobID m)) \<noteq> None \<and> blobs r w' = blobs r w)
       \<or> (\<exists>ds. list_all2 (part_matches r w u) parts ds \<and>
            blobs r w' = (blobs r w)(i \<mapsto> concat ds) \<and> BlobID m = i \<and>
            ChecksumMD5 m = md5Hex (concat ds) \<and> SizeBytes m = int (length (concat ds))))
    (\<lambda>e w'. whole_or_absent r w u parts i w') w"
proof -
  let ?c = "completedMultipartMetaPath r u"
  let ?Q = "\<lambda>m w'. \<exists>ds. list_all2 (part_matches r w u) parts ds \<and>
       blobs r w' = (blobs r w)(i \<mapsto> concat ds) \<and> BlobID m = i \<and>
       ChecksumMD5 m = md5Hex (concat ds) \<and> SizeBytes m = int (length (concat ds))"
  have neq: "?c \<noteq> multipartMetaPath r u" "\<And>n. ?c \<noteq> multipartPartPath r u n"
    using assms(2) by (auto simp: storage_paths stagingUploadsDirname_def multipartCompletionDirname_def)
  have session: "wpE (assembleSession js r ctx u parts destBlobID) ?Q
      (\<lambda>e w'. whole_or_absent r w u parts i w') v"
    if v: "same_files_except (\<lambda>q. q = ?c) w v" for v
  proof -
    have "same_files_except (staged r) w v"
      using v by (rule same_files_mono) (simp add: completedPath_ok assms(2))
    then have b: "blobs r v = blobs r w" by (rule staged_blobs [OF assms(1)])
    have pm: "part_matches r v u = part_matches r w u"
      using v neq(2) [symmetric] by (auto simp: part_matches_def fun_eq_iff same_files_except_def)
    have m: "files v (multipartMetaPath r u) = files w (multipartMetaPath r u)"
      using v neq(1) by (auto simp: same_files_except_def)
    have "wpE (assembleSession js r ctx u parts destBlobID)
        (\<lambda>m w'. \<exists>ds. list_all2 (part_matches r v u) parts ds \<and>
           blobs r w' = (blobs r v)(i \<mapsto> concat ds) \<and> BlobID m = i \<and>
           ChecksumMD5 m = md5Hex (concat ds) \<and> SizeBytes m = int (length (concat ds)))
        (\<lambda>e w'. whole_or_absent r v u parts i w') v"
      using assms m by (intro assembleSession_wp) (auto simp: session_dest_def split: option.splits sum.splits if_splits)
    then show ?thesis by (simp add: whole_or_absent_def b pm)
  qed
  have retry: "wpE (removeCompletedMultipartMeta r u) (\<lambda>_. wpE (assembleSession js r ctx u parts destBlobID) P E)
       (\<lambda>_. wpE (assembleSession js r ctx u parts destBlobID) P E) v"
    if "files v = files w" "\<And>v'. same_files_except (\<lambda>q. q = ?c) w v' \<Longrightarrow>
        wpE (assembleSession js r ctx u parts destBlobID) P E v'" for v P E
    unfolding removeCompletedMultipartMeta_def wp
    using that by (intro Remove_wp) (auto simp: wp same_files_except_def)
  note same = blobs_files [where v' = w and r = r]
  have again: "wpE (assembleSession js r ctx u parts destBlobID)
      (\<lambda>m w'. R m w' \<or> ?Q m w') (\<lambda>e w'. whole_or_absent r w u parts i w') v"
    if "same_files_except (\<lambda>q. q = ?c) w v" for v R
    by (rule wpE_mono [OF session [OF that]]) auto
  show ?thesis
    unfolding AssembleParts_def readCompletedMultipartMeta_def blobExists_def wp
  proof (rule ctxErr_wp, rule ReadFile_wp, goal_cases)
    case (1 w1 d w2)
    show ?case
    proof (cases "unmarshal_blobmeta js d")
      case (Inl e)
      with 1 show ?thesis
        by (auto simp: wp intro!: retry session again intro: same_files_eq)
    next
      case (Inr m)
      have f: "files w2 = files w" "files w ?c = Some d" using 1 by simp_all
      show ?thesis
        unfolding Inr sum.case wp
      proof (rule Stat_wp, goal_cases)
        case (1 d' w3)
        then show ?case using f Inr same [of w3] by (simp add: wp)
      next
        case (2 w3)
        then show ?case using f by (simp add: wp) (rule retry, simp, rule again)
      next
        case (3 e w3)
        then show ?case
          using f same [of w3]
          by (cases "e = ENOENT") (simp_all add: wp whole_or_absent_same, rule retry, simp, rule again)
      qed
    qed
  next
    case (2 w1 e w2)
    then show ?case
      by (auto simp: wp intro!: retry session again intro: same_files_eq)
  qed (auto intro!: whole_or_absent_same same)
qed

section \<open>Sessions and parts leave the blobs alone\<close>

lemma StorePart_wp:
  assumes "blob_id_ok u"
  shows "wpE (StorePart r ctx u n rd)
    (\<lambda>sum w'. sum = md5Hex (reads_data rd) \<and> reads_error rd = None \<and>
       files w' (multipartPartPath r u n) = Some (reads_data rd) \<and>
       same_files_except (\<lambda>q. q = multipartPartPath r u n \<or> temp_of (multipartPartPath r u n) q) w w')
    (\<lambda>e w'. same_files_except (temp_of (multipartPartPath r u n)) w w') w"
proof -
  have "multipartPartPath r u n \<noteq> []" using assms by (simp add: partPath_ok)
  then show ?thesis
    unfolding StorePart_def multipartSessionExists_def wp
    by (intro ctxErr_wp Stat_wp)
      (auto simp: wp same_files_except_def intro!: wpE_mono [OF writeAtomically_wp])
qed

lemma StorePart_blobs:
  assumes "repo_ok r" "blob_id_ok u"
  shows "wpE (StorePart r ctx u n rd) (\<lambda>_ w'. blobs r w' = blobs r w) (\<lambda>_ w'. blobs r w' = blobs r w) w"
proof -
  have "staged r (multipartPartPath r u n)"
    "temp_of (multipartPartPath r u n) q \<Longrightarrow> staged r q" for q
    using assms(2) staged_temp by (auto simp: partPath_ok)
  then show ?thesis
    by (intro wpE_mono [OF StorePart_wp [OF assms(2)]])
      (auto intro!: staged_blobs [OF assms(1)] elim: same_files_mono)
qed

lemma CreateMultipartSession_wp:
  assumes "blob_id_ok u"
  shows "wpE (CreateMultipartSession js r ctx u n ct)
    (\<lambda>_ w'. same_files_except (\<lambda>q. q = multipartMetaPath r u) w w' \<and>
       (\<exists>d. marshal_session js \<lparr>ExpectedParts = n, SessionContentType = ct, SessionBlobID = u\<rparr> = Inr d \<and>
            files w' (multipartMetaPath r u) = Some d))
    (\<lambda>_ w'. same_files_except (\<lambda>q. q = multipartMetaPath r u) w w') w"
  unfolding CreateMultipartSession_def os_WriteFile_def blobIDForUpload_def wp
proof (rule ctxErr_wp, rule MkdirAll_wp, goal_cases)
  case (1 w1 w2)
  then show ?case
    by (auto split: sum.splits simp: same_files_eq same_files_except_def files_def create_file_at
        intro!: wpE_sys_update Write_wp [unfolded files_def] file_Op_wp [unfolded files_def])
qed (auto simp: same_files_eq)

end
