(* ===== verification/Storage_Live.thy ===== *)
theory Storage_Live
  imports Storage_Spec
begin

text \<open>
  The storage repository in a calm world, where no call fails by itself: each operation then
  succeeds, under conditions on the file tree that say what the layout of the service provides.
\<close>

section \<open>Atomic writes\<close>

lemma wpE_seq:
  assumes "wpE m Q (\<lambda>_ _. False) w" "\<And>x w'. Q x w' \<Longrightarrow> Q' x w'"
  shows "wpE m Q' E w"
  using assms by (auto elim: wpE_mono)

lemma calm_step: "calm w \<Longrightarrow> same_env w w' \<Longrightarrow> calm w'"
  by (simp add: calm_same_env)

lemma calm_contextReader:
  assumes "ctx_done c = None"
    and "\<And>w'. same_env w w' \<Longrightarrow> files w' = files w \<Longrightarrow> is_dir w' = is_dir w \<Longrightarrow> Q rd w'"
  shows "wpE (contextReader_Read c rd) Q E w"
proof -
  have "ctx_Err c t = None" for t by (simp add: ctx_Err_def assms(1))
  then show ?thesis
    using assms(2) by (cases rd) (auto simp: contextReader_Read_def wp wpE_ctxErr same_env_def
        split: option.splits)
qed

text \<open>The rest of a run starts from an equally calm world.\<close>

definition next_world :: "fs_world \<Rightarrow> (path \<Rightarrow> bytes option) \<Rightarrow> (path \<Rightarrow> bool) \<Rightarrow> fs_world \<Rightarrow> bool" where
  "next_world w F D w' = (same_env w w' \<and> files w' = F \<and> is_dir w' = D)"

lemma calm_io_Copy:
  assumes "calm w" "ctx_done c = None" "files w dst = Some d" "reads_error rd = None"
  shows "wpE (io_Copy rd c dst acc)
    (\<lambda>n w'. n = acc @ reads_data rd \<and> next_world w ((files w)(dst \<mapsto> d @ reads_data rd)) (is_dir w) w')
    (\<lambda>_ _. False) w"
  using assms
proof (induction rd arbitrary: acc d w)
  case Nil
  then show ?case
    by (auto simp: wp next_world_def fun_upd_idem intro!: calm_contextReader)
next
  case (Cons r rd)
  obtain bs oe where r: "r = (bs, oe)" by (cases r)
  show ?case
    unfolding io_Copy.simps wpE_bindE
  proof (rule calm_contextReader [OF Cons.prems(2)], goal_cases)
    case (1 w1)
    have step: "wpE (if bs = [] then returnE () else file_Write dst bs) Q E w1"
      if "\<And>w2. next_world w ((files w)(dst \<mapsto> d @ bs)) (is_dir w) w2 \<Longrightarrow> Q () w2" for Q E
      using 1 Cons.prems calm_same_env [OF 1(1)]
      by (auto simp: wp next_world_def fun_upd_idem same_env_def intro!: that calm_Write [where d = d])
    show ?case
      unfolding r prod.case wpE_bindE
    proof (rule step)
      fix w2
      assume w2: "next_world w ((files w)(dst \<mapsto> d @ bs)) (is_dir w) w2"
      show "wpE (case oe of None \<Rightarrow> io_Copy rd c dst (acc @ bs)
          | Some e \<Rightarrow> if e = EOF then returnE (acc @ bs) else throwE e)
        (\<lambda>n w'. n = acc @ reads_data ((bs, oe) # rd) \<and>
          next_world w ((files w)(dst \<mapsto> d @ reads_data ((bs, oe) # rd))) (is_dir w) w')
        (\<lambda>_ _. False) w2"
      proof (cases oe)
        case None
        have "calm w2" using w2 Cons.prems(1) calm_same_env by (auto simp: next_world_def)
        from Cons.IH [OF this Cons.prems(2), of "d @ bs" "acc @ bs"] show ?thesis
          using w2 Cons.prems(4)
          by (auto simp: None r next_world_def elim!: wpE_mono intro: same_env_trans)
      qed (use Cons.prems(4) w2 in \<open>auto simp: wp r split: if_splits\<close>)
    qed
  qed
qed

lemma calm_createAtomicTempFile:
  assumes "calm w" "\<And>q. prefix q (filepath_Dir p) \<Longrightarrow> files w q = None"
    and "\<And>t. temp_of p t \<Longrightarrow> files w t = None \<and> \<not> is_dir w t"
    and "\<And>t. temp_of p t \<Longrightarrow> \<not> prefix t (filepath_Dir p)"
  shows "wpE (createAtomicTempFile p ent)
    (\<lambda>t w'. temp_of p t \<and>
       next_world w ((files w)(t \<mapsto> [])) (\<lambda>q. is_dir w q \<or> prefix q (filepath_Dir p)) w')
    (\<lambda>_ _. False) w"
  unfolding createAtomicTempFile_def Let_def wp
proof (rule calm_MkdirAll [OF assms(1,2)], assumption, goal_cases)
  case (1 w1)
  have t: "temp_of p (filepath_Dir p @ [(filepath_Base p @ ''.'') @ x @ ''.tmp''])" for x
    by (auto simp: temp_of_def)
  have c1: "calm w1" using calm_same_env 1(1) assms(1) by blast
  show ?case
  proof (rule calm_CreateTemp [OF c1], goal_cases)
    case (4 x w2)
    then have "calm w2" using c1 calm_same_env by blast
    then show ?case
      using 1 4 t [of x] by (intro calm_file_Op) (auto simp: next_world_def intro: same_env_trans)
  qed (use 1 t assms in auto)
qed

lemma calm_writeAtomically:
  assumes w: "calm w" "ctx_done c = None" "reads_error rd = None" "p \<noteq> []"
    and dirs: "\<And>q. prefix q (filepath_Dir p) \<Longrightarrow> files w q = None" "\<not> is_dir w p"
    and temps: "\<And>t. temp_of p t \<Longrightarrow> files w t = None \<and> \<not> is_dir w t"
  shows "wpE (writeAtomically c p rd ent)
    (\<lambda>res w'. res = \<lparr>checksumMD5 = md5Hex (reads_data rd), sizeBytes = int (length (reads_data rd))\<rparr> \<and>
       next_world w ((files w)(p \<mapsto> reads_data rd)) (\<lambda>q. is_dir w q \<or> prefix q (filepath_Dir p)) w')
    (\<lambda>_ _. False) w"
proof -
  have up: "\<not> prefix t (filepath_Dir p)" if "temp_of p t" for t
    using that by (auto simp: temp_of_def)
  have p: "\<not> prefix p (filepath_Dir p)"
    using w(4) by (metis append_butlast_last_id filepath_Dir_def not_Cons_self2 prefix_snocD strict_prefix_def prefix_order.dual_order.antisym)
  show ?thesis
    unfolding writeAtomically_def wp
  proof (rule wpE_mono [OF calm_createAtomicTempFile [OF w(1) dirs(1) temps up]], assumption+, goal_cases)
    case (1 t w1)
    then have t: "temp_of p t" "t \<noteq> p" and c1: "calm w1"
      using temp_of_self [OF w(4)] calm_same_env w(1) by (auto simp: next_world_def)
    show ?case
    proof (rule wpE_mono [OF calm_io_Copy [OF c1 w(2) _ w(3), where d = "[]"]], goal_cases)
      case (2 n w2)
      then have c2: "calm w2" using c1 calm_same_env by (auto simp: next_world_def)
      have f2: "files w2 = (files w)(t \<mapsto> reads_data rd)"
        and d2: "is_dir w2 = (\<lambda>q. is_dir w q \<or> prefix q (filepath_Dir p))" and n: "n = reads_data rd"
        and e2: "same_env w w2"
        using 1 2 by (auto simp: next_world_def intro: same_env_trans)
      have f: "(files w)(t := None, p \<mapsto> reads_data rd) = (files w)(p \<mapsto> reads_data rd)"
        using temps [OF t(1)] by auto
      show ?case
      proof (rule calm_file_Op [OF c2], rule calm_file_Op, goal_cases)
        case (2 w3 w4)
        then have "calm w4" using c2 calm_same_env by blast
        then show ?case
          using 2 f2 d2 dirs(2) p e2
          by (intro calm_Rename [where d = "reads_data rd"])
            (auto simp: next_world_def n f filepath_Dir_def intro: same_env_trans)
      qed (use c2 calm_same_env in blast)
    qed (use 1 in \<open>auto simp: next_world_def\<close>)
  qed simp
qed


section \<open>Storing and reading a blob\<close>

text \<open>
  What the layout provides before a blob with a new id is stored: no file in the way of the
  shard or the staging directory, and nothing yet under the id's own staging directory.
\<close>

definition store_ready :: "repo \<Rightarrow> fs_world \<Rightarrow> string \<Rightarrow> bool" where
  "store_ready r w i =
    ((\<forall>q. prefix q (dataDir r @ [blobShard i]) \<longrightarrow> files w q = None) \<and>
     (\<forall>q. prefix q (multipartDir r @ [stagingUploadsDirname, i]) \<longrightarrow> files w q = None) \<and>
     (\<forall>q. strict_prefix (multipartDir r @ [stagingUploadsDirname, i]) q \<longrightarrow> files w q = None \<and> \<not> is_dir w q) \<and>
     \<not> is_dir w (blobPath r i))"

lemma calm_ensureDirReady:
  assumes "calm w" "\<And>q. prefix q p \<Longrightarrow> files w q = None"
    and "\<And>w'. next_world w (files w) (\<lambda>q. is_dir w q \<or> prefix q p) w' \<Longrightarrow> Q () w'"
  shows "wpE (ensureDirReady p) Q E w"
  unfolding ensureDirReady_def ensureWritableDiskSpace_def wp split_def
proof (rule calm_MkdirAll [OF assms(1,2)], assumption, rule calm_Statfs, goal_cases)
  case (1 w1) then show ?case using assms(1) calm_same_env by blast
next
  case (2 w1) then show ?case by simp
next
  case (3 w1 a b w2)
  then show ?case by (auto simp: next_world_def fun_eq_iff intro!: assms(3) intro: same_env_trans)
qed

lemma staging_temp:
  assumes "temp_of (multipartDir r @ [stagingUploadsDirname, i, f]) t"
  shows "strict_prefix (multipartDir r @ [stagingUploadsDirname, i]) t"
    "t \<noteq> multipartDir r @ [stagingUploadsDirname, i, f]"
  using assms by (auto simp: temp_of_def filepath_Dir_def filepath_Base_def butlast_append strict_prefix_def)

text \<open>A file inside the staging directory of an upload, written while the upload is new.\<close>

lemma calm_writeStaged:
  assumes "calm w" "ctx_done c = None" "reads_error rd = None"
    and "\<And>q. prefix q (multipartDir r @ [stagingUploadsDirname, i]) \<Longrightarrow> files w q = None"
    and "\<And>q. strict_prefix (multipartDir r @ [stagingUploadsDirname, i]) q \<Longrightarrow> \<not> is_dir w q"
    and "\<And>t. temp_of (multipartDir r @ [stagingUploadsDirname, i, f]) t \<Longrightarrow> files w t = None"
  shows "wpE (writeAtomically c (multipartDir r @ [stagingUploadsDirname, i, f]) rd ent)
    (\<lambda>res w'. res = \<lparr>checksumMD5 = md5Hex (reads_data rd), sizeBytes = int (length (reads_data rd))\<rparr> \<and>
       next_world w ((files w)(multipartDir r @ [stagingUploadsDirname, i, f] \<mapsto> reads_data rd))
         (\<lambda>q. is_dir w q \<or> prefix q (multipartDir r @ [stagingUploadsDirname, i])) w')
    (\<lambda>_ _. False) w"
proof -
  have d: "filepath_Dir (multipartDir r @ [stagingUploadsDirname, i, f]) = multipartDir r @ [stagingUploadsDirname, i]"
    by (simp add: filepath_Dir_def butlast_append)
  have "\<not> is_dir w t" if "temp_of (multipartDir r @ [stagingUploadsDirname, i, f]) t" for t
    using staging_temp(1) [OF that] assms(5) by blast
  moreover have "\<not> is_dir w (multipartDir r @ [stagingUploadsDirname, i, f])"
    by (rule assms(5)) (simp add: strict_prefix_def)
  ultimately show ?thesis
    by (intro calm_writeAtomically [of w c rd "multipartDir r @ [stagingUploadsDirname, i, f]", unfolded d])
      (simp_all add: assms)
qed

text \<open>
  In a calm world a blob whose reader ends cleanly is stored, and the world stays as calm as it
  was: \<open>StoreBlob\<close> returns the metadata of what the reader delivered.
\<close>

lemma calm_StoreBlob:
  assumes "repo_ok r" "blob_id_ok i" "calm w" "ctx_done c = None" "reads_error rd = None"
    and "marshal_manifest js i ''staged'' = Inr m" "store_ready r w i"
  shows "wpE (StoreBlob js r c i rd)
    (\<lambda>res w'. calm w' \<and> files w' (blobPath r i) = Some (reads_data rd) \<and>
       res = \<lparr>BlobID = i, ChecksumMD5 = md5Hex (reads_data rd),
              SizeBytes = int (length (reads_data rd)), ContentType = []\<rparr>)
    (\<lambda>_ _. False) w"
proof -
  let ?up = "multipartDir r @ [stagingUploadsDirname, i]"
  let ?obj = "multipartDir r @ [stagingUploadsDirname, i, stagingObjectFilename]"
  let ?man = "multipartDir r @ [stagingUploadsDirname, i, stagingManifestFilename]"
  have shard: "\<And>q. prefix q (dataDir r @ [blobShard i]) \<Longrightarrow> files w q = None"
    and up: "\<And>q. prefix q ?up \<Longrightarrow> files w q = None"
    and new: "\<And>q. strict_prefix ?up q \<Longrightarrow> files w q = None \<and> \<not> is_dir w q"
    and nodir: "\<not> is_dir w (blobPath r i)"
    using assms(7) by (auto simp: store_ready_def)
  have root: "\<And>q. prefix q (dataDir r) \<Longrightarrow> files w q = None"
    using shard by (meson prefix_prefix)
  have temp_obj: "files w t = None \<and> t \<noteq> ?man" if "temp_of ?obj t" for t
    using new [OF staging_temp(1) [OF that]] that
    by (auto simp: temp_of_def filepath_Dir_def filepath_Base_def butlast_append
        stagingObjectFilename_def stagingManifestFilename_def)
  have temp_man: "files w t = None" if "temp_of ?man t" for t
    using new [OF staging_temp(1) [OF that]] by simp
  have sub: "strict_prefix ?up ?man" "strict_prefix ?up ?obj" by (simp_all add: strict_prefix_def)
  have above: "\<not> prefix ?man q \<and> \<not> prefix ?obj q" if "prefix q ?up" for q
    using prefix_length_le [OF that] by (auto dest!: prefix_length_le)
  show ?thesis
    unfolding StoreBlob_def writeSinglePartManifest_def wp storage_paths [OF assms(2)]
      Join_Cons_plain [OF plain_constants(3)] Join_Nil append.assoc append.simps assms(6) sum.case
      blobsRootPath_def
  proof (rule calm_ctxErr [OF assms(4)], rule calm_ensureDirReady, goal_cases)
    case (3 w1 w2)
    then have w2: "calm w2" "files w2 = files w" "is_dir w2 = (\<lambda>q. is_dir w q \<or> prefix q (dataDir r))"
      using assms(3) by (auto simp: next_world_def intro: calm_step)
    show ?case
    proof (rule calm_ensureDirReady [OF w2(1)], goal_cases)
      case (2 w3)
      then have w3: "calm w3" "files w3 = files w"
        "is_dir w3 = (\<lambda>q. is_dir w q \<or> prefix q (dataDir r) \<or> prefix q ?up)"
        using w2 by (auto simp: next_world_def intro: calm_step)
      have nd: "\<not> is_dir w3 q" if "strict_prefix ?up q" for q
      proof -
        have "\<not> prefix q (dataDir r)"
          using that assms(1) by (auto simp: repo_ok_def strict_prefix_def prefix_def)
        then show ?thesis
          using that new w3(3) by (auto simp: strict_prefix_def dest: prefix_order.antisym)
      qed
      show ?case
      proof (rule wpE_seq [OF calm_writeStaged], goal_cases)
        case (7 res w4)
        then have w4: "calm w4" "files w4 = (files w)(?man \<mapsto> m)" "is_dir w4 = is_dir w3"
          using w3 by (auto simp: next_world_def intro: calm_step)
        show ?case
        proof (rule wpE_seq [OF calm_writeStaged], goal_cases)
          case (7 res w5)
          then have w5: "calm w5" "files w5 = (files w)(?man \<mapsto> m, ?obj \<mapsto> reads_data rd)" "is_dir w5 = is_dir w3"
            using w4 w3 by (auto simp: next_world_def intro: calm_step)
          have data: "files w5 q = files w q" if "prefix q (dataDir r @ z)" for q z
          proof -
            have "q \<noteq> multipartDir r @ y" for y
              using that outside_data [OF assms(1)] by (metis append_assoc prefix_def)
            then show ?thesis by (simp add: w5(2))
          qed
          have sd: "filepath_Dir (dataDir r @ [blobShard i, i]) = dataDir r @ [blobShard i]"
            by (simp add: filepath_Dir_def butlast_append)
          have nb: "\<not> is_dir w5 (blobPath r i)"
            using nodir assms(2) outside_data [OF assms(1), symmetric]
            by (auto simp: w5(3) w3(3) blobPath_ok prefix_def)
          show ?case
            unfolding sd
          proof (rule calm_ensureDirReady [OF w5(1)], goal_cases)
            case (1 q)
            then show ?case using data [OF 1] shard [OF 1] by simp
          next
            case (2 w6)
            then have w6: "calm w6" "files w6 = files w5"
              "is_dir w6 = (\<lambda>q. is_dir w5 q \<or> prefix q (dataDir r @ [blobShard i]))"
              using w5 by (auto simp: next_world_def intro: calm_step)
            show ?case
            proof (rule calm_Rename [OF w6(1), where d = "reads_data rd"], goal_cases)
              case (4 w7)
              then have c7: "calm w7" using w6(1) calm_step by blast
              have "\<not> prefix ?up (dataDir r @ [blobShard i, i])"
                using outside_data [OF assms(1)] by (auto simp: prefix_def)
              then show ?case
                unfolding cleanupSinglePartStagingBestEffort_def wp uploadPath_ok(1) [OF assms(2)]
                using 4 7 c7
                by (intro calm_RemoveAll [OF c7]) (auto intro: calm_step)
            qed (use w6 w5 nb assms(2) in \<open>auto simp: blobPath_ok butlast_append\<close>)
          qed
        qed (use w4 assms up new nd above temp_obj in \<open>auto\<close>)
      qed (use w3 up new nd temp_man in \<open>auto simp: Background_def\<close>)
    qed (simp add: w2 up)
  qed (use assms(3) root in \<open>auto intro: calm_step\<close>)
qed

end
