(* ===== verification/Storage_Service.thy ===== *)
theory Storage_Service
  imports Storage_Multipart Storage_Live
begin

text \<open>
  The service layer of the storage service, \<open>services/storage/internal/service/storage\<close>, and
  its metric counters. The id a call of \<open>uuid.New()\<close> returns is an argument of the operations
  that make one.
\<close>

section \<open>Metrics\<close>

definition AddReadBytes :: "int \<Rightarrow> unit fsop" where
  "AddReadBytes n = modifyE (\<lambda>w. case readBytes w of
     None \<Rightarrow> w | Some c \<Rightarrow> if n \<le> 0 then w else w\<lparr>readBytes := Some (c + n)\<rparr>)"

definition AddWriteBytes :: "int \<Rightarrow> unit fsop" where
  "AddWriteBytes n = modifyE (\<lambda>w. case writeBytes w of
     None \<Rightarrow> w | Some c \<Rightarrow> if n \<le> 0 then w else w\<lparr>writeBytes := Some (c + n)\<rparr>)"

lemma AddBytes_wp [fs_wp]:
  assumes "\<And>w'. files w' = files w \<Longrightarrow> is_dir w' = is_dir w \<Longrightarrow> same_env w w' \<Longrightarrow> Q () w'"
  shows "wpE (AddReadBytes n) Q E w" "wpE (AddWriteBytes n) Q E w"
  by (auto simp: AddReadBytes_def AddWriteBytes_def wp is_dir_def same_env_def split: option.splits intro!: assms)

section \<open>Operations\<close>

definition defaultContentType :: string where
  "defaultContentType = ''application/octet-stream''"

definition StoreObject :: "json_codec \<Rightarrow> repo \<Rightarrow> string \<Rightarrow> ctx \<Rightarrow> reads \<Rightarrow> int option \<Rightarrow> string \<Rightarrow> BlobMeta fsop" where
  "StoreObject js r uuid ctx reader sz contentType =
    (if (case sz of Some n \<Rightarrow> n < 0 | None \<Rightarrow> False) then throwE ErrInvalidBlobSize
     else
     let contentType' = (if contentType = [] then defaultContentType else contentType);
         blobID = uuid in
     bindE (StoreBlob js r ctx blobID reader) (\<lambda>meta.
     if (case sz of Some n \<Rightarrow> SizeBytes meta \<noteq> n | None \<Rightarrow> False) then
       bindE (ignoreE (DeleteBlob r ctx (BlobID meta))) (\<lambda>_.
       throwE ErrInvalidBlobSize)
     else
       let meta' = meta\<lparr>ContentType := contentType'\<rparr> in
       bindE (AddWriteBytes (SizeBytes meta')) (\<lambda>_.
       returnE meta')))"

record normalizedRange =
  rangeOffset :: int
  rangeLength :: int
  full :: bool

definition normalizeRange :: "int \<Rightarrow> int \<Rightarrow> normalizedRange" where
  "normalizeRange off len =
    (let off' = (if off < 0 then 0 else off) in
     if off' = 0 \<and> len = 0 then \<lparr>rangeOffset = 0, rangeLength = 0, full = True\<rparr>
     else
     let len' = (if len < 0 then 0 else len) in
     if len' = 0 then \<lparr>rangeOffset = off', rangeLength = maxInt64, full = False\<rparr>
     else \<lparr>rangeOffset = off', rangeLength = len', full = False\<rparr>)"

definition RetrieveObject :: "repo \<Rightarrow> ctx \<Rightarrow> string \<Rightarrow> int \<Rightarrow> int \<Rightarrow> (blob_reader \<times> int) fsop" where
  "RetrieveObject r ctx blobID off len =
    (let normalized = normalizeRange off len in
     if full normalized then RetrieveBlob r ctx blobID
     else RetrieveBlobRange r ctx blobID (rangeOffset normalized) (rangeLength normalized))"

definition DeleteObject :: "repo \<Rightarrow> ctx \<Rightarrow> string \<Rightarrow> unit fsop" where
  "DeleteObject r ctx blobID = DeleteBlob r ctx blobID"

definition HealthCheck :: "repo \<Rightarrow> ctx \<Rightarrow> bool fsop" where
  "HealthCheck r ctx = bindE (repo_HealthCheck r ctx) (\<lambda>_. returnE True)"

definition InitiateMultipartUpload :: "json_codec \<Rightarrow> repo \<Rightarrow> string \<Rightarrow> ctx \<Rightarrow> int \<Rightarrow> string \<Rightarrow> string fsop" where
  "InitiateMultipartUpload js r uuid ctx expectedParts contentType =
    (if expectedParts < 0 then throwE ErrInvalidParts
     else
     let contentType' = (if contentType = [] then defaultContentType else contentType);
         uploadID = uuid in
     bindE (CreateMultipartSession js r ctx uploadID expectedParts contentType') (\<lambda>_.
     returnE uploadID))"

definition UploadPart :: "repo \<Rightarrow> ctx \<Rightarrow> string \<Rightarrow> int \<Rightarrow> reads \<Rightarrow> string fsop" where
  "UploadPart r ctx uploadID partNumber reader =
    (if partNumber < 1 then throwE ErrInvalidPartNumber
     else StorePart r ctx uploadID partNumber reader)"

text \<open>The loop of \<open>validateCompletedParts\<close>; \<open>previous\<close> is none at the first part.\<close>

fun validatePartsLoop :: "int option \<Rightarrow> PartInfo list \<Rightarrow> go_error option" where
  "validatePartsLoop previous [] = None"
| "validatePartsLoop previous (part # parts) =
    (if PartNumber part < 1 then Some ErrInvalidPartNumber
     else if PartChecksumMD5 part = [] then Some ErrChecksumMismatch
     else if (case previous of Some p \<Rightarrow> PartNumber part \<le> p | None \<Rightarrow> False) then Some ErrInvalidParts
     else validatePartsLoop (Some (PartNumber part)) parts)"

definition validateCompletedParts :: "PartInfo list \<Rightarrow> go_error option" where
  "validateCompletedParts parts =
    (if parts = [] then Some ErrInvalidParts else validatePartsLoop None parts)"

definition CompleteMultipartUpload :: "json_codec \<Rightarrow> repo \<Rightarrow> ctx \<Rightarrow> string \<Rightarrow> PartInfo list \<Rightarrow> BlobMeta fsop" where
  "CompleteMultipartUpload js r ctx uploadID parts =
    (case validateCompletedParts parts of
       Some err \<Rightarrow> throwE err
     | None \<Rightarrow>
        bindE (AssembleParts js r ctx uploadID parts uploadID) (\<lambda>meta.
        bindE (AddWriteBytes (SizeBytes meta)) (\<lambda>_.
        returnE meta)))"

definition AbortMultipartUpload :: "repo \<Rightarrow> ctx \<Rightarrow> string \<Rightarrow> unit fsop" where
  "AbortMultipartUpload r ctx uploadID = CleanupMultipart r ctx uploadID"

section \<open>What the operations promise\<close>

lemma StoreObject_wp:
  assumes "repo_ok r" "blob_id_ok uuid"
  shows "wpE (StoreObject js r uuid ctx rd sz ct)
    (\<lambda>m w'. reads_error rd = None \<and> sz \<in> {None, Some (int (length (reads_data rd)))} \<and>
       blobs r w' = (blobs r w)(uuid \<mapsto> reads_data rd) \<and>
       m = \<lparr>BlobID = uuid, ChecksumMD5 = md5Hex (reads_data rd), SizeBytes = int (length (reads_data rd)),
            ContentType = (if ct = [] then defaultContentType else ct)\<rparr>)
    (\<lambda>e w'. \<exists>x. blobs r w' = (blobs r w)(uuid := x) \<and> (blobs r w uuid = None \<longrightarrow> x \<in> {None, Some (reads_data rd)})) w"
proof -
  have self: "\<exists>x. blobs r v = (blobs r w)(uuid := x) \<and> (blobs r w uuid = None \<longrightarrow> x \<in> {None, Some (reads_data rd)})"
    if "blobs r v = blobs r w" for v
    using that by (intro exI [of _ "blobs r w uuid"]) auto
  show ?thesis
  proof (cases "case sz of Some n \<Rightarrow> n < 0 | None \<Rightarrow> False")
    case True
    then show ?thesis using self [of w] by (simp add: StoreObject_def wp)
  next
    case False
    show ?thesis
      unfolding StoreObject_def Let_def wp if_not_P [OF False]
    proof (rule wpE_mono [OF StoreBlob_wp [OF assms]], goal_cases)
      case (1 m w1)
      show ?case
      proof (cases "case sz of Some n \<Rightarrow> SizeBytes m \<noteq> n | None \<Rightarrow> False")
        case True
        with 1 show ?thesis
          by (simp, intro wpE_mono [OF DeleteBlob_wp [OF assms]])
            (auto intro: exI [of _ "Some (reads_data rd)"] exI [of _ None])
      next
        case False
        with 1 show ?thesis
          by (simp, intro AddBytes_wp) (auto dest: blobs_files [where r = r] split: option.splits)
      qed
    qed (rule self)
  qed
qed

lemma normalizeRange_cases:
  "full (normalizeRange off len) \<longleftrightarrow> off \<le> 0 \<and> len = 0"
  "\<not> full (normalizeRange off len) \<Longrightarrow> rangeOffset (normalizeRange off len) = max 0 off"
  "\<not> full (normalizeRange off len) \<Longrightarrow>
     rangeLength (normalizeRange off len) = (if len \<le> 0 then maxInt64 else len)"
  by (auto simp: normalizeRange_def Let_def max_def)

lemma RetrieveObject_wp:
  assumes "blob_id_ok i" "\<not> is_dir w (blobPath r i)"
    and "\<And>d. blobs r w i = Some d \<Longrightarrow> int (length d) \<le> maxInt64"
  shows "wpE (RetrieveObject r ctx i off len)
    (\<lambda>(b, size) w'. \<exists>d. blobs r w i = Some d \<and> size = int (length d) \<and> blobs r w' = blobs r w \<and> 0 \<le> offset b \<and>
       reader_data b = (let rest = drop (nat off) d in if len \<le> 0 then rest else take (nat len) rest))
    (\<lambda>e w'. blobs r w' = blobs r w \<and> (e = ErrBlobNotFound \<longrightarrow> blobs r w i = None)) w"
proof (cases "full (normalizeRange off len)")
  case True
  then have "RetrieveObject r ctx i off len = RetrieveBlob r ctx i"
    by (simp add: RetrieveObject_def)
  with True assms show ?thesis
    by (auto simp: normalizeRange_cases Let_def intro!: wpE_mono [OF RetrieveBlob_wp])
next
  case False
  then have "RetrieveObject r ctx i off len =
      RetrieveBlobRange r ctx i (max 0 off) (if len \<le> 0 then maxInt64 else len)"
    using normalizeRange_cases(2,3) [OF False] by (simp add: RetrieveObject_def Let_def)
  moreover have "nat (max 0 off) = nat off" by simp
  ultimately show ?thesis
    using assms
    by (auto simp: Let_def intro!: wpE_mono [OF RetrieveBlobRange_wp])
qed


lemma validatePartsLoop_None:
  "validatePartsLoop prev parts = None \<longleftrightarrow>
     (\<forall>p\<in>set parts. 1 \<le> PartNumber p \<and> PartChecksumMD5 p \<noteq> []) \<and>
     sorted_wrt (<) ((case prev of None \<Rightarrow> [] | Some k \<Rightarrow> [k]) @ map PartNumber parts)"
proof (induction prev parts rule: validatePartsLoop.induct)
  case (2 prev part parts)
  show ?case
  proof (cases "PartNumber part < 1 \<or> PartChecksumMD5 part = [] \<or>
      (case prev of Some p \<Rightarrow> PartNumber part \<le> p | None \<Rightarrow> False)")
    case False
    with 2 have "validatePartsLoop prev (part # parts) = validatePartsLoop (Some (PartNumber part)) parts"
      "(validatePartsLoop (Some (PartNumber part)) parts = None) =
         ((\<forall>p\<in>set parts. 1 \<le> PartNumber p \<and> PartChecksumMD5 p \<noteq> []) \<and>
          sorted_wrt (<) (PartNumber part # map PartNumber parts))"
      by auto
    with False show ?thesis by (cases prev) (auto simp: not_le intro: less_trans)
  qed (cases prev; auto)
qed (simp split: option.splits)

lemma validateCompletedParts_None:
  "validateCompletedParts parts = None \<longleftrightarrow>
     parts \<noteq> [] \<and> (\<forall>p\<in>set parts. 1 \<le> PartNumber p \<and> PartChecksumMD5 p \<noteq> []) \<and>
     sorted_wrt (<) (map PartNumber parts)"
  by (auto simp: validateCompletedParts_def validatePartsLoop_None)

lemma CompleteMultipartUpload_wp:
  assumes "repo_ok r" "blob_id_ok u" "session_dest js r w u u u"
  shows "wpE (CompleteMultipartUpload js r ctx u parts)
    (\<lambda>m w'. validateCompletedParts parts = None \<and>
       ((\<exists>d. files w (completedMultipartMetaPath r u) = Some d \<and> unmarshal_blobmeta js d = Inr m \<and>
            files w (blobPath r (BlobID m)) \<noteq> None \<and> blobs r w' = blobs r w)
       \<or> (\<exists>ds. list_all2 (part_matches r w u) parts ds \<and>
            blobs r w' = (blobs r w)(u \<mapsto> concat ds) \<and> BlobID m = u \<and>
            ChecksumMD5 m = md5Hex (concat ds) \<and> SizeBytes m = int (length (concat ds)))))
    (\<lambda>e w'. whole_or_absent r w u parts u w') w"
proof (cases "validateCompletedParts parts")
  case None
  show ?thesis
    unfolding CompleteMultipartUpload_def None option.case wp
  proof (rule wpE_mono [OF AssembleParts_wp [OF assms(1,2,2,3)]], goal_cases)
    case (1 m w1)
    then show ?case by (intro AddBytes_wp) (drule blobs_files [where r = r], simp only: None simp_thms)
  qed simp
next
  case (Some e)
  then show ?thesis by (simp add: CompleteMultipartUpload_def wp whole_or_absent_same)
qed

end
