(* ===== verification/Blob_Contract.thy ===== *)
theory Blob_Contract
  imports Go_OS
begin

text \<open>
  The contract of a blob store, as the interface \<open>StorageRepository\<close> offers it to its clients:
  an abstract state machine over a map from ids to contents, and a locale that says when an
  implementation on some world keeps the contract. Its client lemma is a simulation: every
  history of calls on the implementation is a history of the abstract machine.
\<close>

section \<open>The abstract machine\<close>

datatype blob_call = Put string reads | Get string | Del string

datatype blob_outcome = Stored | Got bytes | Deleted | Missing | Failed

type_synonym blob_map = "string \<Rightarrow> bytes option"

text \<open>
  A call that fails has no effect, except that a failed delete may have removed the blob. A put
  stores what its reader delivered, and only if the reader ended cleanly.
\<close>

inductive spec_step :: "blob_map \<Rightarrow> blob_call \<Rightarrow> blob_outcome \<Rightarrow> blob_map \<Rightarrow> bool" where
  put_ok: "reads_error rd = None \<Longrightarrow> spec_step m (Put i rd) Stored (m(i \<mapsto> reads_data rd))"
| put_failed: "spec_step m (Put i rd) Failed m"
| get_ok: "m i = Some d \<Longrightarrow> spec_step m (Get i) (Got d) m"
| get_missing: "m i = None \<Longrightarrow> spec_step m (Get i) Missing m"
| get_failed: "spec_step m (Get i) Failed m"
| del_ok: "spec_step m (Del i) Deleted (m(i := None))"
| del_failed: "spec_step m (Del i) Failed m"
| del_failed_late: "spec_step m (Del i) Failed (m(i := None))"

inductive spec_run :: "blob_map \<Rightarrow> (blob_call \<times> blob_outcome) list \<Rightarrow> blob_map \<Rightarrow> bool" where
  run_nil: "spec_run m [] m"
| run_cons: "spec_step m c out m' \<Longrightarrow> spec_run m' h m'' \<Longrightarrow> spec_run m ((c, out) # h) m''"

inductive_cases spec_run_ConsE: "spec_run m (x # h) m'"
inductive_cases spec_run_NilE: "spec_run m [] m'"
inductive_simps spec_step_Put: "spec_step m (Put i rd) out m'"
inductive_simps spec_step_Get: "spec_step m (Get i) out m'"
inductive_simps spec_step_Del: "spec_step m (Del i) out m'"

fun call_id :: "blob_call \<Rightarrow> string" where
  "call_id (Put i rd) = i"
| "call_id (Get i) = i"
| "call_id (Del i) = i"

text \<open>A call changes nothing but its own id, and every content is one that was put.\<close>

lemma spec_step_other: "spec_step m c out m' \<Longrightarrow> j \<noteq> call_id c \<Longrightarrow> m' j = m j"
  by (induction rule: spec_step.induct) auto

lemma spec_run_content:
  assumes "spec_run m h m'" "m' i = Some d"
  shows "m i = Some d \<or> (\<exists>rd. (Put i rd, Stored) \<in> set h \<and> reads_data rd = d \<and> reads_error rd = None)"
  using assms
proof (induction arbitrary: d rule: spec_run.induct)
  case (run_cons m c out m' h m'')
  from run_cons.hyps(1) show ?case
    using run_cons.IH [OF run_cons.prems]
    by (cases rule: spec_step.cases) (auto split: if_splits)
qed simp

section \<open>Implementations\<close>

text \<open>Running one call, and a list of calls, on an implementation given by its operations.\<close>

record ('w, 'm, 'b) blob_ops =
  op_store :: "string \<Rightarrow> reads \<Rightarrow> ('w, go_error, 'm) op"
  op_retrieve :: "string \<Rightarrow> ('w, go_error, 'b) op"
  op_delete :: "string \<Rightarrow> ('w, go_error, unit) op"
  op_content :: "'b \<Rightarrow> bytes"
  op_missing :: go_error

fun run_call :: "('w, 'm, 'b) blob_ops \<Rightarrow> blob_call \<Rightarrow> 'w \<Rightarrow> blob_outcome \<times> 'w" where
  "run_call ops (Put i rd) w =
     (case op_store ops i rd w of (Inl e, w') \<Rightarrow> (Failed, w') | (Inr _, w') \<Rightarrow> (Stored, w'))"
| "run_call ops (Get i) w =
     (case op_retrieve ops i w of
        (Inl e, w') \<Rightarrow> (if e = op_missing ops then Missing else Failed, w')
      | (Inr b, w') \<Rightarrow> (Got (op_content ops b), w'))"
| "run_call ops (Del i) w =
     (case op_delete ops i w of (Inl e, w') \<Rightarrow> (Failed, w') | (Inr _, w') \<Rightarrow> (Deleted, w'))"

fun run_calls :: "('w, 'm, 'b) blob_ops \<Rightarrow> blob_call list \<Rightarrow> 'w \<Rightarrow> blob_outcome list \<times> 'w" where
  "run_calls ops [] w = ([], w)"
| "run_calls ops (c # cs) w = (case run_call ops c w of (out, w') \<Rightarrow>
     (case run_calls ops cs w' of (outs, w'') \<Rightarrow> (out # outs, w'')))"

locale blob_store =
  fixes inv :: "'w \<Rightarrow> bool" and abs :: "'w \<Rightarrow> blob_map" and ok :: "string \<Rightarrow> bool"
    and ops :: "('w, 'm, 'b) blob_ops"
  assumes store_law: "inv w \<Longrightarrow> ok i \<Longrightarrow> wpE (op_store ops i rd)
      (\<lambda>_ w'. inv w' \<and> reads_error rd = None \<and> abs w' = (abs w)(i \<mapsto> reads_data rd))
      (\<lambda>_ w'. inv w' \<and> abs w' = abs w) w"
    and retrieve_law: "inv w \<Longrightarrow> ok i \<Longrightarrow> wpE (op_retrieve ops i)
      (\<lambda>b w'. inv w' \<and> abs w i = Some (op_content ops b) \<and> abs w' = abs w)
      (\<lambda>e w'. inv w' \<and> abs w' = abs w \<and> (e = op_missing ops \<longrightarrow> abs w i = None)) w"
    and delete_law: "inv w \<Longrightarrow> ok i \<Longrightarrow> wpE (op_delete ops i)
      (\<lambda>_ w'. inv w' \<and> abs w' = (abs w)(i := None))
      (\<lambda>_ w'. inv w' \<and> (abs w' = abs w \<or> abs w' = (abs w)(i := None))) w"
begin

lemma run_call_simulates:
  assumes "inv w" "ok (call_id c)" "run_call ops c w = (out, w')"
  shows "inv w' \<and> spec_step (abs w) c out (abs w')"
proof (cases c)
  case (Put i rd)
  with assms store_law [OF assms(1), of i rd] show ?thesis
    by (auto simp: wpE_def spec_step_Put split: prod.splits sum.splits)
next
  case (Get i)
  with assms retrieve_law [OF assms(1), of i] show ?thesis
    by (auto simp: wpE_def spec_step_Get split: prod.splits sum.splits if_splits)
next
  case (Del i)
  with assms delete_law [OF assms(1), of i] show ?thesis
    by (auto simp: wpE_def spec_step_Del split: prod.splits sum.splits)
qed

lemma run_calls_simulate:
  assumes "inv w" "\<forall>c \<in> set cs. ok (call_id c)" "run_calls ops cs w = (outs, w')"
  shows "inv w' \<and> length outs = length cs \<and> spec_run (abs w) (zip cs outs) (abs w')"
  using assms
proof (induction cs arbitrary: w outs)
  case (Cons c cs)
  obtain out w1 outs' where run: "run_call ops c w = (out, w1)" "run_calls ops cs w1 = (outs', w')"
    and outs: "outs = out # outs'"
    using Cons.prems(3) by (auto split: prod.splits)
  have "inv w1 \<and> spec_step (abs w) c out (abs w1)"
    using Cons.prems run(1) by (intro run_call_simulates) auto
  with Cons.IH [OF _ _ run(2)] Cons.prems(2) show ?case
    by (auto simp: outs intro: run_cons)
qed (simp add: run_nil)

lemma run_calls_content:
  assumes "inv w" "\<forall>c \<in> set cs. ok (call_id c)" "run_calls ops cs w = (outs, w')" "abs w' i = Some d"
  shows "abs w i = Some d \<or> (\<exists>rd. (Put i rd, Stored) \<in> set (zip cs outs) \<and> reads_data rd = d \<and> reads_error rd = None)"
  using run_calls_simulate [OF assms(1-3)] assms(4) spec_run_content by blast

end

end
