(* ===== verification/Storage_Dirs.thy ===== *)
theory Storage_Dirs
  imports Storage_Service Blob_Contract
begin

text \<open>
  Which directories the storage repository makes. No operation ever turns the path of a blob
  into a directory; with this invariant the repository keeps the contract of a blob store.
\<close>

section \<open>Directories an operation may add\<close>

named_theorems dirs \<open>rules that an operation adds directories in a set only\<close>

definition dirs_within :: "(path \<Rightarrow> bool) \<Rightarrow> 'a fsop \<Rightarrow> bool" where
  "dirs_within D m = (\<forall>w q. is_dir (snd (m w)) q \<longrightarrow> is_dir w q \<or> D q)"

lemma dirs_pure [dirs]:
  "dirs_within D (returnE x)" "dirs_within D (throwE e)" "dirs_within D (liftE y)"
  by (simp_all add: dirs_within_def opE_defs)

lemma dirs_bindE [dirs]:
  assumes "dirs_within D m" "\<And>x. dirs_within D (k x)"
  shows "dirs_within D (bindE m k)"
  unfolding dirs_within_def
proof (intro allI impI)
  fix w q
  obtain res w1 where m: "m w = (res, w1)" by fastforce
  assume "is_dir (snd (bindE m k w)) q"
  then show "is_dir w q \<or> D q"
    using assms [unfolded dirs_within_def] m by (cases res) (auto simp: bindE_def, (metis snd_conv)+)
qed

lemma dirs_catchE [dirs]:
  assumes "dirs_within D m" "\<And>x. dirs_within D (h x)"
  shows "dirs_within D (catchE m h)"
  unfolding dirs_within_def
proof (intro allI impI)
  fix w q
  obtain res w1 where m: "m w = (res, w1)" by fastforce
  assume "is_dir (snd (catchE m h w)) q"
  then show "is_dir w q \<or> D q"
    using assms [unfolded dirs_within_def] m by (cases res) (auto simp: catchE_def, (metis snd_conv)+)
qed

lemma dirs_tryE [dirs]: "dirs_within D m \<Longrightarrow> dirs_within D (tryE m)"
  by (simp add: dirs_within_def tryE_def split_beta)

lemma dirs_ignoreE [dirs]: "dirs_within D m \<Longrightarrow> dirs_within D (ignoreE m)"
  unfolding ignoreE_def by (intro dirs)

lemma dirs_wrapE [dirs]: "dirs_within D m \<Longrightarrow> dirs_within D (wrapE f m)"
  unfolding wrapE_def by (intro dirs)

lemma dirs_if [dirs]:
  "(b \<Longrightarrow> dirs_within D m) \<Longrightarrow> (\<not> b \<Longrightarrow> dirs_within D n) \<Longrightarrow> dirs_within D (if b then m else n)"
  by simp

lemma dirs_case_option [dirs]:
  "dirs_within D m \<Longrightarrow> (\<And>x. dirs_within D (k x)) \<Longrightarrow> dirs_within D (case z of None \<Rightarrow> m | Some x \<Rightarrow> k x)"
  by (simp split: option.splits)

lemma dirs_case_sum [dirs]:
  "(\<And>x. dirs_within D (h x)) \<Longrightarrow> (\<And>x. dirs_within D (k x)) \<Longrightarrow>
     dirs_within D (case z of Inl x \<Rightarrow> h x | Inr x \<Rightarrow> k x)"
  by (simp split: sum.splits)

lemma dirs_case_prod [dirs]:
  "(\<And>a b. dirs_within D (k a b)) \<Longrightarrow> dirs_within D (case z of (a, b) \<Rightarrow> k a b)"
  by (simp split: prod.splits)

subsection \<open>System calls\<close>

lemma dirs_ctxErr [dirs]: "dirs_within D (ctxErr c)"
  by (simp add: dirs_within_def ctxErr_def Let_def split: option.splits)

lemma dirs_sys_read: "dirs_within D (sys_read f)"
  by (simp add: dirs_within_def sys_read_def Let_def split: option.splits sum.splits)

lemma dirs_reads [dirs]:
  "dirs_within D (os_Stat p)" "dirs_within D (os_Open p)" "dirs_within D (os_ReadFile p)"
  "dirs_within D (file_Stat_Size h)" "dirs_within D (file_Seek h i)" "dirs_within D file_Op"
  "dirs_within D (syscall_Statfs p)"
  unfolding os_Open_def os_Stat_def os_ReadFile_def file_Stat_Size_def file_Seek_def file_Op_def
    syscall_Statfs_def
  by (rule dirs_sys_read)+

lemma dirs_sys_update:
  assumes "\<And>t t' q. f t = Inr t' \<Longrightarrow> dir_at t' q \<Longrightarrow> dir_at t q \<or> D q"
  shows "dirs_within D (sys_update f)"
  using assms
  by (auto simp: dirs_within_def sys_update_def Let_def is_dir_def split: option.splits sum.splits)

lemma dirs_updates [dirs]:
  "dirs_within D (os_Remove p)" "dirs_within D (os_RemoveAll p)" "dirs_within D (os_Rename old new)"
proof -
  have "fs_remove t p = Inr t' \<Longrightarrow> dir_at t' q \<Longrightarrow> dir_at t q" for t t' q
    by (auto simp: fs_remove_def dir_at_def split: sum.splits node.splits if_splits)
  then show "dirs_within D (os_Remove p)"
    unfolding os_Remove_def by (intro dirs_sys_update) blast
  have "fs_removeall t p = Inr t' \<Longrightarrow> dir_at t' q \<Longrightarrow> dir_at t q" for t t' q
    by (auto simp: fs_removeall_def dir_at_def split: sum.splits node.splits if_splits)
  then show "dirs_within D (os_RemoveAll p)"
    unfolding os_RemoveAll_def by (intro dirs_sys_update) blast
  have "fs_rename t old new = Inr t' \<Longrightarrow> dir_at t' q \<Longrightarrow> dir_at t q" for t t' q
    by (auto simp: fs_rename_Inr dir_at_def split: if_splits)
  then show "dirs_within D (os_Rename old new)"
    unfolding os_Rename_def by (intro dirs_sys_update) blast
qed

lemma dirs_MkdirAll [dirs]: "(\<And>q. prefix q p \<Longrightarrow> D q) \<Longrightarrow> dirs_within D (os_MkdirAll p)"
  unfolding os_MkdirAll_def by (intro dirs_sys_update) (auto simp: mkdirall_dir_at)

lemma dirs_Write [dirs]: "dirs_within D (file_Write p bs)"
  by (auto simp: dirs_within_def file_Write_def Let_def is_dir_def append_dir_at split: option.splits)

lemma dirs_CreateTemp [dirs]: "dirs_within D (os_CreateTemp d a b)"
  by (auto simp: dirs_within_def os_CreateTemp_def Let_def is_dir_def create_dir_at split: option.splits sum.splits)

lemma dirs_WriteFile [dirs]: "dirs_within D (os_WriteFile p bs)"
  unfolding os_WriteFile_def
  by (intro dirs dirs_sys_update) (auto simp: create_dir_at)

lemma dirs_counters [dirs]: "dirs_within D (AddReadBytes n)" "dirs_within D (AddWriteBytes n)"
  by (auto simp: dirs_within_def AddReadBytes_def AddWriteBytes_def modifyE_def is_dir_def split: option.splits if_splits)


section \<open>Repository operations\<close>

text \<open>Paths that are not the path of any blob.\<close>

definition not_blob :: "repo \<Rightarrow> path \<Rightarrow> bool" where
  "not_blob r q = (\<forall>i. blob_id_ok i \<longrightarrow> q \<noteq> blobPath r i)"

lemma not_blob_data: "prefix q (dataDir r @ [x]) \<Longrightarrow> not_blob r q"
  unfolding not_blob_def by (auto dest!: prefix_length_le simp: blobPath_ok)

lemma not_blob_root: "prefix q (dataDir r) \<Longrightarrow> not_blob r q"
  by (meson not_blob_data prefix_prefix)

lemma not_blob_staging:
  assumes "repo_ok r" "prefix q (multipartDir r @ z)"
  shows "not_blob r q"
  unfolding not_blob_def
proof (intro allI impI notI)
  fix i assume i: "blob_id_ok i" "q = blobPath r i"
  then obtain zs where "multipartDir r @ z = dataDir r @ [blobShard i, i] @ zs"
    using assms(2) by (auto simp: blobPath_ok prefix_def)
  then show False using outside_data [OF assms(1)] by metis
qed

lemma dirs_contextReader [dirs]: "dirs_within D (contextReader_Read c rd)"
  unfolding contextReader_Read_def by (intro dirs)

lemma dirs_io_Copy [dirs]: "dirs_within D (io_Copy rd c dst acc)"
proof (induction rd arbitrary: acc)
  case Nil
  show ?case unfolding io_Copy.simps by (intro dirs)
next
  case (Cons a rd)
  then show ?case unfolding io_Copy.simps by (intro dirs)
qed

lemma dirs_closeAndRemove [dirs]: "dirs_within D (closeAndRemove p)"
  unfolding closeAndRemove_def by (intro dirs)

lemma dirs_createAtomicTempFile [dirs]:
  "(\<And>q. prefix q (filepath_Dir p) \<Longrightarrow> D q) \<Longrightarrow> dirs_within D (createAtomicTempFile p ent)"
  unfolding createAtomicTempFile_def Let_def by (intro dirs)

lemma dirs_writeAtomically [dirs]:
  "(\<And>q. prefix q (filepath_Dir p) \<Longrightarrow> D q) \<Longrightarrow> dirs_within D (writeAtomically c p rd ent)"
  unfolding writeAtomically_def by (intro dirs)

lemma dirs_ensureDirReady [dirs]:
  "(\<And>q. prefix q p \<Longrightarrow> D q) \<Longrightarrow> dirs_within D (ensureDirReady p)"
  unfolding ensureDirReady_def ensureWritableDiskSpace_def by (intro dirs)

lemma dirs_file_reads [dirs]: "dirs_within D (file_reads h)"
  by (auto simp: dirs_within_def file_reads_def Let_def split: node.splits option.splits)

lemma dirs_assembleLoop [dirs]: "dirs_within D (assembleLoop parts r c u t acc)"
proof (induction parts arbitrary: acc)
  case Nil
  show ?case unfolding assembleLoop.simps by (intro dirs)
next
  case (Cons a parts)
  then show ?case unfolding assembleLoop.simps by (intro dirs)
qed

lemmas storage_dirs = filepath_Dir_def butlast_append storage_paths blobsRootPath_def
  Join_Cons_plain multipartCompletedDir_def stagingRootPath_def

lemma dirs_StoreBlob [dirs]:
  assumes "repo_ok r" "blob_id_ok i"
  shows "dirs_within (not_blob r) (StoreBlob js r c i rd)"
  unfolding StoreBlob_def writeSinglePartManifest_def cleanupSinglePartStagingBestEffort_def
  using assms
  by (intro dirs) (auto simp: storage_dirs intro: not_blob_root not_blob_data not_blob_staging)

lemma dirs_openBlob [dirs]: "dirs_within D (openBlob r i)"
  unfolding openBlob_def by (intro dirs)

lemma dirs_RetrieveBlob [dirs]: "dirs_within D (RetrieveBlob r c i)"
  unfolding RetrieveBlob_def by (intro dirs)

lemma dirs_RetrieveBlobRange [dirs]: "dirs_within D (RetrieveBlobRange r c i off len)"
  unfolding RetrieveBlobRange_def Let_def by (intro dirs)

lemma dirs_removeCompleted [dirs]: "dirs_within D (removeCompletedMultipartMeta r i)"
  unfolding removeCompletedMultipartMeta_def by (intro dirs)

lemma dirs_DeleteBlob [dirs]: "dirs_within D (DeleteBlob r c i)"
  unfolding DeleteBlob_def by (intro dirs)

lemma dirs_StorePart [dirs]:
  assumes "repo_ok r" "blob_id_ok u"
  shows "dirs_within (not_blob r) (StorePart r c u n rd)"
  unfolding StorePart_def multipartSessionExists_def
  using assms by (intro dirs) (auto simp: storage_dirs intro: not_blob_staging)

lemma dirs_CreateMultipartSession [dirs]:
  assumes "repo_ok r" "blob_id_ok u"
  shows "dirs_within (not_blob r) (CreateMultipartSession js r c u n ct)"
  unfolding CreateMultipartSession_def
  using assms by (intro dirs) (auto simp: storage_dirs intro: not_blob_staging)

lemma dirs_CleanupMultipart [dirs]: "dirs_within D (CleanupMultipart r c u)"
  unfolding CleanupMultipart_def by (intro dirs)

section \<open>The repository is a blob store\<close>

definition storage_inv :: "repo \<Rightarrow> fs_world \<Rightarrow> bool" where
  "storage_inv r w = (repo_ok r \<and> (\<forall>i. blob_id_ok i \<longrightarrow> \<not> is_dir w (blobPath r i)))"

lemma dirs_storage_inv:
  assumes "dirs_within (not_blob r) m" "storage_inv r w"
  shows "wpE m (\<lambda>_ w'. storage_inv r w') (\<lambda>_ w'. storage_inv r w') w"
proof -
  have "storage_inv r (snd (m w))"
    using assms by (fastforce simp: dirs_within_def storage_inv_def not_blob_def)
  then show ?thesis by (auto simp: wpE_def split: prod.splits sum.splits)
qed

definition storage_ops :: "json_codec \<Rightarrow> repo \<Rightarrow> ctx \<Rightarrow> (fs_world, BlobMeta, blob_reader \<times> int) blob_ops" where
  "storage_ops js r c = \<lparr>op_store = StoreBlob js r c, op_retrieve = RetrieveBlob r c,
     op_delete = DeleteBlob r c, op_content = (\<lambda>(b, _). reader_data b), op_missing = ErrBlobNotFound\<rparr>"

interpretation storage_repo: blob_store "storage_inv r" "blobs r" blob_id_ok "storage_ops js r c"
  for js r c
proof (unfold_locales, goal_cases)
  case (1 w i rd)
  then have r: "repo_ok r" by (simp add: storage_inv_def)
  from wpE_conj [OF dirs_storage_inv [OF dirs_StoreBlob [OF r 1(2), where js = js and c = c and rd = rd] 1(1)] StoreBlob_wp [OF r 1(2), where js = js and ctx = c and rd = rd and w = w]]
  show ?case by (auto simp: storage_ops_def elim!: wpE_mono)
next
  case (2 w i)
  then have nd: "\<not> is_dir w (blobPath r i)" by (simp add: storage_inv_def)
  from wpE_conj [OF dirs_storage_inv [OF dirs_RetrieveBlob [where r = r and c = c and i = i] 2(1)] RetrieveBlob_wp [OF 2(2) nd, where ctx = c]]
  show ?case by (auto simp: storage_ops_def elim!: wpE_mono)
next
  case (3 w i)
  then have r: "repo_ok r" by (simp add: storage_inv_def)
  from wpE_conj [OF dirs_storage_inv [OF dirs_DeleteBlob [where r = r and c = c and i = i] 3(1)] DeleteBlob_wp [OF r 3(2), where ctx = c and w = w]]
  show ?case by (auto simp: storage_ops_def elim!: wpE_mono)
qed


text \<open>The invariant holds after every operation of the service layer too.\<close>

lemma dirs_StoreObject [dirs]:
  assumes "repo_ok r" "blob_id_ok i"
  shows "dirs_within (not_blob r) (StoreObject js r i c rd sz ct)"
  unfolding StoreObject_def Let_def using assms by (intro dirs)

lemma dirs_RetrieveObject [dirs]: "dirs_within D (RetrieveObject r c i off len)"
  unfolding RetrieveObject_def Let_def by (intro dirs)

end
