(* ===== verification/Storage_Handler.thy ===== *)
theory Storage_Handler
  imports Storage_Service
begin

text \<open>
  The gRPC handlers of the storage service, \<open>services/storage/internal/handler/storage\<close>, and the
  storage part of its configuration.

  A client stream is the list of what its successive \<open>Recv\<close> calls return; a stream that is
  used up returns EOF. A server stream collects the messages sent; \<open>sendErr k\<close> is the error of
  the \<open>Send\<close> call after \<open>k\<close> messages, if it fails. The generated message types are
  modelled with the fields the handlers read and write.
\<close>

section \<open>Configuration\<close>

record storageEnvConfig =
  DataDir :: string
  MultipartDir :: string
  ChunkSize :: int

definition maxRetrieveChunkSizeBytes :: int where
  "maxRetrieveChunkSizeBytes = 64 * 2 ^ 20"

text \<open>\<open>env.Parse\<close> is the parameter \<open>parse\<close>: the parsed values or its error.\<close>

definition NewStorageConfig :: "go_error + storageEnvConfig \<Rightarrow> go_error + storageEnvConfig" where
  "NewStorageConfig parse =
    (case parse of
       Inl err \<Rightarrow> Inl err
     | Inr raw \<Rightarrow>
        if ChunkSize raw < 1 \<or> ChunkSize raw > maxRetrieveChunkSizeBytes
        then Inl (ErrorString (''STORAGE_RETRIEVE_CHUNK_SIZE_BYTES must be between 1 and ''
                   @ itoa maxRetrieveChunkSizeBytes))
        else Inr raw)"

section \<open>Reading a client stream\<close>

type_synonym 'm stream = "(go_error + 'm) list"

fun stream_Recv :: "'m stream \<Rightarrow> (go_error + 'm) \<times> 'm stream" where
  "stream_Recv [] = (Inl EOF, [])"
| "stream_Recv (x # xs) = (x, xs)"

definition recvFirstMessage :: "'m stream \<Rightarrow> (go_error + 'm) \<times> 'm stream" where
  "recvFirstMessage st =
    (case stream_Recv st of
       (Inl err, st') \<Rightarrow> (Inl (if errors_Is err EOF then ErrUnexpectedEOF else err), st')
     | (Inr firstReq, st') \<Rightarrow> (Inr firstReq, st'))"

record chunkReader =
  recvChunk :: "bytes stream"
  pending :: bytes
  reader_done :: bool

definition newChunkStreamReader :: "bytes \<Rightarrow> bytes stream \<Rightarrow> chunkReader" where
  "newChunkStreamReader initial recv = \<lparr>recvChunk = recv, pending = initial, reader_done = False\<rparr>"

text \<open>
  The receiving loop of \<open>Read\<close>: it ends with an error, at the end of the stream, or with the
  first chunk that has data.
\<close>

fun recv_loop :: "bytes stream \<Rightarrow> go_error option \<times> chunkReader" where
  "recv_loop [] = (None, \<lparr>recvChunk = [], pending = [], reader_done = True\<rparr>)"
| "recv_loop (Inl err # st) =
     (if errors_Is err EOF then (None, \<lparr>recvChunk = st, pending = [], reader_done = True\<rparr>)
      else (Some err, \<lparr>recvChunk = st, pending = [], reader_done = False\<rparr>))"
| "recv_loop (Inr chunk # st) =
     (if chunk = [] then recv_loop st
      else (None, \<lparr>recvChunk = st, pending = chunk, reader_done = False\<rparr>))"

definition chunkReader_Read :: "nat \<Rightarrow> chunkReader \<Rightarrow> (bytes \<times> go_error option) \<times> chunkReader" where
  "chunkReader_Read p r =
    (case (if pending r = [] \<and> \<not> reader_done r then recv_loop (recvChunk r) else (None, r)) of
       (Some err, r') \<Rightarrow> (([], Some err), r')
     | (None, r') \<Rightarrow>
        if pending r' = [] then (([], Some EOF), r')
        else ((take p (pending r'), None), r'\<lparr>pending := drop p (pending r')\<rparr>))"

text \<open>The reads a consumer with a buffer of \<open>p\<close> bytes makes, up to the first error.\<close>

definition stream_bytes :: "bytes stream \<Rightarrow> nat" where
  "stream_bytes st = sum_list (map (\<lambda>x. case x of Inl _ \<Rightarrow> 0 | Inr c \<Rightarrow> length c) st)"

lemma recv_loop_bytes:
  "recv_loop st = (e, r) \<Longrightarrow> length (pending r) + stream_bytes (recvChunk r) \<le> stream_bytes st"
  by (induction st rule: recv_loop.induct) (auto simp: stream_bytes_def split: if_splits)

lemma chunkReader_Read_decreases:
  assumes "chunkReader_Read p r = ((bs, None), r')" "p \<noteq> 0"
  shows "length (pending r') + stream_bytes (recvChunk r') < length (pending r) + stream_bytes (recvChunk r)"
proof (cases "pending r = [] \<and> \<not> reader_done r")
  case True
  obtain e r1 where r1: "recv_loop (recvChunk r) = (e, r1)" by fastforce
  with True assms show ?thesis
    using recv_loop_bytes [OF r1]
    by (cases "pending r1") (auto simp: chunkReader_Read_def split: option.splits if_splits)
next
  case False
  with assms show ?thesis
    by (cases "pending r") (auto simp: chunkReader_Read_def split: if_splits)
qed

function chunk_reads :: "nat \<Rightarrow> chunkReader \<Rightarrow> reads" where
  "chunk_reads p r =
    (case chunkReader_Read p r of
       ((bs, Some e), _) \<Rightarrow> [(bs, Some e)]
     | ((bs, None), r') \<Rightarrow> if p = 0 then [] else (bs, None) # chunk_reads p r')"
  by pat_completeness auto
termination
  by (relation "measure (\<lambda>(p, r). length (pending r) + stream_bytes (recvChunk r))")
    (auto dest!: chunkReader_Read_decreases [OF sym])

declare chunk_reads.simps [simp del]

section \<open>Uploads\<close>

datatype store_msg = StoreHeader "int option" string bytes | StoreChunk bytes | StoreUnset

record storeObjectStreamPayload =
  payloadSize :: "int option"
  contentType :: string
  reader :: chunkReader

definition store_chunk :: "go_error + store_msg \<Rightarrow> go_error + bytes" where
  "store_chunk x = (case x of
     Inl err \<Rightarrow> Inl err
   | Inr (StoreChunk d) \<Rightarrow> Inr d
   | Inr _ \<Rightarrow> Inl (StatusError G_InvalidArgument ''messages after the first must be store_object chunks''))"

definition readStoreObjectStream :: "store_msg stream \<Rightarrow> go_error + storeObjectStreamPayload" where
  "readStoreObjectStream st =
    (case recvFirstMessage st of
       (Inl err, _) \<Rightarrow> Inl err
     | (Inr firstReq, st') \<Rightarrow>
        (case firstReq of
           StoreHeader sz ct d \<Rightarrow>
             Inr \<lparr>payloadSize = sz, contentType = ct,
                  reader = newChunkStreamReader d (map store_chunk st')\<rparr>
         | _ \<Rightarrow> Inl (StatusError G_InvalidArgument ''first message must be store_object header'')))"

datatype part_msg = PartHeader string int bytes | PartChunk bytes | PartUnset

record uploadPartStreamPayload =
  uploadID :: string
  partNumber :: int
  partReader :: chunkReader

definition part_chunk :: "go_error + part_msg \<Rightarrow> go_error + bytes" where
  "part_chunk x = (case x of
     Inl err \<Rightarrow> Inl err
   | Inr (PartChunk d) \<Rightarrow> Inr d
   | Inr _ \<Rightarrow> Inl (StatusError G_InvalidArgument ''messages after the first must be upload_part chunks''))"

definition readUploadPartStream :: "part_msg stream \<Rightarrow> go_error + uploadPartStreamPayload" where
  "readUploadPartStream st =
    (case recvFirstMessage st of
       (Inl err, _) \<Rightarrow> Inl err
     | (Inr firstReq, st') \<Rightarrow>
        (case firstReq of
           PartHeader u n d \<Rightarrow>
             if u = [] then Inl (StatusError G_InvalidArgument ''upload_id is required in the first message'')
             else if n = 0 then Inl (StatusError G_InvalidArgument ''part_number is required in the first message'')
             else Inr \<lparr>uploadID = u, partNumber = n,
                       partReader = newChunkStreamReader d (map part_chunk st')\<rparr>
         | _ \<Rightarrow> Inl (StatusError G_InvalidArgument ''first message must be upload_part header'')))"

text \<open>\<open>stream.SendAndClose\<close>: the response, or the transport's error.\<close>

definition SendAndClose :: "go_error option \<Rightarrow> 'a \<Rightarrow> 'a fsop" where
  "SendAndClose sendErr resp = (case sendErr of Some e \<Rightarrow> throwE e | None \<Rightarrow> returnE resp)"

record StoreObjectResponse =
  respBlobId :: string
  respChecksumMd5 :: string

definition h_StoreObject ::
  "json_codec \<Rightarrow> repo \<Rightarrow> string \<Rightarrow> ctx \<Rightarrow> go_error option \<Rightarrow> store_msg stream \<Rightarrow> StoreObjectResponse fsop" where
  "h_StoreObject js r uuid ctx sendErr st =
    bindE (liftE (readStoreObjectStream st)) (\<lambda>payload.
    bindE (StoreObject js r uuid ctx (chunk_reads copyBufferSize (reader payload))
             (payloadSize payload) (contentType payload)) (\<lambda>meta.
    SendAndClose sendErr \<lparr>respBlobId = BlobID meta, respChecksumMd5 = ChecksumMD5 meta\<rparr>))"

definition h_UploadPart ::
  "repo \<Rightarrow> ctx \<Rightarrow> go_error option \<Rightarrow> part_msg stream \<Rightarrow> string fsop" where
  "h_UploadPart r ctx sendErr st =
    bindE (liftE (readUploadPartStream st)) (\<lambda>payload.
    bindE (UploadPart r ctx (uploadID payload) (partNumber payload)
             (chunk_reads copyBufferSize (partReader payload))) (\<lambda>checksum.
    SendAndClose sendErr checksum))"

section \<open>Unary calls\<close>

definition h_DeleteObject :: "repo \<Rightarrow> ctx \<Rightarrow> string \<Rightarrow> bool fsop" where
  "h_DeleteObject r ctx blobId = bindE (DeleteObject r ctx blobId) (\<lambda>_. returnE True)"

definition h_InitiateMultipartUpload :: "json_codec \<Rightarrow> repo \<Rightarrow> string \<Rightarrow> ctx \<Rightarrow> int \<Rightarrow> string \<Rightarrow> string fsop" where
  "h_InitiateMultipartUpload js r uuid ctx expectedParts ct =
    bindE (InitiateMultipartUpload js r uuid ctx expectedParts ct) (\<lambda>uploadID. returnE uploadID)"

definition h_CompleteMultipartUpload ::
  "json_codec \<Rightarrow> repo \<Rightarrow> ctx \<Rightarrow> string \<Rightarrow> (int \<times> string) list \<Rightarrow> StoreObjectResponse fsop" where
  "h_CompleteMultipartUpload js r ctx u ps =
    bindE (CompleteMultipartUpload js r ctx u
             (map (\<lambda>(n, c). \<lparr>PartNumber = n, PartChecksumMD5 = c\<rparr>) ps)) (\<lambda>meta.
    returnE \<lparr>respBlobId = BlobID meta, respChecksumMd5 = ChecksumMD5 meta\<rparr>)"

definition h_AbortMultipartUpload :: "repo \<Rightarrow> ctx \<Rightarrow> string \<Rightarrow> bool fsop" where
  "h_AbortMultipartUpload r ctx u = bindE (AbortMultipartUpload r ctx u) (\<lambda>_. returnE True)"

datatype ServingStatus = SERVING | NOT_SERVING

definition h_HealthCheck :: "repo \<Rightarrow> ctx \<Rightarrow> ServingStatus fsop" where
  "h_HealthCheck r ctx =
    bindE (tryE (HealthCheck r ctx)) (\<lambda>res.
    case res of
      Inl _ \<Rightarrow> returnE NOT_SERVING
    | Inr serving \<Rightarrow> if \<not> serving then returnE NOT_SERVING else returnE SERVING)"

section \<open>Downloads\<close>

text \<open>
  One \<open>Read\<close> of an open blob into a buffer: \<open>io.LimitReader\<close> ends at its limit, a read
  into an empty buffer returns nothing and no error, and a file ends where its bytes do.
\<close>

definition blob_Read :: "nat \<Rightarrow> blob_reader \<Rightarrow> fs_world \<Rightarrow> (bytes \<times> go_error option \<times> blob_reader) \<times> fs_world" where
  "blob_Read p b w =
    (let w' = w\<lparr>now := Suc (now w)\<rparr>;
         n = (case limit b of None \<Rightarrow> p | Some l \<Rightarrow> min p (nat l)) in
     if (case limit b of None \<Rightarrow> False | Some l \<Rightarrow> l \<le> 0) then (([], Some EOF, b), w)
     else if n = 0 then (([], None, b), w)
     else (case faults w (now w) of
         Some (e, _) \<Rightarrow> (([], Some (Errno (fault_errno e)), b), w')
       | None \<Rightarrow>
          (case handle b of
             Dir \<Rightarrow> (([], Some (Errno EISDIR), b), w')
           | File d \<Rightarrow>
              (let bs = take n (drop (nat (offset b)) d) in
               if bs = [] then (([], Some EOF, b), w')
               else ((bs, None, b\<lparr>offset := offset b + int (length bs),
                         limit := map_option (\<lambda>l. l - int (length bs)) (limit b)\<rparr>), w')))))"

record RetrieveObjectResponse =
  respData :: bytes
  respTotalSize :: int

text \<open>The send loop. It is partial: a loop that never ends has no value.\<close>

partial_function (option) retrieveLoop ::
  "nat \<Rightarrow> (nat \<Rightarrow> go_error option) \<Rightarrow> int \<Rightarrow> blob_reader \<Rightarrow> bool \<Rightarrow> int \<Rightarrow> RetrieveObjectResponse list \<Rightarrow> fs_world
    \<Rightarrow> ((go_error + int) \<times> RetrieveObjectResponse list \<times> fs_world) option" where
  "retrieveLoop chunk sendErr totalSize b first totalSent sent w =
    (case blob_Read chunk b w of
       ((n, readErr, b'), w') \<Rightarrow>
        (case (if n = [] then None else sendErr (length sent)) of
           Some err \<Rightarrow> Some (Inl err, sent, w')
         | None \<Rightarrow>
            (let sent' = (if n = [] then sent
                          else sent @ [\<lparr>respData = n, respTotalSize = (if first then totalSize else 0)\<rparr>]);
                 first' = (if n = [] then first else False);
                 totalSent' = totalSent + int (length n) in
             case readErr of
               Some e \<Rightarrow> if errors_Is e EOF then Some (Inr totalSent', sent', w')
                         else Some (Inl e, sent', w')
             | None \<Rightarrow> retrieveLoop chunk sendErr totalSize b' first' totalSent' sent' w')))"

declare retrieveLoop.simps [code]

text \<open>
  The handler: the result, the messages sent and the next world, or none if it does not return.
  The deferred \<open>Close\<close> runs on every path after the reader was opened; its error is dropped.
\<close>

definition h_RetrieveObject ::
  "repo \<Rightarrow> nat \<Rightarrow> (nat \<Rightarrow> go_error option) \<Rightarrow> ctx \<Rightarrow> string \<Rightarrow> int \<Rightarrow> int \<Rightarrow> fs_world
    \<Rightarrow> ((go_error + unit) \<times> RetrieveObjectResponse list \<times> fs_world) option" where
  "h_RetrieveObject r chunk sendErr ctx blobId off len w =
    (case RetrieveObject r ctx blobId off len w of
       (Inl err, w1) \<Rightarrow> Some (Inl err, [], w1)
     | (Inr (b, totalSize), w1) \<Rightarrow>
        (case retrieveLoop chunk sendErr totalSize b True 0 [] w1 of
           None \<Rightarrow> None
         | Some (Inl err, sent, w2) \<Rightarrow> Some (Inl err, sent, snd (file_Op w2))
         | Some (Inr totalSent, sent, w2) \<Rightarrow>
            Some (Inr (), sent, snd (file_Op (snd (AddReadBytes totalSent w2))))))"


section \<open>Uploads deliver what the client sent\<close>

text \<open>What a client stream carries before it ends, and how it ends: none is a clean end.\<close>

fun stream_data :: "bytes stream \<Rightarrow> bytes" where
  "stream_data [] = []"
| "stream_data (Inl e # st) = []"
| "stream_data (Inr c # st) = c @ stream_data st"

fun stream_error :: "bytes stream \<Rightarrow> go_error option" where
  "stream_error [] = None"
| "stream_error (Inl e # st) = (if errors_Is e EOF then None else Some e)"
| "stream_error (Inr c # st) = stream_error st"

lemma recv_loop_spec:
  "recv_loop st = (e, r) \<Longrightarrow>
     (case e of
        Some err \<Rightarrow> stream_data st = [] \<and> stream_error st = Some err \<and> \<not> errors_Is err EOF
      | None \<Rightarrow> if reader_done r then stream_data st = [] \<and> stream_error st = None \<and> pending r = []
               else pending r \<noteq> [] \<and> stream_data st = pending r @ stream_data (recvChunk r) \<and>
                    stream_error st = stream_error (recvChunk r))"
  by (induction st rule: recv_loop.induct) (auto split: if_splits option.splits)

lemma not_EOF: "\<not> errors_Is e EOF \<Longrightarrow> e \<noteq> EOF"
  by auto

lemma chunk_reads_spec:
  assumes "0 < p" "\<not> reader_done r"
  shows "reads_data (chunk_reads p r) = pending r @ stream_data (recvChunk r) \<and>
    reads_error (chunk_reads p r) = stream_error (recvChunk r)"
  using assms
proof (induction p r rule: chunk_reads.induct)
  case (1 p r)
  obtain e r1 where r1: "(if pending r = [] \<and> \<not> reader_done r then recv_loop (recvChunk r) else (None, r)) = (e, r1)"
    by (metis surj_pair)
  show ?case
  proof (cases "e = None \<and> pending r1 \<noteq> []")
    case True
    let ?r2 = "r1\<lparr>pending := drop p (pending r1)\<rparr>"
    have rd: "chunkReader_Read p r = ((take p (pending r1), None), ?r2)"
      using True r1 by (simp add: chunkReader_Read_def)
    have nd: "\<not> reader_done r1"
      using r1 recv_loop_spec [of "recvChunk r" e r1] True 1(3) by (auto split: if_splits)
    have eq: "pending r @ stream_data (recvChunk r) = pending r1 @ stream_data (recvChunk r1)"
      "stream_error (recvChunk r) = stream_error (recvChunk r1)"
      using r1 recv_loop_spec [of "recvChunk r" e r1] True nd by (auto split: if_splits)
    have "reads_data (chunk_reads p ?r2) = pending ?r2 @ stream_data (recvChunk ?r2) \<and>
        reads_error (chunk_reads p ?r2) = stream_error (recvChunk ?r2)"
      using 1(1) [OF rd [symmetric]] 1(2) nd by auto
    then show ?thesis
      using 1(2) eq by (simp add: chunk_reads.simps [of p r] rd)
  next
    case False
    then have p: "pending r = []"
      using r1 by (auto split: if_splits)
    then have r1': "recv_loop (recvChunk r) = (e, r1)" using r1 1(3) by simp
    show ?thesis
      using recv_loop_spec [OF r1'] False 1(3) p r1'
      by (cases e) (auto simp: chunk_reads.simps [of p r] chunkReader_Read_def dest: not_EOF split: if_splits)
  qed
qed

section \<open>Downloads deliver what is stored\<close>

text \<open>The messages of a download: every chunk has data, only the first carries the total size.\<close>

fun sent_ok :: "nat \<Rightarrow> int \<Rightarrow> bool \<Rightarrow> RetrieveObjectResponse list \<Rightarrow> bool" where
  "sent_ok chunk totalSize first [] = True"
| "sent_ok chunk totalSize first (m # ms) =
     (respData m \<noteq> [] \<and> length (respData m) \<le> chunk \<and>
      respTotalSize m = (if first then totalSize else 0) \<and> sent_ok chunk totalSize False ms)"

definition sent_data :: "RetrieveObjectResponse list \<Rightarrow> bytes" where
  "sent_data ms = concat (map respData ms)"

lemma blob_Read_spec:
  assumes "blob_Read p b w = ((n, e, b'), w')" "0 < p" "0 \<le> offset b"
  shows "files w' = files w \<and>
    (case e of
       None \<Rightarrow> n \<noteq> [] \<and> length n \<le> p \<and> reader_data b = n @ reader_data b' \<and> 0 \<le> offset b'
     | Some err \<Rightarrow> n = [] \<and> (errors_Is err EOF \<longrightarrow> reader_data b = []))"
proof -
  have split: "drop k x = take i (drop k x) @ drop (i + k) x" for i k and x :: bytes
    by (metis append_take_drop_id drop_drop)
  have split': "take j (drop k x) = take i (drop k x) @ take (j - i) (drop (i + k) x)" if "i \<le> j" for i j k and x :: bytes
    using that by (metis drop_drop le_add_diff_inverse take_add)
  show ?thesis
    using assms
    by (auto simp: blob_Read_def reader_data_def Let_def nat_add_distrib nat_diff_distrib min_def add.commute
        split: option.splits if_splits node.splits intro: split intro!: split')
qed

lemma retrieveLoop_returns:
  assumes "0 < chunk" "0 \<le> offset b"
  shows "\<exists>res ms w'. retrieveLoop chunk sendErr tot b first n sent w = Some (res, sent @ ms, w') \<and>
     files w' = files w \<and> sent_ok chunk tot first ms \<and> prefix (sent_data ms) (reader_data b) \<and>
     (\<forall>k. res = Inr k \<longrightarrow> sent_data ms = reader_data b \<and> k = n + int (length (reader_data b)))"
  using assms(2)
proof (induction "length (reader_data b)" arbitrary: b first n sent w rule: less_induct)
  case less
  obtain bs e b' w1 where rd: "blob_Read chunk b w = ((bs, e, b'), w1)" by (metis surj_pair)
  note spec = blob_Read_spec [OF rd assms(1) less.prems]
  show ?case
  proof (cases e)
    case None
    then have bs: "bs \<noteq> []" "length bs \<le> chunk" "reader_data b = bs @ reader_data b'" "0 \<le> offset b'"
      "files w1 = files w" using spec by auto
    let ?m = "\<lparr>respData = bs, respTotalSize = (if first then tot else 0)\<rparr>"
    show ?thesis
    proof (cases "sendErr (length sent)")
      case (Some err)
      then show ?thesis
        using bs None rd by (subst retrieveLoop.simps) (auto simp: sent_data_def)
    next
      case none: None
      have "length (reader_data b') < length (reader_data b)" using bs by simp
      from less.hyps [OF this bs(4), of False "n + int (length bs)" "sent @ [?m]" w1]
      obtain res ms w' where ih: "retrieveLoop chunk sendErr tot b' False (n + int (length bs)) (sent @ [?m]) w1
          = Some (res, (sent @ [?m]) @ ms, w')" "files w' = files w1" "sent_ok chunk tot False ms"
        "prefix (sent_data ms) (reader_data b')"
        "\<And>k. res = Inr k \<Longrightarrow> sent_data ms = reader_data b' \<and> k = n + int (length bs) + int (length (reader_data b'))"
        by blast
      have run: "retrieveLoop chunk sendErr tot b first n sent w = Some (res, sent @ (?m # ms), w')"
        using ih(1) none bs(1) None rd by (subst retrieveLoop.simps) (simp add: Let_def)
      have "sent_data (?m # ms) = bs @ sent_data ms" by (simp add: sent_data_def)
      then show ?thesis
        by (intro exI [of _ res] exI [of _ "?m # ms"] exI [of _ w'] conjI allI impI)
          (use ih(2-4) ih(5) bs run in \<open>simp_all\<close>)
    qed
  next
    case (Some err)
    then have "bs = []" "errors_Is err EOF \<longrightarrow> reader_data b = []" "files w1 = files w"
      using spec by auto
    moreover have "retrieveLoop chunk sendErr tot b first n sent w =
        Some (if errors_Is err EOF then Inr n else Inl err, sent @ [], w1)"
      using Some rd \<open>bs = []\<close> by (subst retrieveLoop.simps) (simp add: Let_def)
    ultimately show ?thesis
      by (intro exI [of _ "if errors_Is err EOF then Inr n else Inl err"] exI [of _ "[]"] exI [of _ w1])
        (auto simp: sent_data_def)
  qed
qed

end
