(* ===== verification/Storage_Props.thy ===== *)
theory Storage_Props
  imports Storage_Dirs Storage_Handler
begin

text \<open>
  The properties of the storage service, from the repository up to the gRPC handlers, and a
  concrete world in which their hypotheses hold.
\<close>

section \<open>A concrete world\<close>

text \<open>The default layout on an empty disk, and a codec that writes documents as plain text.\<close>

definition example_repo :: repo where
  "example_repo = \<lparr>dataDir = [''data'', ''blobs''], multipartDir = [''data'', ''staging'']\<rparr>"

definition example_world :: fs_world where
  "example_world = \<lparr>now = 0, nodes = fmempty, faults = (\<lambda>_. None), disk = (\<lambda>_. (1, 1)),
     temp_names = (\<lambda>_. ''0''), dir_size = 0, readBytes = Some 0, writeBytes = Some 0\<rparr>"

definition example_codec :: json_codec where
  "example_codec = \<lparr>marshal_manifest = (\<lambda>i st. Inr (i @ st)),
     marshal_session = (\<lambda>m. Inr (SessionBlobID m)),
     unmarshal_session = (\<lambda>d. Inr \<lparr>ExpectedParts = 0, SessionContentType = [], SessionBlobID = d\<rparr>),
     marshal_blobmeta = (\<lambda>m. Inr (BlobID m)),
     unmarshal_blobmeta = (\<lambda>d. Inr \<lparr>BlobID = d, ChecksumMD5 = [], SizeBytes = 0, ContentType = []\<rparr>)\<rparr>"

lemma example_repo_ok: "repo_ok example_repo"
  by (simp add: repo_ok_def example_repo_def)

lemma example_files [simp]: "files example_world q = None"
  by (simp add: files_def example_world_def file_at_def)

lemma example_dirs [simp]: "is_dir example_world q \<longleftrightarrow> q = []"
  by (simp add: is_dir_def example_world_def dir_at_def)

lemma example_blobs [simp]: "blobs r example_world i = None"
  by (simp add: blobs_def)

lemma example_inv: "storage_inv example_repo example_world"
  by (simp add: storage_inv_def example_repo_ok blobPath_ok)

lemma example_calm: "calm example_world"
  by (simp add: calm_def example_world_def)

lemma example_id: "blob_id_ok ''ab1''" "blob_id_ok ''cd2''"
  by (simp_all add: blob_id_ok_def)

lemma example_ready: "store_ready example_repo example_world ''ab1''"
  by (auto simp: store_ready_def blobPath_ok example_id strict_prefix_def example_repo_def prefix_def)

section \<open>The repository\<close>

text \<open>
  C1. Histories of the repository are histories of an abstract map from blob ids to contents:
  whatever I/O faults happen, a store that succeeds adds exactly what its reader delivered, a
  failed store changes nothing, a read returns what the map holds and reports a blob missing only
  if it is, and a delete removes its blob only.
\<close>

theorem repository_refines_blob_map:
  assumes "storage_inv r w" "\<forall>c \<in> set cs. blob_id_ok (call_id c)"
    and "run_calls (storage_ops js r ctx) cs w = (outs, w')"
  shows "storage_inv r w' \<and> length outs = length cs \<and> spec_run (blobs r w) (zip cs outs) (blobs r w')"
  using assms by (rule storage_repo.run_calls_simulate)

theorem repository_refines_blob_map_witness:
  "storage_inv example_repo example_world \<and>
   (let (outs, w') = run_calls (storage_ops example_codec example_repo Background)
          [Put ''ab1'' (bytes_reads ''hello''), Get ''ab1'', Del ''cd2''] example_world in
    spec_run (blobs example_repo example_world)
      (zip [Put ''ab1'' (bytes_reads ''hello''), Get ''ab1'', Del ''cd2''] outs) (blobs example_repo w'))"
  using repository_refines_blob_map [OF example_inv, of "[Put ''ab1'' (bytes_reads ''hello''), Get ''ab1'', Del ''cd2'']"
      example_codec Background] example_inv example_id
  by (simp split: prod.splits del: run_calls.simps)


text \<open>
  C2. Storing a blob is atomic under any I/O faults, cancellation included: either the blob holds
  exactly the bytes of its reader, with their size and MD5 in the returned metadata, or no blob at
  all has changed.
\<close>

theorem StoreBlob_atomic:
  assumes "repo_ok r" "blob_id_ok i" "StoreBlob js r ctx i rd w = (res, w')"
  shows "(case res of
      Inr m \<Rightarrow> reads_error rd = None \<and> blobs r w' = (blobs r w)(i \<mapsto> reads_data rd) \<and>
        m = \<lparr>BlobID = i, ChecksumMD5 = md5Hex (reads_data rd),
             SizeBytes = int (length (reads_data rd)), ContentType = []\<rparr>
    | Inl e \<Rightarrow> blobs r w' = blobs r w)"
  using StoreBlob_wp [OF assms(1,2), of js ctx rd w] assms(3)
  by (auto simp: wpE_def split: sum.splits)

theorem StoreBlob_atomic_witness:
  "repo_ok example_repo \<and> blob_id_ok ''ab1'' \<and>
   (case fst (StoreBlob example_codec example_repo Background ''ab1'' [(''hi'', None), ([], Some EOF)]
         (example_world\<lparr>faults := (\<lambda>t. if t = 7 then Some (DiskFull, 1) else None)\<rparr>)) of
      Inr m \<Rightarrow> ChecksumMD5 m = md5Hex ''hi'' | Inl e \<Rightarrow> True)"
proof -
  let ?w = "example_world\<lparr>faults := (\<lambda>t. if t = 7 then Some (DiskFull, 1) else None)\<rparr>"
  let ?run = "StoreBlob example_codec example_repo Background ''ab1'' [(''hi'', None), ([], Some EOF)] ?w"
  have "?run = (fst ?run, snd ?run)" by simp
  from StoreBlob_atomic [OF example_repo_ok example_id(1) this] show ?thesis
    using example_repo_ok example_id by (simp split: sum.splits)
qed

text \<open>
  C3. Storing succeeds: with no I/O fault, space on the disk, a context that stays open, a reader
  that ends cleanly and a fresh id, \<open>StoreBlob\<close> returns, and the blob holds the reader's bytes.
\<close>

theorem StoreBlob_succeeds:
  assumes "repo_ok r" "blob_id_ok i" "calm w" "ctx_done c = None" "reads_error rd = None"
    and "marshal_manifest js i ''staged'' = Inr m" "store_ready r w i"
  shows "\<exists>meta w'. StoreBlob js r c i rd w = (Inr meta, w') \<and> calm w' \<and>
    files w' (blobPath r i) = Some (reads_data rd) \<and> ChecksumMD5 meta = md5Hex (reads_data rd)"
  using wpE_succeeds [OF calm_StoreBlob [OF assms]] by force

theorem StoreBlob_succeeds_witness:
  "calm example_world \<and> store_ready example_repo example_world ''ab1'' \<and>
   (\<exists>meta w'. StoreBlob example_codec example_repo Background ''ab1'' (bytes_reads ''hello'') example_world
      = (Inr meta, w') \<and> files w' (blobPath example_repo ''ab1'') = Some ''hello'')"
proof -
  have "marshal_manifest example_codec ''ab1'' ''staged'' = Inr ''ab1staged''"
    by (simp add: example_codec_def)
  from StoreBlob_succeeds [OF example_repo_ok example_id(1) example_calm _ _ this example_ready,
      of Background "bytes_reads ''hello''"]
  show ?thesis using example_calm example_ready by (force simp: Background_def)
qed

section \<open>Multipart uploads\<close>

text \<open>
  C4. Completing a multipart upload, under any I/O faults: success means the part list was
  strictly increasing and either the upload had been completed before and its blob is still there,
  or the blob is now the concatenation of the listed parts, every one of them staged with exactly
  the checksum the client listed. On failure no other blob changes, and the blob of the upload is
  as before, absent or whole, never partial.
\<close>

theorem CompleteMultipartUpload_assembles:
  assumes "repo_ok r" "blob_id_ok u" "session_dest js r w u u u"
    and "CompleteMultipartUpload js r ctx u parts w = (res, w')"
  shows "(case res of
      Inr m \<Rightarrow> sorted_wrt (<) (map PartNumber parts) \<and>
       ((\<exists>d. files w (completedMultipartMetaPath r u) = Some d \<and> unmarshal_blobmeta js d = Inr m \<and>
            files w (blobPath r (BlobID m)) \<noteq> None \<and> blobs r w' = blobs r w)
       \<or> (\<exists>ds. list_all2 (part_matches r w u) parts ds \<and>
            blobs r w' = (blobs r w)(u \<mapsto> concat ds) \<and> BlobID m = u \<and>
            ChecksumMD5 m = md5Hex (concat ds) \<and> SizeBytes m = int (length (concat ds))))
    | Inl e \<Rightarrow> whole_or_absent r w u parts u w')"
  using CompleteMultipartUpload_wp [OF assms(1-3), of ctx parts] assms(4)
  by (auto simp: wpE_def validateCompletedParts_None split: sum.splits)

theorem CompleteMultipartUpload_assembles_witness:
  "session_dest example_codec example_repo example_world ''ab1'' ''ab1'' ''ab1'' \<and>
   (case fst (CompleteMultipartUpload example_codec example_repo Background ''ab1''
        [\<lparr>PartNumber = 2, PartChecksumMD5 = ''x''\<rparr>, \<lparr>PartNumber = 1, PartChecksumMD5 = ''x''\<rparr>] example_world) of
      Inr m \<Rightarrow> sorted_wrt (<) [2, 1 :: int] | Inl e \<Rightarrow> True)"
proof -
  let ?run = "CompleteMultipartUpload example_codec example_repo Background ''ab1''
        [\<lparr>PartNumber = 2, PartChecksumMD5 = ''x''\<rparr>, \<lparr>PartNumber = 1, PartChecksumMD5 = ''x''\<rparr>] example_world"
  have s: "session_dest example_codec example_repo example_world ''ab1'' ''ab1'' ''ab1''"
    by (simp add: session_dest_def)
  have "?run = (fst ?run, snd ?run)" by simp
  from CompleteMultipartUpload_assembles [OF example_repo_ok example_id(1) s this] s show ?thesis
    by (simp split: sum.splits)
qed

text \<open>
  C5. \<open>validateCompletedParts\<close> accepts exactly the non-empty lists with part numbers from 1
  up, strictly increasing, and a checksum for every part.
\<close>

theorem validateCompletedParts_iff:
  "validateCompletedParts parts = None \<longleftrightarrow>
     parts \<noteq> [] \<and> list_all (\<lambda>p. 1 \<le> PartNumber p \<and> PartChecksumMD5 p \<noteq> []) parts \<and>
     sorted_wrt (<) (map PartNumber parts)"
  by (simp add: validateCompletedParts_None list_all_iff)

text \<open>
  Parts do not collide: two parts of a session have the same file only if they have the same
  number, a part is never the session's manifest, and sessions are disjoint.
\<close>

lemma part_paths_injective:
  assumes "blob_id_ok u" "blob_id_ok u'" "1 \<le> m" "1 \<le> n"
  shows "(multipartPartPath r u m = multipartPartPath r u' n \<longleftrightarrow> u = u' \<and> m = n) \<and>
    multipartPartPath r u m \<noteq> multipartMetaPath r u'"
  using assms fmt_05d_inj [of m n]
  by (auto simp: storage_paths stagingManifestFilename_def)


section \<open>Handlers\<close>

text \<open>The bytes a download of a range of a blob must deliver.\<close>

definition blob_range :: "int \<Rightarrow> int \<Rightarrow> bytes \<Rightarrow> bytes" where
  "blob_range off len d = (let rest = drop (nat off) d in if len \<le> 0 then rest else take (nat len) rest)"

lemma h_RetrieveObject_no_dir:
  assumes "0 < chunk" "\<not> is_dir w (blobPath r i)" "blob_id_ok i"
    and "\<And>d. blobs r w i = Some d \<Longrightarrow> int (length d) \<le> maxInt64"
  shows "\<exists>res ms w'. h_RetrieveObject r chunk sendErr ctx i off len w = Some (res, ms, w') \<and>
    blobs r w' = blobs r w \<and>
    (\<forall>d. blobs r w i = Some d \<longrightarrow> prefix (sent_data ms) (blob_range off len d) \<and>
       sent_ok chunk (int (length d)) True ms) \<and>
    (res = Inr () \<longrightarrow> (\<exists>d. blobs r w i = Some d \<and> sent_data ms = blob_range off len d))"
proof -
  note nd = assms(2)
  obtain o1 w1 where ro: "RetrieveObject r ctx i off len w = (o1, w1)" by fastforce
  note spec = RetrieveObject_wp [OF assms(3) nd assms(4), of ctx off len, unfolded wpE_def ro]
  show ?thesis
  proof (cases o1)
    case (Inl e)
    with ro spec show ?thesis by (simp add: h_RetrieveObject_def sent_data_def)
  next
    case (Inr bt)
    obtain b tot where bt: "bt = (b, tot)" by fastforce
    then obtain d where d: "blobs r w i = Some d" "tot = int (length d)" "blobs r w1 = blobs r w"
      "reader_data b = blob_range off len d" "0 \<le> offset b"
      using spec Inr by (auto simp: blob_range_def)
    from retrieveLoop_returns [OF assms(1) d(5), of sendErr tot True 0 "[]" w1] obtain res ms w2 where
      loop: "retrieveLoop chunk sendErr tot b True 0 [] w1 = Some (res, ms, w2)"
        "files w2 = files w1" "sent_ok chunk tot True ms" "prefix (sent_data ms) (reader_data b)"
        "\<And>k. res = Inr k \<Longrightarrow> sent_data ms = reader_data b"
      by auto
    have keep: "files v = files w1 \<Longrightarrow> blobs r v = blobs r w" for v
      using d(3) blobs_files by metis
    have close: "files (snd (file_Op v)) = files v" for v
      by (simp add: file_Op_def sys_read_def Let_def split: option.splits)
    have count: "files (snd (AddReadBytes k v)) = files v" for k v
      by (auto simp: AddReadBytes_def modifyE_def split: option.splits)
    show ?thesis
      using loop d ro Inr bt
      by (cases res) (auto simp: h_RetrieveObject_def close count intro!: keep)
  qed
qed

lemma h_RetrieveObject_spec:
  assumes "0 < chunk" "storage_inv r w" "blob_id_ok i"
    and "\<And>d. blobs r w i = Some d \<Longrightarrow> int (length d) \<le> maxInt64"
  shows "\<exists>res ms w'. h_RetrieveObject r chunk sendErr ctx i off len w = Some (res, ms, w') \<and>
    blobs r w' = blobs r w \<and>
    (\<forall>d. blobs r w i = Some d \<longrightarrow> prefix (sent_data ms) (blob_range off len d) \<and>
       sent_ok chunk (int (length d)) True ms) \<and>
    (res = Inr () \<longrightarrow> (\<exists>d. blobs r w i = Some d \<and> sent_data ms = blob_range off len d))"
  using assms(2,3) by (intro h_RetrieveObject_no_dir [OF assms(1) _ assms(3,4)]) (simp_all add: storage_inv_def)


text \<open>
  C6. A download always returns, whatever I/O or send errors happen, when the chunk size is one
  the configuration accepts. What it sends is a prefix of the requested range, in non-empty
  messages no longer than a chunk, the first of which carries the blob's size; if it returns
  without error it has sent the whole range. No blob changes.
\<close>

theorem RetrieveObject_streams_range:
  assumes "NewStorageConfig parse = Inr cfg" "storage_inv r w" "blob_id_ok i"
    and "\<And>d. blobs r w i = Some d \<Longrightarrow> int (length d) \<le> maxInt64"
  shows "\<exists>res ms w'. h_RetrieveObject r (nat (ChunkSize cfg)) sendErr ctx i off len w = Some (res, ms, w') \<and>
    blobs r w' = blobs r w \<and>
    (\<forall>d. blobs r w i = Some d \<longrightarrow> prefix (sent_data ms) (blob_range off len d) \<and>
       sent_ok (nat (ChunkSize cfg)) (int (length d)) True ms) \<and>
    (res = Inr () \<longrightarrow> (\<exists>d. blobs r w i = Some d \<and> sent_data ms = blob_range off len d))"
proof -
  have "0 < nat (ChunkSize cfg)"
    using assms(1) by (auto simp: NewStorageConfig_def split: sum.splits if_splits)
  then show ?thesis using h_RetrieveObject_spec assms(2-4) by blast
qed

theorem RetrieveObject_streams_range_witness:
  "\<exists>res ms w'. h_RetrieveObject example_repo 1048576 (\<lambda>_. None) Background ''ab1'' 3 5 example_world
     = Some (res, ms, w') \<and> blobs example_repo w' = blobs example_repo example_world"
proof -
  let ?cfg = "\<lparr>DataDir = ''/data/blobs'', MultipartDir = ''/data/staging'', ChunkSize = 1048576\<rparr>"
  have "NewStorageConfig (Inr ?cfg) = Inr ?cfg"
    by (simp add: NewStorageConfig_def maxRetrieveChunkSizeBytes_def)
  from RetrieveObject_streams_range [OF this example_inv example_id(1), of "\<lambda>_. None" Background 3 5]
  show ?thesis by (auto simp: example_blobs)
qed

text \<open>An upload of a stream that ends cleanly succeeds in a calm world.\<close>

lemma calm_h_StoreObject:
  assumes "repo_ok r" "blob_id_ok i" "calm w" "ctx_done c = None"
    and "stream_error (map store_chunk st) = None"
    and "marshal_manifest js i ''staged'' = Inr m" "store_ready r w i"
  shows "\<exists>resp w'. h_StoreObject js r i c None (Inr (StoreHeader None ct d0) # st) w = (Inr resp, w')"
proof -
  let ?rd = "chunk_reads copyBufferSize (newChunkStreamReader d0 (map store_chunk st))"
  have "reads_error ?rd = None"
    using chunk_reads_spec [of copyBufferSize "newChunkStreamReader d0 (map store_chunk st)"] assms(5)
    by (simp add: newChunkStreamReader_def copyBufferSize_def)
  from calm_StoreBlob [OF assms(1-4) this assms(6,7)]
  have "wpE (h_StoreObject js r i c None (Inr (StoreHeader None ct d0) # st)) (\<lambda>_ _. True) (\<lambda>_ _. False) w"
    by (auto simp: h_StoreObject_def StoreObject_def SendAndClose_def wp Let_def readStoreObjectStream_def
        recvFirstMessage_def intro!: AddBytes_wp elim!: wpE_mono)
  from wpE_succeeds [OF this] show ?thesis by blast
qed

text \<open>
  C7. What a client uploads is what a client downloads: after a successful streamed upload, under
  any faults, the checksum answered is the MD5 of the bytes streamed, and a full download of the
  answered id, if it ends without error, delivers exactly these bytes.
\<close>

theorem upload_download_roundtrip:
  assumes "storage_inv r w" "blob_id_ok uuid" "0 < chunk"
    and "h_StoreObject js r uuid ctx sendErr (Inr (StoreHeader sz ct d0) # st) w = (Inr resp, w1)"
    and "data = d0 @ stream_data (map store_chunk st)" "int (length data) \<le> maxInt64"
  shows "stream_error (map store_chunk st) = None \<and> respChecksumMd5 resp = md5Hex data \<and>
    (\<exists>res ms w2. h_RetrieveObject r chunk sendErr2 ctx2 (respBlobId resp) 0 0 w1 = Some (res, ms, w2) \<and>
       prefix (sent_data ms) data \<and> (res = Inr () \<longrightarrow> sent_data ms = data))"
proof -
  have r: "repo_ok r" using assms(1) by (simp add: storage_inv_def)
  let ?rd = "chunk_reads copyBufferSize (newChunkStreamReader d0 (map store_chunk st))"
  have "0 < copyBufferSize" by (simp add: copyBufferSize_def)
  then have rd: "reads_data ?rd = data" "reads_error ?rd = stream_error (map store_chunk st)"
    using chunk_reads_spec [of copyBufferSize "newChunkStreamReader d0 (map store_chunk st)"]
    by (simp_all add: newChunkStreamReader_def assms(5))
  have "readStoreObjectStream (Inr (StoreHeader sz ct d0) # st) =
      Inr \<lparr>payloadSize = sz, contentType = ct, reader = newChunkStreamReader d0 (map store_chunk st)\<rparr>"
    by (simp add: readStoreObjectStream_def recvFirstMessage_def)
  then obtain m where m: "StoreObject js r uuid ctx ?rd sz ct w = (Inr m, w1)"
    and resp: "respBlobId resp = BlobID m" "respChecksumMd5 resp = ChecksumMD5 m"
    using assms(4)
    by (auto simp: h_StoreObject_def SendAndClose_def opE_defs split: prod.splits sum.splits option.splits)
  have inv: "storage_inv r w1"
    using wpE_InrD [OF dirs_storage_inv [OF dirs_StoreObject [OF r assms(2)] assms(1)] m] .
  from wpE_InrD [OF StoreObject_wp [OF r assms(2)] m]
  have st: "blobs r w1 uuid = Some data" "BlobID m = uuid" "ChecksumMD5 m = md5Hex data"
    "stream_error (map store_chunk st) = None"
    by (auto simp: rd)
  from h_RetrieveObject_spec [OF assms(3) inv assms(2), of sendErr2 ctx2 0 0] st resp assms(6)
  show ?thesis by (auto simp: blob_range_def)
qed


theorem upload_download_roundtrip_witness:
  "\<exists>resp w1. h_StoreObject example_codec example_repo ''ab1'' Background None
       [Inr (StoreHeader None [] ''hel''), Inr (StoreChunk ''lo'')] example_world = (Inr resp, w1) \<and>
     respChecksumMd5 resp = md5Hex ''hello''"
proof -
  have m: "marshal_manifest example_codec ''ab1'' ''staged'' = Inr ''ab1staged''"
    by (simp add: example_codec_def)
  obtain resp w1 where run: "h_StoreObject example_codec example_repo ''ab1'' Background None
       (Inr (StoreHeader None [] ''hel'') # [Inr (StoreChunk ''lo'')]) example_world = (Inr resp, w1)"
    using calm_h_StoreObject [OF example_repo_ok example_id(1) example_calm _ _ m example_ready, of Background
        "[Inr (StoreChunk ''lo'')]" "[]" "''hel''"]
    by (auto simp: Background_def store_chunk_def)
  from upload_download_roundtrip [OF example_inv example_id(1) _ run, of 1 "''hello''"] run show ?thesis
    by (auto simp: store_chunk_def maxInt64_def)
qed

text \<open>
  C8. An abort does not check its upload id: with the empty id the path of the session is the
  directory of all uploads, and a calm abort deletes every staged file of every upload.
\<close>

theorem abort_empty_id_deletes_all_uploads:
  assumes "calm w" "ctx_done c = None" "is_dir w (stagingUploadsPath r)"
  shows "\<exists>w'. h_AbortMultipartUpload r c [] w = (Inr True, w') \<and>
    (\<forall>q. prefix (stagingUploadsPath r) q \<longrightarrow> files w' q = None)"
proof -
  have p: "multipartSessionPath r [] = stagingUploadsPath r"
    by (simp add: multipartSessionPath_def Join_empty)
  have "wpE (h_AbortMultipartUpload r c []) (\<lambda>x w'. x = True \<and>
      (\<forall>q. prefix (stagingUploadsPath r) q \<longrightarrow> files w' q = None)) (\<lambda>_ _. False) w"
    unfolding h_AbortMultipartUpload_def AbortMultipartUpload_def CleanupMultipart_def wp p
  proof (rule calm_ctxErr [OF assms(2)], goal_cases)
    case (1 w1)
    then have w1: "calm w1" "is_dir w1 (stagingUploadsPath r)"
      using assms calm_step by auto
    then have "fs_lookup (nodes w1) (stagingUploadsPath r) = Inr Dir"
      by (simp add: is_dir_def fs_lookup_Dir)
    then show ?case
      using w1(1)
      by (simp add: os_RemoveAll_def wpE_def sys_update_def Let_def calm_def fs_removeall_def)
        (simp add: files_def file_at_def split: option.splits)
  qed
  from wpE_succeeds [OF this] show ?thesis by auto
qed

theorem abort_empty_id_deletes_all_uploads_witness:
  "let w = example_world\<lparr>nodes := fmap_of_list
       [([''data'', ''staging'', ''uploads''], Dir), ([''data'', ''staging'', ''uploads'', ''u1'', ''part_00001''], File ''x'')]\<rparr> in
   files w [''data'', ''staging'', ''uploads'', ''u1'', ''part_00001''] = Some ''x'' \<and>
   (\<exists>w'. h_AbortMultipartUpload example_repo Background [] w = (Inr True, w') \<and>
      files w' [''data'', ''staging'', ''uploads'', ''u1'', ''part_00001''] = None)"
proof -
  let ?w = "example_world\<lparr>nodes := fmap_of_list
       [([''data'', ''staging'', ''uploads''], Dir), ([''data'', ''staging'', ''uploads'', ''u1'', ''part_00001''], File ''x'')]\<rparr>"
  have p: "stagingUploadsPath example_repo = [''data'', ''staging'', ''uploads'']"
    by (simp add: uploadsPath_eq example_repo_def stagingUploadsDirname_def)
  have "calm ?w" "is_dir ?w (stagingUploadsPath example_repo)"
    by (simp_all add: calm_def example_world_def p is_dir_def dir_at_def)
  from abort_empty_id_deletes_all_uploads [OF this(1) _ this(2), of Background]
  obtain w' where w': "h_AbortMultipartUpload example_repo Background [] ?w = (Inr True, w')"
    "\<And>q. prefix [''data'', ''staging'', ''uploads''] q \<Longrightarrow> files w' q = None"
    unfolding p by (auto simp: Background_def)
  moreover have "files w' [''data'', ''staging'', ''uploads'', ''u1'', ''part_00001''] = None"
    by (rule w'(2)) simp
  ultimately show ?thesis
    unfolding Let_def by (auto simp: files_def file_at_def)
qed

end
