(* ===== verification/Storage_Smoke.thy ===== *)
theory Storage_Smoke
  imports Storage_Props
begin

text \<open>
  The smoke command of the storage service, \<open>services/storage/cmd/multipart-smoke\<close>: a client that
  uploads two parts in chunks, completes the upload, downloads the blob and compares what it got
  with what it sent. It runs here against the handlers of the model; the network between them may
  fail on each call, before, while or after the server runs it. A command-line flag is a field of
  \<open>smoke_config\<close>, and the id the server generates is a parameter.
\<close>

section \<open>The network\<close>

text \<open>
  How a call may fail: the request is lost, the request stream is cut after some messages, or the
  response is lost. The client sees the error in each case.
\<close>

datatype net_fault = Request_lost go_error | Stream_cut nat go_error | Response_lost go_error

definition unary_call :: "net_fault option \<Rightarrow> 'a fsop \<Rightarrow> 'a fsop" where
  "unary_call net server =
    (case net of
       None \<Rightarrow> (\<lambda>w. case server w of (r, w') \<Rightarrow> (handleError_result r, w'))
     | Some (Response_lost e) \<Rightarrow> bindE (ignoreE server) (\<lambda>_. throwE e)
     | Some (Stream_cut k e) \<Rightarrow> throwE e
     | Some (Request_lost e) \<Rightarrow> throwE e)"

text \<open>A client-streaming call: \<open>server sendErr st\<close> is the handler on the stream it receives.\<close>

definition upload_call :: "net_fault option \<Rightarrow> (go_error option \<Rightarrow> 'm stream \<Rightarrow> 'a fsop) \<Rightarrow> 'm list \<Rightarrow> 'a fsop" where
  "upload_call net server msgs =
    (case net of
       None \<Rightarrow> (\<lambda>w. case server None (map Inr msgs) w of (r, w') \<Rightarrow> (handleError_result r, w'))
     | Some (Response_lost e) \<Rightarrow> bindE (ignoreE (server (Some e) (map Inr msgs))) (\<lambda>_. throwE e)
     | Some (Stream_cut k e) \<Rightarrow> bindE (ignoreE (server None (map Inr (take k msgs) @ [Inl e]))) (\<lambda>_. throwE e)
     | Some (Request_lost e) \<Rightarrow> throwE e)"

section \<open>The client\<close>

record smoke_config =
  contentTypeFlag :: string
  partOne :: bytes
  partTwo :: bytes
  chunkSizeFlag :: int

definition initiateMultipart :: "json_codec \<Rightarrow> repo \<Rightarrow> string \<Rightarrow> net_fault option \<Rightarrow> ctx \<Rightarrow> string \<Rightarrow> string fsop" where
  "initiateMultipart js r uuid net c ct = unary_call net (h_InitiateMultipartUpload js r uuid c 2 ct)"

text \<open>
  The sending loop of \<open>uploadPart\<close> over a \<open>bytes.Reader\<close> with a buffer of \<open>k > 0\<close> bytes: the
  first message is the header, with the first chunk if there is one. (\<open>main\<close> refuses \<open>k = 0\<close>.)
\<close>

function part_messages :: "nat \<Rightarrow> string \<Rightarrow> int \<Rightarrow> bytes \<Rightarrow> bool \<Rightarrow> part_msg list" where
  "part_messages k u n rest first =
    (if rest = [] \<or> k = 0 then (if first then [PartHeader u n []] else [])
     else (if first then PartHeader u n (take k rest) else PartChunk (take k rest))
        # part_messages k u n (drop k rest) False)"
  by auto
termination
  by (relation "measure (\<lambda>(k, u, n, rest, first). length rest)") auto

declare part_messages.simps [simp del]

definition client_uploadPart :: "repo \<Rightarrow> net_fault option \<Rightarrow> ctx \<Rightarrow> string \<Rightarrow> int \<Rightarrow> bytes \<Rightarrow> nat \<Rightarrow> string fsop" where
  "client_uploadPart r net c u n data chunkSize =
     upload_call net (h_UploadPart r c) (part_messages chunkSize u n data True)"

definition completeMultipart ::
  "json_codec \<Rightarrow> repo \<Rightarrow> net_fault option \<Rightarrow> ctx \<Rightarrow> string \<Rightarrow> string \<Rightarrow> string \<Rightarrow> (string \<times> string) fsop" where
  "completeMultipart js r net c u checksumOne checksumTwo =
    bindE (unary_call net (h_CompleteMultipartUpload js r c u [(1, checksumOne), (2, checksumTwo)])) (\<lambda>resp.
    returnE (respBlobId resp, respChecksumMd5 resp))"

text \<open>The receiving loop: the bytes of the messages, unless the stream ends with an error.\<close>

definition retrieveBlob ::
  "repo \<Rightarrow> nat \<Rightarrow> net_fault option \<Rightarrow> ctx \<Rightarrow> string \<Rightarrow> fs_world \<Rightarrow> ((go_error + bytes) \<times> fs_world) option" where
  "retrieveBlob r chunk net c blobID w =
    (case net of
       Some (Request_lost e) \<Rightarrow> Some (Inl e, w)
     | Some (Stream_cut k e) \<Rightarrow>
        map_option (\<lambda>(res, ms, w'). (Inl e, w')) (h_RetrieveObject r chunk (\<lambda>i. if i < k then None else Some e) c blobID 0 0 w)
     | Some (Response_lost e) \<Rightarrow>
        map_option (\<lambda>(res, ms, w'). (Inl e, w')) (h_RetrieveObject r chunk (\<lambda>_. None) c blobID 0 0 w)
     | None \<Rightarrow>
        map_option (\<lambda>(res, ms, w'). (handleError_result (case res of Inr _ \<Rightarrow> Inr (concat (map respData ms)) | Inl err \<Rightarrow> Inl err), w'))
          (h_RetrieveObject r chunk (\<lambda>_. None) c blobID 0 0 w))"

datatype smoke_failure =
    Bad_chunk_size | Initiate_failed go_error | Part_failed int go_error | Complete_failed go_error
  | Retrieve_failed go_error | Body_mismatch | Checksum_mismatch

definition smoke_upload ::
  "json_codec \<Rightarrow> repo \<Rightarrow> string \<Rightarrow> (nat \<Rightarrow> net_fault option) \<Rightarrow> ctx \<Rightarrow> smoke_config \<Rightarrow> fs_world
    \<Rightarrow> (smoke_failure + string \<times> string) \<times> fs_world" where
  "smoke_upload js r uuid net c cfg w =
    (case initiateMultipart js r uuid (net 0) c (contentTypeFlag cfg) w of
       (Inl err, w1) \<Rightarrow> (Inl (Initiate_failed err), w1)
     | (Inr u, w1) \<Rightarrow>
    (case client_uploadPart r (net 1) c u 1 (partOne cfg) (nat (chunkSizeFlag cfg)) w1 of
       (Inl err, w2) \<Rightarrow> (Inl (Part_failed 1 err), w2)
     | (Inr checksumOne, w2) \<Rightarrow>
    (case client_uploadPart r (net 2) c u 2 (partTwo cfg) (nat (chunkSizeFlag cfg)) w2 of
       (Inl err, w3) \<Rightarrow> (Inl (Part_failed 2 err), w3)
     | (Inr checksumTwo, w3) \<Rightarrow>
    (case completeMultipart js r (net 3) c u checksumOne checksumTwo w3 of
       (Inl err, w4) \<Rightarrow> (Inl (Complete_failed err), w4)
     | (Inr blob, w4) \<Rightarrow> (Inr blob, w4)))))"

text \<open>\<open>main\<close>: the failure it reports, or none for \<open>multipart smoke OK\<close>.\<close>

definition smoke_main ::
  "json_codec \<Rightarrow> repo \<Rightarrow> nat \<Rightarrow> string \<Rightarrow> (nat \<Rightarrow> net_fault option) \<Rightarrow> ctx \<Rightarrow> smoke_config \<Rightarrow> fs_world
    \<Rightarrow> (smoke_failure option \<times> fs_world) option" where
  "smoke_main js r chunk uuid net c cfg w =
    (if chunkSizeFlag cfg < 1 then Some (Some Bad_chunk_size, w)
     else
     (case smoke_upload js r uuid net c cfg w of
        (Inl failure, w4) \<Rightarrow> Some (Some failure, w4)
      | (Inr (blobID, finalChecksum), w4) \<Rightarrow>
         (case retrieveBlob r chunk (net 4) c blobID w4 of
            None \<Rightarrow> None
          | Some (Inl err, w5) \<Rightarrow> Some (Some (Retrieve_failed err), w5)
          | Some (Inr body, w5) \<Rightarrow>
             let expectedBody = partOne cfg @ partTwo cfg; expectedChecksum = md5Hex expectedBody in
             if body \<noteq> expectedBody then Some (Some Body_mismatch, w5)
             else if finalChecksum \<noteq> expectedChecksum then Some (Some Checksum_mismatch, w5)
             else Some (None, w5))))"

section \<open>What the calls deliver\<close>

lemma part_messages_chunks:
  "0 < k \<Longrightarrow> part_messages k u n rest False = map PartChunk (chunks k rest)"
  by (induction rest rule: length_induct)
    (subst part_messages.simps, subst chunks.simps, auto)

lemma part_messages_header:
  "0 < k \<Longrightarrow> part_messages k u n data True = PartHeader u n (take k data) # map PartChunk (chunks k (drop k data))"
  by (subst part_messages.simps) (simp add: part_messages_chunks chunks.simps)

lemma part_stream:
  "stream_data (map (part_chunk \<circ> (Inr \<circ> PartChunk)) cs) = concat cs"
  "stream_error (map (part_chunk \<circ> (Inr \<circ> PartChunk)) cs) = None"
  by (induction cs) (simp_all add: part_chunk_def)

text \<open>A call that the client sees succeed has succeeded on the server.\<close>

lemma handleError_result_Inr:
  assumes "handleError_result r = Inr x"
  shows "r = Inr x"
  using assms by (cases r) (auto simp: handleError_result_def split: option.splits)

lemma unary_call_Inr: "unary_call net server w = (Inr x, w') \<Longrightarrow> server w = (Inr x, w')"
  by (auto simp: unary_call_def opE_defs dest!: handleError_result_Inr split: option.splits net_fault.splits prod.splits sum.splits)

lemma upload_call_Inr: "upload_call net server msgs w = (Inr x, w') \<Longrightarrow> server None (map Inr msgs) w = (Inr x, w')"
  by (auto simp: upload_call_def opE_defs dest!: handleError_result_Inr split: option.splits net_fault.splits prod.splits sum.splits)

lemma client_uploadPart_Inr:
  assumes "client_uploadPart r net c u n data k w = (Inr cks, w')" "0 < k" "blob_id_ok u" "1 \<le> n"
  shows "cks = md5Hex data \<and> files w' (multipartPartPath r u n) = Some data \<and>
    same_files_except (\<lambda>q. q = multipartPartPath r u n \<or> temp_of (multipartPartPath r u n) q) w w'"
proof -
  let ?cs = "chunks k (drop k data)"
  let ?rd = "chunk_reads copyBufferSize (newChunkStreamReader (take k data) (map part_chunk (map Inr (map PartChunk ?cs))))"
  have run: "h_UploadPart r c None (Inr (PartHeader u n (take k data)) # map Inr (map PartChunk ?cs)) w = (Inr cks, w')"
    using upload_call_Inr assms(1,2) by (fastforce simp: client_uploadPart_def part_messages_header)
  have "u \<noteq> []" using assms(3) by (auto simp: blob_id_ok_def)
  with run assms(4) have "StorePart r c u n ?rd w = (Inr cks, w')"
    by (auto simp: h_UploadPart_def readUploadPartStream_def recvFirstMessage_def UploadPart_def SendAndClose_def opE_defs
        split: prod.splits sum.splits)
  from wpE_InrD [OF StorePart_wp [OF assms(3)] this]
  have "cks = md5Hex (reads_data ?rd)" "files w' (multipartPartPath r u n) = Some (reads_data ?rd)"
    "same_files_except (\<lambda>q. q = multipartPartPath r u n \<or> temp_of (multipartPartPath r u n) q) w w'" by blast+
  moreover have "reads_data ?rd = take k data @ concat ?cs"
    using chunk_reads_spec [of copyBufferSize "newChunkStreamReader (take k data) (map part_chunk (map Inr (map PartChunk ?cs)))"]
    by (simp add: newChunkStreamReader_def copyBufferSize_def part_stream)
  ultimately show ?thesis using assms(2) by (simp add: concat_chunks)
qed

text \<open>The session file that the first call writes names its own id, if the codec reads back what it wrote.\<close>

definition codec_ok :: "json_codec \<Rightarrow> bool" where
  "codec_ok js = (\<forall>m d. marshal_session js m = Inr d \<longrightarrow> unmarshal_session js d = Inr m)"

lemma initiateMultipart_Inr:
  assumes "initiateMultipart js r uuid net c ct w = (Inr u, w')" "blob_id_ok uuid" "codec_ok js"
  shows "u = uuid \<and> session_dest js r w' u u u \<and> files w' (multipartMetaPath r u) \<noteq> None \<and>
    same_files_except (\<lambda>q. q = multipartMetaPath r u) w w'"
proof -
  have h: "h_InitiateMultipartUpload js r uuid c 2 ct w = (Inr u, w')"
    using assms(1) unfolding initiateMultipart_def by (rule unary_call_Inr)
  define ct' where "ct' = (if ct = [] then defaultContentType else ct)"
  obtain res w1 where run: "CreateMultipartSession js r c uuid 2 ct' w = (res, w1)" by (rule prod.exhaust)
  with h have ok: "res = Inr ()" "w1 = w'" "u = uuid"
    by (cases res; simp add: h_InitiateMultipartUpload_def InitiateMultipartUpload_def Let_def bindE_def returnE_def
        flip: ct'_def)+
  from wpE_InrD [OF CreateMultipartSession_wp [OF assms(2)] run [unfolded ok]] assms(3) ok(3) show ?thesis
    by (auto simp: session_dest_def codec_ok_def)
qed

lemma session_dest_same:
  "files w' (multipartMetaPath r u) = files w (multipartMetaPath r u) \<Longrightarrow>
     session_dest js r w' u d i = session_dest js r w u d i"
  by (simp add: session_dest_def)

text \<open>
  The whole upload: if every call succeeds, the blob is the concatenation of the two parts and the
  answered checksum is its MD5.
\<close>

lemma smoke_upload_Inr:
  assumes "smoke_upload js r uuid net c cfg w = (Inr (b, cks), w')" "1 \<le> chunkSizeFlag cfg"
    and r: "repo_ok r" "blob_id_ok uuid" "codec_ok js" "files w (completedMultipartMetaPath r uuid) = None"
  shows "b = uuid \<and> blobs r w' uuid = Some (partOne cfg @ partTwo cfg) \<and> cks = md5Hex (partOne cfg @ partTwo cfg)"
proof -
  let ?k = "nat (chunkSizeFlag cfg)" and ?p = "multipartPartPath r uuid"
  from assms(1) obtain u w1 c1 w2 c2 w3 where
    i: "initiateMultipart js r uuid (net 0) c (contentTypeFlag cfg) w = (Inr u, w1)" and
    p1: "client_uploadPart r (net 1) c u 1 (partOne cfg) ?k w1 = (Inr c1, w2)" and
    p2: "client_uploadPart r (net 2) c u 2 (partTwo cfg) ?k w2 = (Inr c2, w3)" and
    m: "completeMultipart js r (net 3) c u c1 c2 w3 = (Inr (b, cks), w')"
    by (auto simp: smoke_upload_def split: prod.splits sum.splits)
  have k: "0 < ?k" using assms(2) by simp
  from initiateMultipart_Inr [OF i r(2,3)] have u: "u = uuid" and dest: "session_dest js r w1 uuid uuid uuid"
    and s1: "same_files_except (\<lambda>q. q = multipartMetaPath r uuid) w w1" by auto
  from client_uploadPart_Inr [OF p1 k] u r(2) have c1: "c1 = md5Hex (partOne cfg)" "files w2 (?p 1) = Some (partOne cfg)"
    and s2: "same_files_except (\<lambda>q. q = ?p 1 \<or> temp_of (?p 1) q) w1 w2" by auto
  from client_uploadPart_Inr [OF p2 k] u r(2) have c2: "c2 = md5Hex (partTwo cfg)" "files w3 (?p 2) = Some (partTwo cfg)"
    and s3: "same_files_except (\<lambda>q. q = ?p 2 \<or> temp_of (?p 2) q) w2 w3" by auto
  have fmt: "fmt_05d 1 = ''00001''" "fmt_05d 2 = ''00002''" by code_simp+
  note paths = storage_paths [OF r(2)] fmt temp_of_def filepath_Dir_def filepath_Base_def butlast_append
    stagingManifestFilename_def stagingUploadsDirname_def multipartCompletionDirname_def
  have "files w3 (?p 1) = Some (partOne cfg)"
    using same_filesD [OF s3, of "?p 1"] c1(2) by (simp add: paths)
  moreover have "files w3 (completedMultipartMetaPath r uuid) = None"
    using same_filesD [OF s3, of "completedMultipartMetaPath r uuid"] same_filesD [OF s2, of "completedMultipartMetaPath r uuid"]
      same_filesD [OF s1, of "completedMultipartMetaPath r uuid"] r(4) by (simp add: paths)
  moreover have "files w3 (multipartMetaPath r uuid) = files w1 (multipartMetaPath r uuid)"
    using same_filesD [OF s3, of "multipartMetaPath r uuid"] same_filesD [OF s2, of "multipartMetaPath r uuid"] by (simp add: paths)
  then have "session_dest js r w3 uuid uuid uuid" using dest session_dest_same by metis
  moreover obtain bm where bm: "CompleteMultipartUpload js r c uuid
      [\<lparr>PartNumber = 1, PartChecksumMD5 = c1\<rparr>, \<lparr>PartNumber = 2, PartChecksumMD5 = c2\<rparr>] w3 = (Inr bm, w')"
      "b = BlobID bm" "cks = ChecksumMD5 bm"
    using m u
    by (auto simp: completeMultipart_def h_CompleteMultipartUpload_def opE_defs dest!: unary_call_Inr split: prod.splits sum.splits)
  ultimately obtain ds where ds: "list_all2 (part_matches r w3 uuid)
      [\<lparr>PartNumber = 1, PartChecksumMD5 = c1\<rparr>, \<lparr>PartNumber = 2, PartChecksumMD5 = c2\<rparr>] ds"
    "blobs r w' = (blobs r w3)(uuid \<mapsto> concat ds)" "BlobID bm = uuid" "ChecksumMD5 bm = md5Hex (concat ds)"
    using wpE_InrD [OF CompleteMultipartUpload_wp [OF r(1,2)] bm(1)] by auto
  have "ds = [partOne cfg, partTwo cfg]"
    using ds(1) c2(2) \<open>files w3 (?p 1) = Some (partOne cfg)\<close> by (auto simp: list_all2_Cons1 part_matches_def)
  with ds bm show ?thesis by simp
qed

section \<open>The smoke test\<close>

lemma file_no_dir: "files w p = Some d \<Longrightarrow> \<not> is_dir w p"
  by (auto simp: files_def is_dir_def file_at_def dir_at_def split: option.splits node.splits)

lemma retrieveBlob_returns:
  assumes "0 < chunk" "blob_id_ok i" "blobs r w i = Some d" "int (length d) \<le> maxInt64"
  shows "\<exists>res w'. retrieveBlob r chunk net c i w = Some (res, w') \<and> blobs r w' = blobs r w \<and> (\<forall>x. res = Inr x \<longrightarrow> x = d)"
proof -
  have nd: "\<not> is_dir w (blobPath r i)" using assms(2,3) by (auto simp: blobs_def dest: file_no_dir)
  have get: "\<exists>res ms w'. h_RetrieveObject r chunk sendErr c i 0 0 w = Some (res, ms, w') \<and> blobs r w' = blobs r w \<and>
      (res = Inr () \<longrightarrow> concat (map respData ms) = d)" for sendErr
    using h_RetrieveObject_no_dir [OF assms(1) nd assms(2), of sendErr c 0 0] assms(3,4)
    by (auto simp: blob_range_def sent_data_def)
  show ?thesis
  proof (cases net)
    case None
    obtain res ms w' where run: "h_RetrieveObject r chunk (\<lambda>_. None) c i 0 0 w = Some (res, ms, w')" "blobs r w' = blobs r w"
        "res = Inr () \<Longrightarrow> concat (map respData ms) = d" using get [of "\<lambda>_. None"] by blast
    let ?body = "case res of Inr _ \<Rightarrow> Inr (concat (map respData ms)) | Inl err \<Rightarrow> Inl err"
    have "retrieveBlob r chunk net c i w = Some (handleError_result ?body, w')"
      by (simp add: None retrieveBlob_def run(1))
    moreover have "x = d" if "handleError_result ?body = Inr x" for x
      using handleError_result_Inr [OF that] run(3) by (cases res) auto
    ultimately show ?thesis using run(2) by blast
  next
    case (Some f)
    then show ?thesis
    proof (cases f)
      case (Stream_cut k e)
      with Some get [of "\<lambda>j. if j < k then None else Some e"] show ?thesis by (auto simp: retrieveBlob_def)
    next
      case (Response_lost e)
      with Some get [of "\<lambda>_. None"] show ?thesis by (auto simp: retrieveBlob_def)
    qed (simp add: retrieveBlob_def)
  qed
qed

text \<open>
  C34. The multipart path end to end, through the handlers and over a network and a disk that may
  fail at any point: the smoke command always ends, never because the downloaded bytes or the
  final checksum differ from what was uploaded, and when it reports success the blob is the two
  parts in order. The upload id is fresh and the session codec reads back what it wrote.
\<close>

theorem smoke_never_mismatches:
  assumes "repo_ok r" "blob_id_ok uuid" "codec_ok js" "files w (completedMultipartMetaPath r uuid) = None" "0 < chunk"
    and "int (length (partOne cfg @ partTwo cfg)) \<le> maxInt64"
  shows "\<exists>res w'. smoke_main js r chunk uuid net c cfg w = Some (res, w') \<and>
    res \<noteq> Some Body_mismatch \<and> res \<noteq> Some Checksum_mismatch \<and>
    (res = None \<longrightarrow> blobs r w' uuid = Some (partOne cfg @ partTwo cfg))"
proof (cases "chunkSizeFlag cfg < 1")
  case True
  then show ?thesis by (simp add: smoke_main_def)
next
  case False
  obtain res w4 where up: "smoke_upload js r uuid net c cfg w = (res, w4)" by (rule prod.exhaust)
  show ?thesis
  proof (cases res)
    case (Inl f)
    have "f \<noteq> Body_mismatch \<and> f \<noteq> Checksum_mismatch"
      using up Inl by (auto simp: smoke_upload_def split: prod.splits sum.splits)
    with False up Inl show ?thesis by (simp add: smoke_main_def)
  next
    case (Inr bc)
    obtain b cks where bc: "bc = (b, cks)" by (rule prod.exhaust)
    note uploaded = smoke_upload_Inr [OF up [unfolded Inr bc] _ assms(1-4)]
    from uploaded False have d: "b = uuid" "blobs r w4 uuid = Some (partOne cfg @ partTwo cfg)" "cks = md5Hex (partOne cfg @ partTwo cfg)"
      by auto
    from retrieveBlob_returns [OF assms(5,2) d(2) assms(6), of "net 4" c] obtain res' w5 where
      "retrieveBlob r chunk (net 4) c uuid w4 = Some (res', w5)" "blobs r w5 = blobs r w4"
      "\<And>x. res' = Inr x \<Longrightarrow> x = partOne cfg @ partTwo cfg" by blast
    with False up Inr bc d show ?thesis by (cases res') (auto simp: smoke_main_def Let_def)
  qed
qed

definition example_smoke :: smoke_config where
  "example_smoke = \<lparr>contentTypeFlag = ''text/plain'', partOne = ''hello '', partTwo = ''world'', chunkSizeFlag = 3\<rparr>"

definition smoke_codec :: json_codec where
  "smoke_codec = example_codec\<lparr>
     marshal_session := (\<lambda>m. if m = \<lparr>ExpectedParts = 2, SessionContentType = ''text/plain'', SessionBlobID = ''ab1''\<rparr>
        then Inr ''s'' else Inl EOF),
     unmarshal_session := (\<lambda>d. Inr \<lparr>ExpectedParts = 2, SessionContentType = ''text/plain'', SessionBlobID = ''ab1''\<rparr>)\<rparr>"

theorem smoke_never_mismatches_witness:
  "\<exists>res w'. smoke_main smoke_codec example_repo 4 ''ab1'' (\<lambda>k. if k = 2 then Some (Stream_cut 1 EOF) else None) Background
       example_smoke example_world = Some (res, w') \<and> res \<noteq> Some Body_mismatch \<and> res \<noteq> Some Checksum_mismatch"
proof -
  have "codec_ok smoke_codec" by (simp add: codec_ok_def smoke_codec_def)
  from smoke_never_mismatches [OF example_repo_ok example_id(1) this, of example_world 4 example_smoke
      "\<lambda>k. if k = 2 then Some (Stream_cut 1 EOF) else None" Background]
  show ?thesis by (auto simp: example_smoke_def maxInt64_def)
qed

end
