(* ===== verification/Transaction.thy ===== *)
theory Transaction
  imports Contextx
begin

text \<open>
  The transaction manager of go-kit, \<open>client/db/transaction\<close>, over any database that can
  begin, commit and roll back, and the way \<open>client/db/pg\<close> picks the executor of a statement.

  A handler returns a result or panics; \<open>outcome\<close> has both. The handler's result variables are
  set in its closure and read only after a successful transaction, so they are the value of the
  outcome.
\<close>

datatype 'a outcome = Returned "go_error + 'a" | Panicked string

record 'w transactor =
  BeginTx :: "'w \<Rightarrow> (go_error + nat) \<times> 'w"
  Commit :: "nat \<Rightarrow> 'w \<Rightarrow> (go_error + unit) \<times> 'w"
  Rollback :: "nat \<Rightarrow> 'w \<Rightarrow> (go_error + unit) \<times> 'w"

text \<open>
  The deferred function: a panic becomes an error, an error rolls back, no error commits.
  \<open>errors.Wrap\<close> of pkg/errors keeps the wrapped error reachable for \<open>errors.Is\<close>.
\<close>

definition tx_deferred :: "'w transactor \<Rightarrow> nat \<Rightarrow> 'a outcome \<Rightarrow> 'w \<Rightarrow> (go_error + 'a) \<times> 'w" where
  "tx_deferred db tx out w =
    (case (case out of
             Panicked r \<Rightarrow> Inl (ErrorString (''panic recovered: '' @ r))
           | Returned (Inl err) \<Rightarrow> Inl (WrapError ''failed executing code inside transaction'' err)
           | Returned (Inr x) \<Rightarrow> Inr x) of
       Inl err \<Rightarrow>
        (case Rollback db tx w of
           (Inl errRollback, w') \<Rightarrow> (Inl (WrapError (''errRollback: '' @ error_text errRollback) err), w')
         | (Inr _, w') \<Rightarrow> (Inl err, w'))
     | Inr x \<Rightarrow>
        (case Commit db tx w of
           (Inl err, w') \<Rightarrow> (Inl (WrapError ''tx commit failed'' err), w')
         | (Inr _, w') \<Rightarrow> (Inr x, w')))"

definition transaction :: "'w transactor \<Rightarrow> ctx \<Rightarrow> (ctx \<Rightarrow> 'w \<Rightarrow> 'a outcome \<times> 'w) \<Rightarrow> 'w \<Rightarrow> 'a outcome \<times> 'w" where
  "transaction db ctx fn w =
    (case ExtractTx ctx of
       Some _ \<Rightarrow> fn ctx w
     | None \<Rightarrow>
        (case BeginTx db w of
           (Inl err, w1) \<Rightarrow> (Returned (Inl (WrapError ''can't begin transaction'' err)), w1)
         | (Inr tx, w1) \<Rightarrow>
            (case fn (InjectTx ctx tx) w1 of
               (out, w2) \<Rightarrow> (case tx_deferred db tx out w2 of (res, w3) \<Rightarrow> (Returned res, w3)))))"

text \<open>\<open>ReadCommitted\<close> with a handler that does not panic, as an operation.\<close>

definition ReadCommitted :: "'w transactor \<Rightarrow> ctx \<Rightarrow> (ctx \<Rightarrow> ('w, go_error, 'a) op) \<Rightarrow> ('w, go_error, 'a) op" where
  "ReadCommitted db ctx f = (\<lambda>w.
    case transaction db ctx (\<lambda>c v. case f c v of (r, v') \<Rightarrow> (Returned r, v')) w of
      (Returned r, w') \<Rightarrow> (r, w')
    | (Panicked p, w') \<Rightarrow> (Inl (ErrorString p), w'))"

section \<open>What a transaction promises\<close>

text \<open>
  An interface of a database for the manager: \<open>view\<close> is the state a session sees, and
  \<open>snap\<close> what it was when the open transaction began. A commit that reports an error may have
  been applied by the server or not.
\<close>

locale transactional =
  fixes db :: "'w transactor" and view :: "'w \<Rightarrow> 's" and snap :: "'w \<Rightarrow> 's option"
  assumes begin_law: "snap w = None \<Longrightarrow> wpE (BeginTx db)
      (\<lambda>_ w'. view w' = view w \<and> snap w' = Some (view w)) (\<lambda>_ w'. view w' = view w \<and> snap w' = None) w"
    and commit_law: "snap w = Some s \<Longrightarrow> wpE (Commit db tx)
      (\<lambda>_ w'. view w' = view w \<and> snap w' = None) (\<lambda>_ w'. view w' \<in> {s, view w} \<and> snap w' = None) w"
    and rollback_law: "snap w = Some s \<Longrightarrow> wpE (Rollback db tx)
      (\<lambda>_ w'. view w' = s \<and> snap w' = None) (\<lambda>_ w'. view w' = s \<and> snap w' = None) w"
begin

text \<open>
  All or nothing: a handler that keeps the snapshot alone has its effect exactly when it returned
  no error and the commit went through.
\<close>

lemma transaction_atomic:
  assumes "snap w = None" "ExtractTx ctx = None"
    and run: "transaction db ctx fn w = (res, w')"
    and keeps: "\<And>c v. snap (snd (fn c v)) = snap v"
  shows "snap w' = None \<and>
    (case res of
       Panicked _ \<Rightarrow> False
     | Returned (Inr x) \<Rightarrow>
         \<exists>tx w1 w2. BeginTx db w = (Inr tx, w1) \<and> view w1 = view w \<and>
           fn (InjectTx ctx tx) w1 = (Returned (Inr x), w2) \<and> view w' = view w2
     | Returned (Inl e) \<Rightarrow> view w' = view w \<or>
         (\<exists>x tx w1 w2. BeginTx db w = (Inr tx, w1) \<and> fn (InjectTx ctx tx) w1 = (Returned (Inr x), w2) \<and> view w' = view w2))"
proof (cases "BeginTx db w")
  case (Pair r1 w1)
  note started = begin_law [OF assms(1), unfolded wpE_def Pair]
  show ?thesis
  proof (cases r1)
    case (Inl e)
    with run Pair started assms(2) show ?thesis by (auto simp: transaction_def)
  next
    case (Inr tx)
    obtain out w2 where fn: "fn (InjectTx ctx tx) w1 = (out, w2)" by fastforce
    obtain r3 w3 where d: "tx_deferred db tx out w2 = (r3, w3)" by fastforce
    have res: "res = Returned r3" "w' = w3"
      using run Pair Inr fn d assms(2) by (auto simp: transaction_def)
    have w1: "view w1 = view w" "snap w1 = Some (view w)" using started Inr by auto
    then have s2: "snap w2 = Some (view w)" using keeps [of "InjectTx ctx tx" w1] fn by simp
    note com = commit_law [OF s2, of tx, unfolded wpE_def]
      and roll = rollback_law [OF s2, of tx, unfolded wpE_def]
    show ?thesis
    proof (cases "\<exists>x. out = Returned (Inr x)")
      case True
      then obtain x where x: "out = Returned (Inr x)" by blast
      with d com fn Pair Inr w1 show ?thesis
        by (auto simp: res tx_deferred_def split: prod.splits sum.splits)
    next
      case False
      then have "(case out of Panicked r \<Rightarrow> Inl (ErrorString (''panic recovered: '' @ r))
           | Returned (Inl err) \<Rightarrow> Inl (WrapError ''failed executing code inside transaction'' err)
           | Returned (Inr x) \<Rightarrow> Inr x) = Inl (case out of Panicked r \<Rightarrow> ErrorString (''panic recovered: '' @ r)
           | Returned (Inl err) \<Rightarrow> WrapError ''failed executing code inside transaction'' err)"
        by (auto split: outcome.splits sum.splits)
      with d roll show ?thesis
        by (auto simp: res tx_deferred_def split: prod.splits sum.splits)
    qed
  qed
qed

text \<open>The same as a rule for the clients: what the handler establishes holds after the commit.\<close>

lemma ReadCommitted_wp:
  assumes "snap w = None" "ExtractTx ctx = None"
    and keeps: "\<And>c. preserves (f c) snap"
    and body: "\<And>tx w1. BeginTx db w = (Inr tx, w1) \<Longrightarrow> view w1 = view w \<Longrightarrow>
      wpE (f (InjectTx ctx tx)) (\<lambda>x w2. Q x (view w2)) (\<lambda>_ _. True) w1"
  shows "wpE (ReadCommitted db ctx f) (\<lambda>x w'. snap w' = None \<and> Q x (view w'))
    (\<lambda>_ w'. snap w' = None \<and> (view w' = view w \<or> (\<exists>x. Q x (view w')))) w"
proof -
  let ?fn = "\<lambda>c v. case f c v of (r, v') \<Rightarrow> (Returned r, v')"
  obtain res w' where run: "transaction db ctx ?fn w = (res, w')" by fastforce
  have "snap (snd (?fn c v)) = snap v" for c v
    using keeps [of c] by (auto simp: preserves_def split_beta)
  note atomic = transaction_atomic [OF assms(1,2) run this]
  have effect: "Q x (view w')"
    if "BeginTx db w = (Inr tx, w1)" "?fn (InjectTx ctx tx) w1 = (Returned (Inr x), w2)" "view w' = view w2"
    for x tx w1 w2
  proof -
    have "view w1 = view w" using begin_law [OF assms(1)] that(1) by (simp add: wpE_def)
    from body [OF that(1) this] that(2,3) show ?thesis by (auto simp: wpE_def split: prod.splits)
  qed
  show ?thesis
    using atomic run effect unfolding wpE_def ReadCommitted_def
    by (auto split: outcome.splits sum.splits) blast+
qed

end

text \<open>What the database's begin, commit and rollback and the handler leave alone is preserved.\<close>

lemma preserves_ReadCommitted:
  assumes "preserves (BeginTx db) g" "\<And>tx. preserves (Commit db tx) g" "\<And>tx. preserves (Rollback db tx) g"
    and "\<And>c. preserves (f c) g"
  shows "preserves (ReadCommitted db ctx f) g"
proof (rule preservesI)
  fix w
  have f: "f c v = (r, v') \<Longrightarrow> g v' = g v" for c v r v' using assms(4) preservesD by metis
  have d: "tx_deferred db tx out v = (r, v') \<Longrightarrow> g v' = g v" for tx out v r v'
    using preservesD [OF assms(2)] preservesD [OF assms(3)]
    by (auto simp: tx_deferred_def split: sum.splits prod.splits outcome.splits)
  have b: "BeginTx db v = (r, v') \<Longrightarrow> g v' = g v" for v r v' using preservesD [OF assms(1)] .
  show "g (snd (ReadCommitted db ctx f w)) = g w"
    by (auto simp: ReadCommitted_def transaction_def dest!: f d b split: option.splits prod.splits sum.splits outcome.splits)
qed

text \<open>A nested transaction joins the one in its context.\<close>

lemma transaction_nested: "ExtractTx ctx = Some tx \<Longrightarrow> transaction db ctx fn w = fn ctx w"
  by (simp add: transaction_def)

text \<open>The error of the handler stays reachable through the wrapping.\<close>

lemma transaction_error_code:
  assumes "ExtractTx ctx = None" "BeginTx db w = (Inr tx, w1)"
    and "f (InjectTx ctx tx) w1 = (Inl err, w2)" "as_common err = Some c"
  shows "\<exists>e w'. ReadCommitted db ctx f w = (Inl e, w') \<and> as_common e = Some c"
  using assms
  by (auto simp: ReadCommitted_def transaction_def tx_deferred_def split: prod.splits sum.splits)

end
