(* ===== verification/Metadata_DB.thy ===== *)
theory Metadata_DB
  imports Transaction
begin

text \<open>
  The database of the metadata service: the tables of \<open>services/metadata/migrations\<close> with the
  constraints the statements can meet, and the effect of a statement on them.

  Postgres is not part of the repository. What the sources rely on is modelled from its
  documentation, and what it leaves open is a parameter: \<open>pg_env\<close> has the parser of the type
  UUID, the strings a TEXT column accepts and the order of the database's collation. Every call
  to the database takes one tick and fails as \<open>db_faults\<close> says; a failing commit may have been
  applied or not. New ids and the clock are choices of the world.
\<close>

section \<open>Tables\<close>

datatype VersionKind = VersionKindBlob | VersionKindDeleteMarker
datatype VersionState = VersionStatePending | VersionStateCommitted | VersionStateAborted
datatype ObjectStatus = ObjectStatusActive | ObjectStatusUploading | ObjectStatusDeleting

record Bucket =
  b_ID :: string
  b_Name :: string
  b_OwnerID :: string
  b_CreatedAt :: int

record Object =
  o_ID :: string
  o_BucketID :: string
  o_Key :: string
  o_CurrentVersionID :: "string option"
  o_PendingVersionID :: "string option"
  o_Status :: ObjectStatus

record Version =
  v_ID :: string
  v_ObjectID :: string
  v_BlobID :: "string option"
  v_SizeBytes :: int
  v_Etag :: string
  v_ContentType :: string
  v_VersionNumber :: int
  v_Kind :: VersionKind
  v_State :: VersionState
  v_CreatedAt :: int
  v_CommittedAt :: "int option"
  v_AbortedAt :: "int option"

record tables =
  buckets :: "Bucket list"
  objects :: "Object list"
  versions :: "Version list"

section \<open>The world of the metadata service\<close>

record pg_env =
  uuid_in :: "string \<Rightarrow> string option"
  text_in :: "string \<Rightarrow> bool"
  collate_less :: "string \<Rightarrow> string \<Rightarrow> bool"

datatype db_fault = ConnLost | QueryCanceled

fun db_fault_error :: "db_fault \<Rightarrow> go_error" where
  "db_fault_error ConnLost = ErrorString ''conn closed''"
| "db_fault_error QueryCanceled = PgError ''57014''"

text \<open>An event handed to Kafka: topic, key and value.\<close>

record event =
  ev_topic :: string
  ev_key :: bytes
  ev_value :: bytes

record md_world = clocked +
  tables :: tables
  saved :: "tables option"
  db_faults :: "nat \<Rightarrow> (db_fault \<times> bool) option"
  new_uuid :: "nat \<Rightarrow> string"
  wall :: "nat \<Rightarrow> int"
  events :: "event list"

type_synonym 'a mdop = "(md_world, go_error, 'a) op"

text \<open>
  A statement computes from the tables its result and the new tables, or fails with a Postgres
  error and no effect; a fault of the connection leaves the tables as they are.
\<close>

definition pg_statement :: "(md_world \<Rightarrow> go_error + ('a \<times> tables)) \<Rightarrow> 'a mdop" where
  "pg_statement f = (\<lambda>w. let w' = w\<lparr>now := Suc (now w)\<rparr> in
     case db_faults w (now w) of
       Some (e, _) \<Rightarrow> (Inl (db_fault_error e), w')
     | None \<Rightarrow> (case f w of Inl e \<Rightarrow> (Inl e, w') | Inr (x, t) \<Rightarrow> (Inr x, w'\<lparr>tables := t\<rparr>)))"

definition pg_select :: "(md_world \<Rightarrow> go_error + 'a) \<Rightarrow> 'a mdop" where
  "pg_select f = pg_statement (\<lambda>w. case f w of Inl e \<Rightarrow> Inl e | Inr x \<Rightarrow> Inr (x, tables w))"

text \<open>\<open>begin\<close>, \<open>commit\<close> and \<open>rollback\<close> of a connection.\<close>

definition pg_BeginTx :: "md_world \<Rightarrow> (go_error + nat) \<times> md_world" where
  "pg_BeginTx = (\<lambda>w. let w' = w\<lparr>now := Suc (now w)\<rparr> in
     case db_faults w (now w) of
       Some (e, _) \<Rightarrow> (Inl (db_fault_error e), w')
     | None \<Rightarrow> (Inr (now w), w'\<lparr>saved := Some (tables w)\<rparr>))"

definition pg_Commit :: "nat \<Rightarrow> md_world \<Rightarrow> (go_error + unit) \<times> md_world" where
  "pg_Commit tx = (\<lambda>w. let w' = w\<lparr>now := Suc (now w), saved := None\<rparr> in
     case db_faults w (now w) of
       Some (e, applied) \<Rightarrow>
         (Inl (db_fault_error e),
          if applied then w' else w'\<lparr>tables := (case saved w of Some t \<Rightarrow> t | None \<Rightarrow> tables w)\<rparr>)
     | None \<Rightarrow> (Inr (), w'))"

definition pg_Rollback :: "nat \<Rightarrow> md_world \<Rightarrow> (go_error + unit) \<times> md_world" where
  "pg_Rollback tx = (\<lambda>w.
     let w' = w\<lparr>now := Suc (now w), saved := None,
                tables := (case saved w of Some t \<Rightarrow> t | None \<Rightarrow> tables w)\<rparr> in
     case db_faults w (now w) of Some (e, _) \<Rightarrow> (Inl (db_fault_error e), w') | None \<Rightarrow> (Inr (), w'))"

definition pg_transactor :: "md_world transactor" where
  "pg_transactor = \<lparr>BeginTx = pg_BeginTx, Commit = pg_Commit, Rollback = pg_Rollback\<rparr>"

interpretation metadata_db: transactional pg_transactor "tables" saved
  by unfold_locales
    (auto simp: pg_transactor_def pg_BeginTx_def pg_Commit_def pg_Rollback_def wpE_def Let_def
      split: option.splits prod.splits)

section \<open>LIKE\<close>

text \<open>
  The operator LIKE on UTF-8 text with the default escape character: a percent sign matches any
  sequence, an underscore one character, a backslash takes the next byte literally.
\<close>

definition utf8_cont :: "char \<Rightarrow> bool" where
  "utf8_cont c = (128 \<le> (of_char c :: nat) \<and> (of_char c :: nat) < 192)"

definition next_char :: "string \<Rightarrow> string" where
  "next_char s = dropWhile utf8_cont (tl s)"

lemma length_next_char: "length (next_char s) \<le> length s"
  using length_dropWhile_le [of utf8_cont "tl s"] by (cases s) (auto simp: next_char_def)

function sql_like :: "string \<Rightarrow> string \<Rightarrow> bool" where
  "sql_like [] s = (s = [])"
| "sql_like (c # p) s =
    (if c = CHR ''%'' then
       (if s = [] then sql_like p s else sql_like p s \<or> sql_like (c # p) (tl s))
     else if s = [] then False
     else if c = CHR ''_'' then sql_like p (next_char s)
     else if c = CHR 0x5C then
       (case p of [] \<Rightarrow> False | d # p' \<Rightarrow> hd s = d \<and> sql_like p' (tl s))
     else hd s = c \<and> sql_like p (tl s))"
  by pat_completeness auto
termination
  by (relation "measure (\<lambda>(p, s). length p + length s)")
    (auto simp: length_next_char le_imp_less_Suc add_mono neq_Nil_conv)

declare sql_like.simps [simp del]

text \<open>A pattern without the three special bytes and a final percent sign is a prefix test.\<close>

definition like_plain :: "string \<Rightarrow> bool" where
  "like_plain p = list_all (\<lambda>c. c \<noteq> CHR ''%'' \<and> c \<noteq> CHR ''_'' \<and> c \<noteq> CHR 0x5C) p"

lemma sql_like_percent: "sql_like ''%'' s"
proof (induction s)
  case (Cons c s)
  then show ?case by (subst sql_like.simps(2)) simp
qed (simp add: sql_like.simps(1) sql_like.simps(2) [of "CHR ''%''" "[]" "[]"])

lemma sql_like_plain: "like_plain p \<Longrightarrow> sql_like (p @ ''%'') s \<longleftrightarrow> prefix p s"
proof (induction p arbitrary: s)
  case Nil
  then show ?case by (simp add: sql_like_percent)
next
  case (Cons c p)
  then show ?case by (cases s) (auto simp: sql_like.simps(2) [of c "p @ ''%''"] like_plain_def)
qed

end
