(* ===== verification/Metadata_Repo.thy ===== *)
theory Metadata_Repo
  imports Metadata_DB
begin

text \<open>
  The repositories of the metadata service, \<open>services/metadata/internal/repository\<close>: each SQL
  statement as a function on the tables, and each repository method with its error handling.
\<close>

section \<open>Domain errors\<close>

definition ErrBucketNotFound :: go_error where
  "ErrBucketNotFound = NewCommonError ''bucket not found'' NotFound"
definition ErrObjectNotFound :: go_error where
  "ErrObjectNotFound = NewCommonError ''object not found'' NotFound"
definition ErrBucketAlreadyExists :: go_error where
  "ErrBucketAlreadyExists = NewCommonError ''bucket already exists'' AlreadyExists"
definition ErrBucketNotEmpty :: go_error where
  "ErrBucketNotEmpty = NewCommonError ''bucket is not empty'' FailedPrecondition"
definition ErrInternal :: go_error where
  "ErrInternal = NewCommonError ''internal error'' Internal"

lemmas metadata_errors = ErrBucketNotFound_def ErrObjectNotFound_def ErrBucketAlreadyExists_def
  ErrBucketNotEmpty_def ErrInternal_def NewCommonError_def

section \<open>Parameters and results of a statement\<close>

text \<open>A TEXT parameter Postgres refuses, and one of type UUID it cannot read.\<close>

definition text_arg :: "pg_env \<Rightarrow> string \<Rightarrow> go_error option" where
  "text_arg env s = (if text_in env s then None else Some (PgError ''22021''))"

definition uuid_arg :: "pg_env \<Rightarrow> string \<Rightarrow> go_error + string" where
  "uuid_arg env s = (case uuid_in env s of Some u \<Rightarrow> Inr u | None \<Rightarrow> Inl (PgError ''22P02''))"

text \<open>\<open>Row.Scan\<close> takes the first row; \<open>pgxscan.ScanOne\<close> insists on exactly one.\<close>

fun scan_row :: "'a list \<Rightarrow> go_error + 'a" where
  "scan_row [] = Inl ErrNoRows"
| "scan_row (x # xs) = Inr x"

fun scan_one :: "'a list \<Rightarrow> go_error + 'a" where
  "scan_one [] = Inl ErrNoRows"
| "scan_one [x] = Inr x"
| "scan_one (x # y # xs) = Inl (ErrorString ''scany: expected 1 row'')"

definition bucket_named :: "tables \<Rightarrow> string \<Rightarrow> Bucket list" where
  "bucket_named t name = filter (\<lambda>b. b_Name b = name) (buckets t)"

section \<open>Buckets\<close>

definition insert_bucket :: "tables \<Rightarrow> Bucket \<Rightarrow> go_error + (Bucket \<times> tables)" where
  "insert_bucket t b =
    (if \<exists>b' \<in> set (buckets t). b_Name b' = b_Name b \<or> b_ID b' = b_ID b then Inl (PgError ''23505'')
     else Inr (b, t\<lparr>buckets := buckets t @ [b]\<rparr>))"

definition bucket_Create :: "pg_env \<Rightarrow> string \<Rightarrow> string \<Rightarrow> Bucket mdop" where
  "bucket_Create env name ownerID =
    catchE (pg_statement (\<lambda>w.
        case text_arg env name of Some e \<Rightarrow> Inl e
        | None \<Rightarrow>
        case uuid_arg env ownerID of Inl e \<Rightarrow> Inl e
        | Inr owner \<Rightarrow>
          insert_bucket (tables w)
            \<lparr>b_ID = new_uuid w (now w), b_Name = name, b_OwnerID = owner, b_CreatedAt = wall w (now w)\<rparr>))
      (\<lambda>err. if as_pgerror err = Some ''23505'' then throwE ErrBucketAlreadyExists else throwE err)"

definition bucket_Get :: "pg_env \<Rightarrow> string \<Rightarrow> Bucket mdop" where
  "bucket_Get env name =
    catchE (pg_select (\<lambda>w.
        case text_arg env name of Some e \<Rightarrow> Inl e
        | None \<Rightarrow> scan_one (take 1 (bucket_named (tables w) name))))
      (\<lambda>err. if errors_Is err ErrNoRows then throwE ErrBucketNotFound else throwE err)"

definition bucket_Head :: "pg_env \<Rightarrow> string \<Rightarrow> (bool \<times> string \<times> string) mdop" where
  "bucket_Head env name =
    bindE (tryE (pg_select (\<lambda>w.
        case text_arg env name of Some e \<Rightarrow> Inl e
        | None \<Rightarrow> scan_row (take 1 (bucket_named (tables w) name))))) (\<lambda>row.
    case row of
      Inl err \<Rightarrow> if errors_Is err ErrNoRows then returnE (False, [], []) else throwE err
    | Inr b \<Rightarrow> returnE (True, b_ID b, b_OwnerID b))"

definition bucket_List :: "pg_env \<Rightarrow> string \<Rightarrow> Bucket list mdop" where
  "bucket_List env ownerID =
    pg_select (\<lambda>w.
      case uuid_arg env ownerID of Inl e \<Rightarrow> Inl e
      | Inr owner \<Rightarrow>
        Inr (sort_key (\<lambda>b. - b_CreatedAt b) (filter (\<lambda>b. b_OwnerID b = owner) (buckets (tables w)))))"

text \<open>\<open>ON DELETE CASCADE\<close>: with a bucket go its objects, with an object its versions.\<close>

definition drop_objects :: "(Object \<Rightarrow> bool) \<Rightarrow> tables \<Rightarrow> tables" where
  "drop_objects P t = t\<lparr>objects := filter (\<lambda>x. \<not> P x) (objects t),
     versions := filter (\<lambda>v. v_ObjectID v \<notin> o_ID ` set (filter P (objects t))) (versions t)\<rparr>"

definition delete_bucket :: "tables \<Rightarrow> string \<Rightarrow> nat \<times> tables" where
  "delete_bucket t bucketID =
    (length (filter (\<lambda>b. b_ID b = bucketID) (buckets t)),
     (if \<exists>b \<in> set (buckets t). b_ID b = bucketID
      then drop_objects (\<lambda>x. o_BucketID x = bucketID)
             (t\<lparr>buckets := filter (\<lambda>b. b_ID b \<noteq> bucketID) (buckets t)\<rparr>)
      else t))"

definition bucket_Delete :: "pg_env \<Rightarrow> string \<Rightarrow> unit mdop" where
  "bucket_Delete env bucketID =
    bindE (pg_statement (\<lambda>w.
        case uuid_arg env bucketID of Inl e \<Rightarrow> Inl e
        | Inr i \<Rightarrow> Inr (delete_bucket (tables w) i))) (\<lambda>rowsAffected.
    if rowsAffected = 0 then throwE ErrBucketNotFound else returnE ())"

definition bucket_CountObjects :: "pg_env \<Rightarrow> string \<Rightarrow> int mdop" where
  "bucket_CountObjects env bucketID =
    catchE (pg_select (\<lambda>w.
        case uuid_arg env bucketID of Inl e \<Rightarrow> Inl e
        | Inr i \<Rightarrow> Inr (int (length (filter (\<lambda>x. o_BucketID x = i) (objects (tables w)))))))
      (\<lambda>err. if errors_Is err ErrNoRows then returnE 0 else throwE err)"

section \<open>Objects\<close>

definition object_at :: "tables \<Rightarrow> string \<Rightarrow> string \<Rightarrow> Object list" where
  "object_at t bucketID key = filter (\<lambda>x. o_BucketID x = bucketID \<and> o_Key x = key) (objects t)"

text \<open>
  \<open>INSERT ... SELECT ... ON CONFLICT DO UPDATE ... RETURNING id\<close>: no row without the bucket,
  the existing row or a new one otherwise.
\<close>

definition upsert_object :: "tables \<Rightarrow> string \<Rightarrow> string \<Rightarrow> string \<Rightarrow> go_error + (string \<times> tables)" where
  "upsert_object t newID bucketName key =
    (case bucket_named t bucketName of
       [] \<Rightarrow> Inl ErrNoRows
     | b # _ \<Rightarrow>
        (case object_at t (b_ID b) key of
           x # _ \<Rightarrow> Inr (o_ID x, t)
         | [] \<Rightarrow>
            if \<exists>x \<in> set (objects t). o_ID x = newID then Inl (PgError ''23505'')
            else Inr (newID, t\<lparr>objects := objects t @ [\<lparr>o_ID = newID, o_BucketID = b_ID b, o_Key = key,
                    o_CurrentVersionID = None, o_PendingVersionID = None, o_Status = ObjectStatusActive\<rparr>]\<rparr>)))"

definition UpsertObject :: "pg_env \<Rightarrow> string \<Rightarrow> string \<Rightarrow> string mdop" where
  "UpsertObject env bucketName key =
    catchE (pg_statement (\<lambda>w.
        case text_arg env bucketName of Some e \<Rightarrow> Inl e
        | None \<Rightarrow>
        case text_arg env key of Some e \<Rightarrow> Inl e
        | None \<Rightarrow> upsert_object (tables w) (new_uuid w (now w)) bucketName key))
      (\<lambda>err. if errors_Is err ErrNoRows then throwE ErrBucketNotFound else throwE err)"

definition next_version_number :: "tables \<Rightarrow> string \<Rightarrow> int" where
  "next_version_number t objectID =
     foldr max (map v_VersionNumber (filter (\<lambda>v. v_ObjectID v = objectID) (versions t))) 0 + 1"

definition insert_version :: "tables \<Rightarrow> Version \<Rightarrow> go_error + tables" where
  "insert_version t v =
    (if \<exists>v' \<in> set (versions t). v_ID v' = v_ID v \<or>
         (v_ObjectID v' = v_ObjectID v \<and> v_VersionNumber v' = v_VersionNumber v)
     then Inl (PgError ''23505'')
     else if \<not> (\<exists>x \<in> set (objects t). o_ID x = v_ObjectID v) then Inl (PgError ''23503'')
     else Inr (t\<lparr>versions := versions t @ [v]\<rparr>))"

definition InsertVersion ::
  "pg_env \<Rightarrow> string \<Rightarrow> string \<Rightarrow> int \<Rightarrow> string \<Rightarrow> string \<Rightarrow> (string \<times> int) mdop" where
  "InsertVersion env objectID blobID sizeBytes etag contentType =
    bindE (pg_select (\<lambda>w. scan_row (map o_ID (filter (\<lambda>x. o_ID x = objectID) (objects (tables w)))))) (\<lambda>lockedObjectID.
    pg_statement (\<lambda>w.
      case uuid_arg env blobID of Inl e \<Rightarrow> Inl e
      | Inr blob \<Rightarrow>
      case text_arg env etag of Some e \<Rightarrow> Inl e
      | None \<Rightarrow>
      case text_arg env contentType of Some e \<Rightarrow> Inl e
      | None \<Rightarrow>
      let t = tables w; time = wall w (now w);
          v = \<lparr>v_ID = new_uuid w (now w), v_ObjectID = objectID, v_BlobID = Some blob,
               v_SizeBytes = sizeBytes, v_Etag = etag, v_ContentType = contentType,
               v_VersionNumber = next_version_number t objectID,
               v_Kind = VersionKindBlob, v_State = VersionStateCommitted,
               v_CreatedAt = time, v_CommittedAt = Some time, v_AbortedAt = None\<rparr> in
      (case insert_version t v of Inl e \<Rightarrow> Inl e | Inr t' \<Rightarrow> Inr ((v_ID v, time), t'))))"

definition set_current :: "tables \<Rightarrow> string \<Rightarrow> string \<Rightarrow> tables" where
  "set_current t objectID versionID =
     t\<lparr>objects := map (\<lambda>x. if o_ID x = objectID then x\<lparr>o_CurrentVersionID := Some versionID\<rparr> else x) (objects t)\<rparr>"

text \<open>The check that the two version pointers of an object differ.\<close>

definition SetCurrentVersion :: "string \<Rightarrow> string \<Rightarrow> unit mdop" where
  "SetCurrentVersion objectID versionID =
    pg_statement (\<lambda>w.
      if \<exists>x \<in> set (objects (tables w)). o_ID x = objectID \<and> o_PendingVersionID x = Some versionID
      then Inl (PgError ''23514'')
      else Inr ((), set_current (tables w) objectID versionID))"

record ObjectMeta =
  m_ObjectID :: string
  m_VersionID :: string
  m_BlobID :: string
  m_SizeBytes :: int
  m_Etag :: string
  m_ContentType :: string
  m_LastModified :: int

text \<open>The rows of the joins in \<open>GetMeta\<close> and \<open>List\<close>: a visible object with one of its versions.\<close>

definition live_version :: "Version \<Rightarrow> bool" where
  "live_version v = (v_Kind v = VersionKindBlob \<and> v_State v = VersionStateCommitted)"

definition meta_rows :: "tables \<Rightarrow> string \<Rightarrow> string \<Rightarrow> (Object \<Rightarrow> Version \<Rightarrow> bool) \<Rightarrow> (Object \<times> Version) list" where
  "meta_rows t bucketName key P =
    concat (map (\<lambda>x. concat (map (\<lambda>b.
        map (Pair x) (filter (\<lambda>v. P x v \<and> live_version v) (versions t)))
      (filter (\<lambda>b. b_ID b = o_BucketID x) (bucket_named t bucketName))))
     (filter (\<lambda>x. o_Key x = key \<and> o_Status x = ObjectStatusActive) (objects t)))"

text \<open>Scanning a NULL blob id into a Go string fails.\<close>

definition meta_of_row :: "Object \<times> Version \<Rightarrow> go_error + ObjectMeta" where
  "meta_of_row row = (case row of (x, v) \<Rightarrow>
    (case v_BlobID v of
       None \<Rightarrow> Inl (ErrorString ''cannot scan null into *string'')
     | Some blob \<Rightarrow> Inr \<lparr>m_ObjectID = o_ID x, m_VersionID = v_ID v, m_BlobID = blob,
         m_SizeBytes = v_SizeBytes v, m_Etag = v_Etag v, m_ContentType = v_ContentType v,
         m_LastModified = v_CreatedAt v\<rparr>))"

definition scan_meta :: "(Object \<times> Version) list \<Rightarrow> go_error + ObjectMeta" where
  "scan_meta rows = (case scan_one rows of Inl e \<Rightarrow> Inl e | Inr row \<Rightarrow> meta_of_row row)"

definition GetMeta :: "pg_env \<Rightarrow> string \<Rightarrow> string \<Rightarrow> string \<Rightarrow> ObjectMeta mdop" where
  "GetMeta env bucketName key versionID =
    catchE (pg_select (\<lambda>w.
        case text_arg env bucketName of Some e \<Rightarrow> Inl e
        | None \<Rightarrow>
        case text_arg env key of Some e \<Rightarrow> Inl e
        | None \<Rightarrow>
        if versionID \<noteq> [] then
          (case uuid_arg env versionID of Inl e \<Rightarrow> Inl e
           | Inr vid \<Rightarrow>
             scan_meta (meta_rows (tables w) bucketName key (\<lambda>x v. v_ID v = vid \<and> v_ObjectID v = o_ID x)))
        else scan_meta (meta_rows (tables w) bucketName key (\<lambda>x v. o_CurrentVersionID x = Some (v_ID v)))))
      (\<lambda>err. if errors_Is err ErrNoRows then throwE ErrObjectNotFound else throwE err)"

text \<open>
  \<open>DELETE ... RETURNING\<close>: the id of the deleted object and the blob of its current version,
  read before the cascade. Nothing else of the object's versions is returned.
\<close>

definition object_Delete :: "pg_env \<Rightarrow> string \<Rightarrow> string \<Rightarrow> (string \<times> string) mdop" where
  "object_Delete env bucketName key =
    bindE (catchE (pg_statement (\<lambda>w.
        case text_arg env bucketName of Some e \<Rightarrow> Inl e
        | None \<Rightarrow>
        case text_arg env key of Some e \<Rightarrow> Inl e
        | None \<Rightarrow>
        let t = tables w;
            P = (\<lambda>x. o_Key x = key \<and> (\<exists>b \<in> set (bucket_named t bucketName). b_ID b = o_BucketID x)) in
        (case filter P (objects t) of
           [] \<Rightarrow> Inl ErrNoRows
         | x # _ \<Rightarrow>
            Inr ((o_ID x,
                  (case filter (\<lambda>v. v_ObjectID v = o_ID x \<and> Some (v_ID v) = o_CurrentVersionID x) (versions t) of
                     [] \<Rightarrow> None | v # _ \<Rightarrow> v_BlobID v)),
                 drop_objects P t))))
      (\<lambda>err. if errors_Is err ErrNoRows then throwE ErrObjectNotFound else throwE err)) (\<lambda>(objectID, blobID).
    case blobID of
      None \<Rightarrow> returnE (objectID, [])
    | Some blob \<Rightarrow> returnE (objectID, blob))"

section \<open>Listing\<close>

record ObjectListItem =
  i_ObjectID :: string
  i_VersionID :: string
  i_Key :: string
  i_Etag :: string
  i_SizeBytes :: int
  i_ContentType :: string
  i_LastModified :: int

definition list_item :: "Object \<times> Version \<Rightarrow> ObjectListItem" where
  "list_item row = (case row of (x, v) \<Rightarrow>
     \<lparr>i_ObjectID = o_ID x, i_VersionID = v_ID v, i_Key = o_Key x, i_Etag = v_Etag v,
      i_SizeBytes = v_SizeBytes v, i_ContentType = v_ContentType v, i_LastModified = v_CreatedAt v\<rparr>)"

definition defaultMaxKeys :: int where
  "defaultMaxKeys = 1000"

definition list_rows :: "tables \<Rightarrow> string \<Rightarrow> (Object \<times> Version) list" where
  "list_rows t bucketName =
    concat (map (\<lambda>x. concat (map (\<lambda>b.
        map (Pair x) (filter (\<lambda>v. o_CurrentVersionID x = Some (v_ID v) \<and> live_version v) (versions t)))
      (filter (\<lambda>b. b_ID b = o_BucketID x) (bucket_named t bucketName))))
     (filter (\<lambda>x. o_Status x = ObjectStatusActive) (objects t)))"

text \<open>\<open>ORDER BY o.key ASC\<close> in the collation of the database.\<close>

fun insert_by :: "('a \<Rightarrow> 'a \<Rightarrow> bool) \<Rightarrow> 'a \<Rightarrow> 'a list \<Rightarrow> 'a list" where
  "insert_by lt x [] = [x]"
| "insert_by lt x (y # ys) = (if lt y x then y # insert_by lt x ys else x # y # ys)"

definition order_by :: "('a \<Rightarrow> 'a \<Rightarrow> bool) \<Rightarrow> 'a list \<Rightarrow> 'a list" where
  "order_by lt xs = foldr (insert_by lt) xs []"

definition list_query :: "pg_env \<Rightarrow> tables \<Rightarrow> string \<Rightarrow> string \<Rightarrow> string \<Rightarrow> ObjectListItem list" where
  "list_query env t bucketName pre continuationToken =
    order_by (\<lambda>a b. collate_less env (i_Key a) (i_Key b))
      (filter (\<lambda>i. (pre \<noteq> [] \<longrightarrow> sql_like (pre @ ''%'') (i_Key i)) \<and>
                 (continuationToken \<noteq> [] \<longrightarrow> collate_less env continuationToken (i_Key i)))
        (map list_item (list_rows t bucketName)))"

definition object_List ::
  "pg_env \<Rightarrow> string \<Rightarrow> string \<Rightarrow> string \<Rightarrow> int \<Rightarrow> (ObjectListItem list \<times> string \<times> bool) mdop" where
  "object_List env bucketName pre continuationToken maxKeys =
    (let maxKeys' = (if maxKeys \<le> 0 \<or> maxKeys > defaultMaxKeys then defaultMaxKeys else maxKeys) in
    bindE (pg_select (\<lambda>w.
        if \<not> (text_in env bucketName \<and> text_in env pre \<and> text_in env continuationToken) then Inl (PgError ''22021'')
        else Inr (take (nat maxKeys') (list_query env (tables w) bucketName pre continuationToken)))) (\<lambda>rows.
    let isTruncated = (int (length rows) = maxKeys');
        nextToken = (if isTruncated then i_Key (last rows) else []) in
    returnE (rows, nextToken, isTruncated)))"

end
