(* ===== verification/Metadata_Service.thy ===== *)
theory Metadata_Service
  imports Metadata_Repo
begin

text \<open>
  The services and gRPC handlers of the metadata service,
  \<open>services/metadata/internal/service\<close> and \<open>internal/handler/metadata\<close>, with the Kafka
  producer they publish deletions through. Timestamps are in microseconds; a handler answers
  milliseconds.
\<close>

section \<open>Publishing events\<close>

text \<open>
  \<open>producer.Send\<close> over sarama's synchronous producer, which may report an error for a message
  the brokers have in fact stored.
\<close>

definition producer_Send :: "string \<Rightarrow> bytes \<Rightarrow> bytes \<Rightarrow> unit mdop" where
  "producer_Send topic key value = (\<lambda>w.
     let w' = w\<lparr>now := Suc (now w)\<rparr>;
         w'' = w'\<lparr>events := events w @ [\<lparr>ev_topic = topic, ev_key = key, ev_value = value\<rparr>]\<rparr> in
     case db_faults w (now w) of
       Some (_, stored) \<Rightarrow> (Inl (ErrorString ''kafka: failed to deliver''), if stored then w'' else w')
     | None \<Rightarrow> (Inr (), w''))"

definition json_pair :: "string \<Rightarrow> string \<Rightarrow> string \<Rightarrow> string \<Rightarrow> bytes" where
  "json_pair k1 v1 k2 v2 =
    ''{'' @ json_string k1 @ '':'' @ json_string v1 @ '','' @ json_string k2 @ '':'' @ json_string v2 @ ''}''"

definition bucketDeletedEvent :: "string \<Rightarrow> string \<Rightarrow> bytes" where
  "bucketDeletedEvent bucketID bucketName = json_pair ''bucket_id'' bucketID ''bucket_name'' bucketName"

definition objectDeletedEvent :: "string \<Rightarrow> string \<Rightarrow> bytes" where
  "objectDeletedEvent objectID blobID = json_pair ''object_id'' objectID ''blob_id'' blobID"

section \<open>Buckets\<close>

definition required :: "string \<Rightarrow> string \<Rightarrow> go_error option" where
  "required value message = (if value = [] then Some (NewValidationErrors [message]) else None)"

definition CreateBucket :: "pg_env \<Rightarrow> string \<Rightarrow> string \<Rightarrow> Bucket mdop" where
  "CreateBucket env name ownerID =
    (case Validate [required name ''bucket name is required'', required ownerID ''owner_id is required''] of
       Some err \<Rightarrow> throwE err
     | None \<Rightarrow> bucket_Create env name ownerID)"

definition GetBucket :: "pg_env \<Rightarrow> string \<Rightarrow> Bucket mdop" where
  "GetBucket env name = bucket_Get env name"

definition HeadBucket :: "pg_env \<Rightarrow> string \<Rightarrow> (bool \<times> string \<times> string) mdop" where
  "HeadBucket env name = bucket_Head env name"

definition ListBuckets :: "pg_env \<Rightarrow> string \<Rightarrow> Bucket list mdop" where
  "ListBuckets env ownerID = bucket_List env ownerID"

text \<open>The handler of the transaction in \<open>DeleteBucket\<close>.\<close>

definition deleteBucketTx :: "pg_env \<Rightarrow> string \<Rightarrow> ctx \<Rightarrow> string mdop" where
  "deleteBucketTx env name ctx =
    bindE (bucket_Get env name) (\<lambda>bucket.
    bindE (bucket_CountObjects env (b_ID bucket)) (\<lambda>count.
    if count > 0 then throwE ErrBucketNotEmpty
    else bindE (bucket_Delete env (b_ID bucket)) (\<lambda>_. returnE (b_ID bucket))))"

definition DeleteBucket :: "pg_env \<Rightarrow> string \<Rightarrow> ctx \<Rightarrow> string \<Rightarrow> unit mdop" where
  "DeleteBucket env topic ctx name =
    bindE (ReadCommitted pg_transactor ctx (deleteBucketTx env name)) (\<lambda>bucketID.
    catchE (producer_Send topic bucketID (bucketDeletedEvent bucketID name)) (\<lambda>err. throwE ErrInternal))"

section \<open>Objects\<close>

text \<open>The handler of the transaction in \<open>CreateObjectVersion\<close>.\<close>

definition createVersionTx ::
  "pg_env \<Rightarrow> string \<Rightarrow> string \<Rightarrow> string \<Rightarrow> int \<Rightarrow> string \<Rightarrow> string \<Rightarrow> ctx \<Rightarrow> (string \<times> string \<times> int) mdop" where
  "createVersionTx env bucketName key blobID sizeBytes etag contentType ctx =
    bindE (UpsertObject env bucketName key) (\<lambda>objectID.
    bindE (InsertVersion env objectID blobID sizeBytes etag contentType) (\<lambda>(versionID, createdAt).
    bindE (SetCurrentVersion objectID versionID) (\<lambda>_.
    returnE (objectID, versionID, createdAt))))"

definition CreateObjectVersion ::
  "pg_env \<Rightarrow> ctx \<Rightarrow> string \<Rightarrow> string \<Rightarrow> string \<Rightarrow> int \<Rightarrow> string \<Rightarrow> string \<Rightarrow> (string \<times> string \<times> int) mdop" where
  "CreateObjectVersion env ctx bucketName key blobID sizeBytes etag contentType =
    (case Validate [required bucketName ''bucket_name is required'', required key ''key is required'',
                    required blobID ''blob_id is required''] of
       Some err \<Rightarrow> throwE err
     | None \<Rightarrow> ReadCommitted pg_transactor ctx
                 (createVersionTx env bucketName key blobID sizeBytes etag contentType))"

definition GetObjectMeta :: "pg_env \<Rightarrow> string \<Rightarrow> string \<Rightarrow> string \<Rightarrow> ObjectMeta mdop" where
  "GetObjectMeta env bucketName key versionID = GetMeta env bucketName key versionID"

definition ListObjects ::
  "pg_env \<Rightarrow> string \<Rightarrow> string \<Rightarrow> string \<Rightarrow> int \<Rightarrow> (ObjectListItem list \<times> string \<times> bool) mdop" where
  "ListObjects env bucketName pre continuationToken maxKeys =
     object_List env bucketName pre continuationToken maxKeys"

definition DeleteObjectMeta :: "pg_env \<Rightarrow> string \<Rightarrow> string \<Rightarrow> string \<Rightarrow> (string \<times> string) mdop" where
  "DeleteObjectMeta env topic bucketName key =
    bindE (object_Delete env bucketName key) (\<lambda>(objectID, blobID).
    bindE (catchE (producer_Send topic objectID (objectDeletedEvent objectID blobID))
             (\<lambda>err. throwE ErrInternal)) (\<lambda>_.
    returnE (objectID, blobID)))"

text \<open>\<open>HealthCheck\<close>: a ping of the database and a metadata refresh of the Kafka client.\<close>

definition metadata_HealthCheck :: "(bool \<times> bool) mdop" where
  "metadata_HealthCheck =
    bindE (tryE (pg_select (\<lambda>w. Inr ()))) (\<lambda>pg.
    bindE (tryE (pg_select (\<lambda>w. Inr ()))) (\<lambda>kafka.
    returnE (pg = Inr (), kafka = Inr ())))"

section \<open>Handlers\<close>

definition UnixMilli :: "int \<Rightarrow> int" where
  "UnixMilli t = t div 1000"

record BucketInfo =
  bi_BucketId :: string
  bi_Name :: string
  bi_OwnerId :: string
  bi_CreatedAt :: int

definition bucket_info :: "Bucket \<Rightarrow> BucketInfo" where
  "bucket_info b = \<lparr>bi_BucketId = b_ID b, bi_Name = b_Name b, bi_OwnerId = b_OwnerID b,
     bi_CreatedAt = UnixMilli (b_CreatedAt b)\<rparr>"

definition mh_CreateBucket :: "pg_env \<Rightarrow> string \<Rightarrow> string \<Rightarrow> (string \<times> int) mdop" where
  "mh_CreateBucket env name ownerId =
    bindE (CreateBucket env name ownerId) (\<lambda>bucket.
    returnE (b_ID bucket, UnixMilli (b_CreatedAt bucket)))"

definition mh_DeleteBucket :: "pg_env \<Rightarrow> string \<Rightarrow> ctx \<Rightarrow> string \<Rightarrow> bool mdop" where
  "mh_DeleteBucket env topic ctx bucketName =
    bindE (DeleteBucket env topic ctx bucketName) (\<lambda>_. returnE True)"

definition mh_GetBucket :: "pg_env \<Rightarrow> string \<Rightarrow> BucketInfo mdop" where
  "mh_GetBucket env bucketName = bindE (GetBucket env bucketName) (\<lambda>bucket. returnE (bucket_info bucket))"

definition mh_HeadBucket :: "pg_env \<Rightarrow> string \<Rightarrow> (bool \<times> string \<times> string) mdop" where
  "mh_HeadBucket env bucketName =
    bindE (HeadBucket env bucketName) (\<lambda>(exists, bucketID, ownerID). returnE (exists, bucketID, ownerID))"

definition mh_ListBuckets :: "pg_env \<Rightarrow> string \<Rightarrow> BucketInfo list mdop" where
  "mh_ListBuckets env ownerId =
    bindE (ListBuckets env ownerId) (\<lambda>bs. returnE (map bucket_info bs))"

record CreateObjectVersionResponse =
  cv_ObjectId :: string
  cv_VersionId :: string
  cv_CreatedAt :: int

definition mh_CreateObjectVersion ::
  "pg_env \<Rightarrow> ctx \<Rightarrow> string \<Rightarrow> string \<Rightarrow> string \<Rightarrow> int \<Rightarrow> string \<Rightarrow> string \<Rightarrow> CreateObjectVersionResponse mdop" where
  "mh_CreateObjectVersion env ctx bucketName key blobId sizeBytes etag contentType =
    bindE (CreateObjectVersion env ctx bucketName key blobId sizeBytes etag contentType)
      (\<lambda>(objectID, versionID, createdAt).
    returnE \<lparr>cv_ObjectId = objectID, cv_VersionId = versionID, cv_CreatedAt = UnixMilli createdAt\<rparr>)"

definition mh_GetObjectMeta :: "pg_env \<Rightarrow> string \<Rightarrow> string \<Rightarrow> string \<Rightarrow> ObjectMeta mdop" where
  "mh_GetObjectMeta env bucketName key versionId =
    bindE (GetObjectMeta env bucketName key versionId) (\<lambda>meta.
    returnE (meta\<lparr>m_LastModified := UnixMilli (m_LastModified meta)\<rparr>))"

definition mh_ListObjects ::
  "pg_env \<Rightarrow> string \<Rightarrow> string \<Rightarrow> string \<Rightarrow> int \<Rightarrow> (ObjectListItem list \<times> string \<times> bool) mdop" where
  "mh_ListObjects env bucketName pre continuationToken maxKeys =
    bindE (ListObjects env bucketName pre continuationToken maxKeys) (\<lambda>(items, nextToken, isTruncated).
    returnE (map (\<lambda>i. i\<lparr>i_LastModified := UnixMilli (i_LastModified i)\<rparr>) items, nextToken, isTruncated))"

definition mh_DeleteObjectMeta :: "pg_env \<Rightarrow> string \<Rightarrow> string \<Rightarrow> string \<Rightarrow> (string \<times> string \<times> bool) mdop" where
  "mh_DeleteObjectMeta env topic bucketName key =
    bindE (DeleteObjectMeta env topic bucketName key) (\<lambda>(objectID, blobID). returnE (objectID, blobID, True))"

definition mh_HealthCheck :: "bool mdop" where
  "mh_HealthCheck =
    bindE metadata_HealthCheck (\<lambda>(pgOK, kafkaOK). returnE (pgOK \<and> kafkaOK))"

end
