(* ===== verification/Metadata_Spec.thy ===== *)
theory Metadata_Spec
  imports Metadata_Service
begin

text \<open>
  What the metadata service promises: the invariant of its tables, and that its operations act on
  a map from bucket and key to the current version of the object, with the history of versions
  kept and numbered.
\<close>

section \<open>The invariant\<close>

text \<open>The constraints of the schema, and what the service adds to them.\<close>

definition schema_ok :: "tables \<Rightarrow> bool" where
  "schema_ok t =
    (distinct (map b_ID (buckets t)) \<and> distinct (map b_Name (buckets t)) \<and>
     distinct (map o_ID (objects t)) \<and> distinct (map (\<lambda>x. (o_BucketID x, o_Key x)) (objects t)) \<and>
     distinct (map v_ID (versions t)) \<and> distinct (map (\<lambda>v. (v_ObjectID v, v_VersionNumber v)) (versions t)) \<and>
     (\<forall>x \<in> set (objects t). o_BucketID x \<in> b_ID ` set (buckets t) \<and>
        o_Status x = ObjectStatusActive \<and> o_PendingVersionID x = None) \<and>
     (\<forall>v \<in> set (versions t). v_ObjectID v \<in> o_ID ` set (objects t) \<and>
        1 \<le> v_VersionNumber v \<and> live_version v \<and> v_BlobID v \<noteq> None))"

text \<open>Between transactions every object has a current version: its own, and the latest.\<close>

definition latest :: "tables \<Rightarrow> Version \<Rightarrow> bool" where
  "latest t v = (\<forall>v' \<in> set (versions t). v_ObjectID v' = v_ObjectID v \<longrightarrow> v_VersionNumber v' \<le> v_VersionNumber v)"

definition current_ok :: "tables \<Rightarrow> Object \<Rightarrow> bool" where
  "current_ok t x = (\<exists>v \<in> set (versions t). o_CurrentVersionID x = Some (v_ID v) \<and>
     v_ObjectID v = o_ID x \<and> latest t v)"

definition db_ok :: "tables \<Rightarrow> bool" where
  "db_ok t = (schema_ok t \<and> (\<forall>x \<in> set (objects t). current_ok t x))"

section \<open>Unique rows\<close>

lemma filter_unique:
  assumes "distinct (map f xs)" "y \<in> set xs" "P y" "\<And>x. x \<in> set xs \<Longrightarrow> P x \<Longrightarrow> f x = f y"
  shows "filter P xs = [y]"
  using assms
proof (induction xs)
  case (Cons a xs)
  show ?case
  proof (cases "a = y")
    case True
    have "\<not> P x" if "x \<in> set xs" for x
    proof
      assume "P x"
      then have "f x = f y" using Cons.prems(4) that by simp
      with that True Cons.prems(1) show False by (metis distinct.simps(2) image_eqI list.simps(9) list.set_map)
    qed
    then have "filter P xs = []" by (simp add: filter_empty_conv)
    with True Cons.prems(3) show ?thesis by simp
  next
    case False
    then have y: "y \<in> set xs" using Cons.prems(2) by simp
    have "\<not> P a"
    proof
      assume "P a"
      then have "f a = f y" using Cons.prems(4) by simp
      with y Cons.prems(1) show False by (auto simp: image_iff)
    qed
    moreover have "filter P xs = [y]"
      using Cons.prems(1,3,4) by (intro Cons.IH y) auto
    ultimately show ?thesis by simp
  qed
qed simp

lemma concat_unique:
  assumes "distinct xs" "y \<in> set xs" "\<And>x. x \<in> set xs \<Longrightarrow> x \<noteq> y \<Longrightarrow> g x = []"
  shows "concat (map g xs) = g y"
  using assms
proof (induction xs)
  case (Cons a xs)
  show ?case
  proof (cases "a = y")
    case True
    with Cons.prems have "concat (map g xs) = []" by auto
    with True show ?thesis by simp
  next
    case False
    with Cons show ?thesis by auto
  qed
qed simp

section \<open>The current version of a key\<close>

definition current :: "tables \<Rightarrow> string \<Rightarrow> string \<Rightarrow> (Object \<times> Version) option" where
  "current t bucketName key =
    (case bucket_named t bucketName of [] \<Rightarrow> None
     | b # _ \<Rightarrow> (case object_at t (b_ID b) key of [] \<Rightarrow> None
       | x # _ \<Rightarrow> (case filter (\<lambda>v. o_CurrentVersionID x = Some (v_ID v)) (versions t) of [] \<Rightarrow> None
         | v # _ \<Rightarrow> Some (x, v))))"

lemma bucket_named_cases:
  assumes "schema_ok t"
  obtains "bucket_named t n = []" "\<And>b. b \<in> set (buckets t) \<Longrightarrow> b_Name b \<noteq> n"
  | b where "bucket_named t n = [b]" "b \<in> set (buckets t)" "b_Name b = n"
proof (cases "\<exists>b \<in> set (buckets t). b_Name b = n")
  case True
  then obtain b where "b \<in> set (buckets t)" "b_Name b = n" by blast
  moreover from this have "bucket_named t n = [b]"
    unfolding bucket_named_def using assms by (intro filter_unique [where f = b_Name]) (auto simp: schema_ok_def)
  ultimately show ?thesis using that(2) by blast
qed (auto intro: that(1) simp: bucket_named_def filter_empty_conv)

lemma object_at_cases:
  assumes "schema_ok t"
  obtains "object_at t b k = []" "\<And>x. x \<in> set (objects t) \<Longrightarrow> o_BucketID x = b \<Longrightarrow> o_Key x \<noteq> k"
  | x where "object_at t b k = [x]" "x \<in> set (objects t)" "o_BucketID x = b" "o_Key x = k"
proof (cases "\<exists>x \<in> set (objects t). o_BucketID x = b \<and> o_Key x = k")
  case True
  then obtain x where x: "x \<in> set (objects t)" "o_BucketID x = b" "o_Key x = k" by blast
  then have "object_at t b k = [x]"
    unfolding object_at_def using assms
    by (intro filter_unique [where f = "\<lambda>x. (o_BucketID x, o_Key x)"]) (auto simp: schema_ok_def)
  with x show ?thesis using that(2) by blast
qed (auto intro!: that(1) simp: object_at_def filter_empty_conv)

lemma bucket_inj:
  "schema_ok t \<Longrightarrow> b \<in> set (buckets t) \<Longrightarrow> b' \<in> set (buckets t) \<Longrightarrow> b_ID b = b_ID b' \<Longrightarrow> b = b'"
  by (simp add: schema_ok_def distinct_map inj_on_def)

lemma version_by_id:
  assumes "schema_ok t" "v \<in> set (versions t)"
  shows "filter (\<lambda>v'. Some (v_ID v) = Some (v_ID v') \<and> Q v') (versions t) = (if Q v then [v] else [])"
proof (cases "Q v")
  case True
  with assms have "filter (\<lambda>v'. Some (v_ID v) = Some (v_ID v') \<and> Q v') (versions t) = [v]"
    by (intro filter_unique [where f = v_ID]) (auto simp: schema_ok_def)
  with True show ?thesis by simp
next
  case False
  have "v' = v" if "v' \<in> set (versions t)" "v_ID v' = v_ID v" for v'
    using that assms by (auto simp: schema_ok_def distinct_map inj_on_def)
  with False show ?thesis by (auto simp: filter_empty_conv)
qed

text \<open>The query of \<open>GetMeta\<close> for the current version finds exactly that version.\<close>

lemma current_Some:
  assumes "db_ok t" "b \<in> set (buckets t)" "x \<in> set (objects t)" "o_BucketID x = b_ID b"
  obtains v where "current t (b_Name b) (o_Key x) = Some (x, v)" "v \<in> set (versions t)"
    "o_CurrentVersionID x = Some (v_ID v)" "v_ObjectID v = o_ID x" "latest t v"
proof -
  have s: "schema_ok t" using assms(1) by (simp add: db_ok_def)
  obtain v where v: "v \<in> set (versions t)" "o_CurrentVersionID x = Some (v_ID v)" "v_ObjectID v = o_ID x" "latest t v"
    using assms by (auto simp: db_ok_def current_ok_def)
  have b: "bucket_named t (b_Name b) = [b]"
    using assms(2) s unfolding bucket_named_def
    by (intro filter_unique [where f = b_Name]) (auto simp: schema_ok_def)
  have x: "object_at t (b_ID b) (o_Key x) = [x]"
    using assms(3,4) s unfolding object_at_def
    by (intro filter_unique [where f = "\<lambda>x. (o_BucketID x, o_Key x)"]) (auto simp: schema_ok_def)
  have "filter (\<lambda>v. o_CurrentVersionID x = Some (v_ID v)) (versions t) = [v]"
    using version_by_id [OF s v(1), of "\<lambda>_. True"] v(2) by simp
  then have "current t (b_Name b) (o_Key x) = Some (x, v)"
    by (simp add: current_def b x)
  with v show ?thesis using that by blast
qed

lemma meta_rows_current:
  assumes "db_ok t"
  shows "meta_rows t n k (\<lambda>x v. o_CurrentVersionID x = Some (v_ID v)) =
    (case current t n k of None \<Rightarrow> [] | Some r \<Rightarrow> [r])"
proof -
  have s: "schema_ok t" using assms by (simp add: db_ok_def)
  show ?thesis
  proof (cases rule: bucket_named_cases [OF s, of n])
    case 1
    then show ?thesis by (simp add: meta_rows_def current_def)
  next
    case (2 b)
    let ?g = "\<lambda>x. concat (map (\<lambda>b. map (Pair x)
      (filter (\<lambda>v. o_CurrentVersionID x = Some (v_ID v) \<and> live_version v) (versions t)))
      (filter (\<lambda>b. b_ID b = o_BucketID x) [b]))"
    let ?xs = "filter (\<lambda>x. o_Key x = k \<and> o_Status x = ObjectStatusActive) (objects t)"
    have rows: "meta_rows t n k (\<lambda>x v. o_CurrentVersionID x = Some (v_ID v)) = concat (map ?g ?xs)"
      by (simp add: meta_rows_def 2(1))
    show ?thesis
    proof (cases rule: object_at_cases [OF s, of "b_ID b" k])
      case none: 1
      have "b_ID b \<noteq> o_BucketID x" if "x \<in> set ?xs" for x
        using that none(2) [of x] by auto
      then have "concat (map ?g ?xs) = []" by simp
      with none rows show ?thesis by (simp add: current_def 2(1))
    next
      case x: (2 x)
      obtain v where v: "current t n k = Some (x, v)" "v \<in> set (versions t)" "o_CurrentVersionID x = Some (v_ID v)"
        using current_Some [OF assms 2(2) x(2,3)] 2(3) x(4) by metis
      have "concat (map ?g ?xs) = ?g x"
      proof (rule concat_unique)
        show "distinct ?xs" using s by (simp add: schema_ok_def distinct_map)
        show "x \<in> set ?xs" using x s by (auto simp: schema_ok_def)
        show "?g y = []" if "y \<in> set ?xs" "y \<noteq> x" for y
          using that x s by (auto simp: schema_ok_def distinct_map inj_on_def)
      qed
      also have "\<dots> = [(x, v)]"
        using version_by_id [OF s v(2), of live_version] v(2,3) x(3) s by (auto simp: schema_ok_def)
      finally show ?thesis using rows v(1) by simp
    qed
  qed
qed


lemma current_iff:
  assumes "schema_ok t"
  shows "current t n k = Some (x, v) \<longleftrightarrow>
    x \<in> set (objects t) \<and> o_Key x = k \<and> (\<exists>b \<in> set (buckets t). b_Name b = n \<and> b_ID b = o_BucketID x) \<and>
    v \<in> set (versions t) \<and> o_CurrentVersionID x = Some (v_ID v)"
    (is "?l \<longleftrightarrow> ?r")
proof
  assume ?l
  then show ?r
    by (auto simp: current_def bucket_named_def object_at_def filter_eq_Cons_iff split: list.splits)
next
  assume ?r
  then obtain b where b: "b \<in> set (buckets t)" "b_Name b = n" "b_ID b = o_BucketID x" by blast
  have "bucket_named t n = [b]"
    using b assms unfolding bucket_named_def by (intro filter_unique [where f = b_Name]) (auto simp: schema_ok_def)
  moreover have "object_at t (b_ID b) k = [x]"
    using b assms \<open>?r\<close> unfolding object_at_def
    by (intro filter_unique [where f = "\<lambda>x. (o_BucketID x, o_Key x)"]) (auto simp: schema_ok_def)
  moreover have "filter (\<lambda>v. o_CurrentVersionID x = Some (v_ID v)) (versions t) = [v]"
    using version_by_id [OF assms, of v "\<lambda>_. True"] \<open>?r\<close> by auto
  ultimately show ?l by (simp add: current_def)
qed

lemma current_eqI:
  assumes "\<And>x v. current t n k = Some (x, v) \<longleftrightarrow> current t' n' k' = Some (x, v)"
  shows "current t n k = current t' n' k'"
  using assms by (metis option.exhaust surj_pair)

section \<open>Effects of the statements\<close>

lemma insert_bucket_effect:
  assumes "db_ok t" "insert_bucket t b = Inr (b', t')"
  shows "db_ok t' \<and> b' = b \<and> buckets t' = buckets t @ [b] \<and> objects t' = objects t \<and>
    versions t' = versions t \<and> current t' = current t"
proof -
  have t': "buckets t' = buckets t @ [b]" "objects t' = objects t" "versions t' = versions t" "b' = b"
    and new: "b_ID b \<notin> b_ID ` set (buckets t)" "b_Name b \<notin> b_Name ` set (buckets t)"
    using assms(2) by (auto simp: insert_bucket_def split: if_splits)
  have s: "schema_ok t" using assms(1) by (simp add: db_ok_def)
  then have s': "schema_ok t'" using new by (auto simp: schema_ok_def t')
  have "x \<in> set (objects t) \<Longrightarrow> b_ID b \<noteq> o_BucketID x" for x
    using s new(1) by (auto simp: schema_ok_def)
  then have "current t' n k = current t n k" for n k
    by (intro current_eqI) (auto simp: current_iff [OF s] current_iff [OF s'] t')
  moreover have "db_ok t'"
    using assms(1) s' by (auto simp: db_ok_def current_ok_def latest_def t')
  ultimately show ?thesis by (auto simp: t' fun_eq_iff)
qed

lemma upsert_effect:
  assumes "schema_ok t" "upsert_object t newO n k = Inr (oid, t1)"
  obtains b x where "b \<in> set (buckets t)" "b_Name b = n" "x \<in> set (objects t1)" "o_ID x = oid"
    "o_BucketID x = b_ID b" "o_Key x = k" "versions t1 = versions t" "buckets t1 = buckets t"
    "schema_ok t1" "t1 = t \<or> objects t1 = objects t @ [x] \<and> oid \<notin> o_ID ` set (objects t) \<and> o_CurrentVersionID x = None"
proof (cases rule: bucket_named_cases [OF assms(1), of n])
  case 1
  with assms(2) show ?thesis by (simp add: upsert_object_def)
next
  case b: (2 b)
  show ?thesis
  proof (cases rule: object_at_cases [OF assms(1), of "b_ID b" k])
    case none: 1
    let ?x = "\<lparr>o_ID = newO, o_BucketID = b_ID b, o_Key = k, o_CurrentVersionID = None,
      o_PendingVersionID = None, o_Status = ObjectStatusActive\<rparr>"
    have new: "oid = newO" "newO \<notin> o_ID ` set (objects t)" "t1 = t\<lparr>objects := objects t @ [?x]\<rparr>"
      using assms(2) b none by (auto simp: upsert_object_def split: if_splits)
    have "(b_ID b, k) \<notin> (\<lambda>x. (o_BucketID x, o_Key x)) ` set (objects t)"
      using none(2) by (metis (no_types, lifting) image_iff prod.inject)
    with new have "schema_ok t1"
      using assms(1) b(2) by (simp add: schema_ok_def)
    then show ?thesis using that [of b ?x] b new by simp
  next
    case x: (2 x)
    then have "t1 = t" "oid = o_ID x" using assms(2) b by (auto simp: upsert_object_def)
    then show ?thesis using that [of b x] b x assms(1) by simp
  qed
qed

lemma next_version_number_above:
  assumes "v \<in> set (versions t)" "v_ObjectID v = oid"
  shows "v_VersionNumber v < next_version_number t oid"
proof -
  have "x \<in> set xs \<Longrightarrow> x \<le> foldr max xs (0 :: int)" for x xs
    by (induction xs) auto
  then show ?thesis using assms by (auto simp: next_version_number_def)
qed

lemma next_version_number_pos: "1 \<le> next_version_number t oid"
proof -
  have "0 \<le> foldr max xs (0 :: int)" for xs by (induction xs) auto
  then show ?thesis by (simp add: next_version_number_def)
qed

text \<open>A new version of an object, made current.\<close>

definition add_version :: "tables \<Rightarrow> Version \<Rightarrow> tables" where
  "add_version t v = set_current (t\<lparr>versions := versions t @ [v]\<rparr>) (v_ObjectID v) (v_ID v)"

definition point_to :: "Version \<Rightarrow> Object \<Rightarrow> Object" where
  "point_to v x = (if o_ID x = v_ObjectID v then x\<lparr>o_CurrentVersionID := Some (v_ID v)\<rparr> else x)"

definition new_version :: "tables \<Rightarrow> Version \<Rightarrow> bool" where
  "new_version t v = (v_ObjectID v \<in> o_ID ` set (objects t) \<and> 1 \<le> v_VersionNumber v \<and> live_version v \<and>
     v_BlobID v \<noteq> None \<and> v_ID v \<notin> v_ID ` set (versions t) \<and>
     (\<forall>v' \<in> set (versions t). v_ObjectID v' = v_ObjectID v \<longrightarrow> v_VersionNumber v' < v_VersionNumber v))"

lemma add_version_tables:
  "buckets (add_version t v) = buckets t" "versions (add_version t v) = versions t @ [v]"
  "objects (add_version t v) = map (point_to v) (objects t)"
  by (simp_all add: add_version_def set_current_def point_to_def)

lemma point_to_fields [simp]:
  "o_ID (point_to v x) = o_ID x" "o_BucketID (point_to v x) = o_BucketID x" "o_Key (point_to v x) = o_Key x"
  "o_Status (point_to v x) = o_Status x" "o_PendingVersionID (point_to v x) = o_PendingVersionID x"
  by (simp_all add: point_to_def)

lemma add_version_schema:
  assumes "schema_ok t" "new_version t v"
  shows "schema_ok (add_version t v)"
proof -
  have nums: "(v_ObjectID v, v_VersionNumber v) \<notin> (\<lambda>v. (v_ObjectID v, v_VersionNumber v)) ` set (versions t)"
  proof
    assume "(v_ObjectID v, v_VersionNumber v) \<in> (\<lambda>v. (v_ObjectID v, v_VersionNumber v)) ` set (versions t)"
    then obtain v' where "v' \<in> set (versions t)" "v_ObjectID v' = v_ObjectID v" "v_VersionNumber v' = v_VersionNumber v"
      by auto
    with assms(2) show False by (force simp: new_version_def)
  qed
  have ids: "o_ID ` set (map (point_to v) (objects t)) = o_ID ` set (objects t)"
    by (simp add: image_image)
  show ?thesis
    unfolding schema_ok_def add_version_tables ids
    using assms nums by (simp add: schema_ok_def new_version_def comp_def)
qed

lemma add_version_current:
  assumes "schema_ok t" "new_version t v"
    and cur: "\<And>x i. x \<in> set (objects t) \<Longrightarrow> o_CurrentVersionID x = Some i \<Longrightarrow> i \<in> v_ID ` set (versions t)"
    and x: "x \<in> set (objects t)" "o_ID x = v_ObjectID v" "b \<in> set (buckets t)" "b_ID b = o_BucketID x"
  shows "current (add_version t v) n k =
    (if n = b_Name b \<and> k = o_Key x then Some (point_to v x, v) else current t n k)"
proof -
  note s3 = add_version_schema [OF assms(1,2)]
  have own: "y = x" if "y \<in> set (objects t)" "o_ID y = v_ObjectID v" for y
    using that x(1,2) assms(1) by (simp add: schema_ok_def distinct_map inj_on_def)
  show ?thesis
  proof (cases "n = b_Name b \<and> k = o_Key x")
    case True
    have "current (add_version t v) n k = Some (point_to v x, v)"
      using True x by (auto simp: current_iff [OF s3] add_version_tables point_to_def)
    with True show ?thesis by simp
  next
    case False
    have "current (add_version t v) n k = Some (y, u) \<longleftrightarrow> current t n k = Some (y, u)" for y u
    proof (cases "o_ID y = v_ObjectID v")
      case True
      have no: "\<not> (o_Key y = k \<and> (\<exists>b \<in> set (buckets t). b_Name b = n \<and> b_ID b = o_BucketID y))"
        if "o_Key y = o_Key x" "o_BucketID y = o_BucketID x"
        using that False bucket_inj [OF assms(1)] x(3,4) by metis
      have "o_Key y = o_Key x \<and> o_BucketID y = o_BucketID x"
        if "y \<in> set (map (point_to v) (objects t)) \<or> y \<in> set (objects t)"
      proof -
        from that consider (new) z where "z \<in> set (objects t)" "y = point_to v z" | (old) "y \<in> set (objects t)"
          unfolding set_map by blast
        then show ?thesis
        proof cases
          case new
          have "z = x" by (rule own) (use new True in simp_all)
          then show ?thesis by (simp add: new)
        next
          case old
          have "y = x" by (rule own) (use old True in simp_all)
          then show ?thesis by simp
        qed
      qed
      with no have "\<not> ((y \<in> set (map (point_to v) (objects t)) \<or> y \<in> set (objects t)) \<and> o_Key y = k \<and>
          (\<exists>b \<in> set (buckets t). b_Name b = n \<and> b_ID b = o_BucketID y))"
        by blast
      then show ?thesis
        unfolding current_iff [OF s3] current_iff [OF assms(1)] add_version_tables by blast
    next
      case other: False
      have "y \<in> set (map (point_to v) (objects t)) \<longleftrightarrow> y \<in> set (objects t)"
        using other by (auto simp: point_to_def image_iff split: if_splits)
      moreover have "u \<noteq> v" if "y \<in> set (objects t)" "o_CurrentVersionID y = Some (v_ID u)"
        using cur [OF that] assms(2) by (auto simp: new_version_def)
      ultimately show ?thesis
        by (auto simp: current_iff [OF s3] current_iff [OF assms(1)] add_version_tables)
    qed
    then have "current (add_version t v) n k = current t n k" by (rule current_eqI)
    with False show ?thesis by auto
  qed
qed


lemma add_version_db_ok:
  assumes "schema_ok t" "new_version t v"
    and "\<And>x. x \<in> set (objects t) \<Longrightarrow> o_ID x \<noteq> v_ObjectID v \<Longrightarrow> current_ok t x"
  shows "db_ok (add_version t v)"
proof -
  have "current_ok (add_version t v) (point_to v x)" if x: "x \<in> set (objects t)" for x
  proof (cases "o_ID x = v_ObjectID v")
    case True
    have "latest (add_version t v) v"
      using assms(2) by (auto simp: latest_def add_version_tables new_version_def less_imp_le)
    with True show ?thesis by (auto simp: current_ok_def add_version_tables point_to_def)
  next
    case False
    then obtain u where u: "u \<in> set (versions t)" "o_CurrentVersionID x = Some (v_ID u)" "v_ObjectID u = o_ID x" "latest t u"
      using assms(3) [OF x] by (auto simp: current_ok_def)
    then have "latest (add_version t v) u" using False by (auto simp: latest_def add_version_tables)
    with u False show ?thesis by (auto simp: current_ok_def add_version_tables point_to_def)
  qed
  then show ?thesis
    using add_version_schema [OF assms(1,2)] by (auto simp: db_ok_def add_version_tables)
qed

text \<open>The three statements of \<open>CreateObjectVersion\<close> together.\<close>

lemma create_version_effect:
  assumes ok: "db_ok t" and up: "upsert_object t newO n k = Inr (oid, t1)"
    and v: "v_ObjectID v = oid" "v_VersionNumber v = next_version_number t1 oid" "live_version v" "v_BlobID v \<noteq> None"
    and ins: "insert_version t1 v = Inr t2"
  defines "t3 \<equiv> set_current t2 oid (v_ID v)"
  shows "db_ok t3 \<and> (\<exists>x. o_ID x = oid \<and> current t3 n k = Some (x, v) \<and>
      (\<forall>n' k'. (n', k') \<noteq> (n, k) \<longrightarrow> current t3 n' k' = current t n' k')) \<and>
    versions t3 = versions t @ [v] \<and> buckets t3 = buckets t"
proof -
  have s: "schema_ok t" using ok by (simp add: db_ok_def)
  obtain b x where b: "b \<in> set (buckets t)" "b_Name b = n"
    and x: "x \<in> set (objects t1)" "o_ID x = oid" "o_BucketID x = b_ID b" "o_Key x = k"
    and t1: "versions t1 = versions t" "buckets t1 = buckets t" "schema_ok t1"
      "t1 = t \<or> objects t1 = objects t @ [x] \<and> oid \<notin> o_ID ` set (objects t) \<and> o_CurrentVersionID x = None"
    using upsert_effect [OF s up] .
  have t3: "t3 = add_version t1 v"
    using ins v(1) by (auto simp: t3_def add_version_def insert_version_def split: if_splits)
  have mem: "v_ObjectID v \<in> o_ID ` set (objects t1)" using x(1,2) v(1) by auto
  have nv: "new_version t1 v"
    using ins v mem next_version_number_above [of _ t1 oid] next_version_number_pos [of t1 oid]
    by (auto simp: new_version_def insert_version_def split: if_splits)
  have old: "y \<in> set (objects t) \<or> y = x \<and> o_CurrentVersionID x = None" if "y \<in> set (objects t1)" for y
    using that t1(4) by auto
  have pre: "current_ok t1 y" if "y \<in> set (objects t)" for y
    using that ok t1(1) by (simp add: db_ok_def current_ok_def latest_def)
  have cur: "i \<in> v_ID ` set (versions t1)" if "y \<in> set (objects t1)" "o_CurrentVersionID y = Some i" for y i
    using that old [OF that(1)] pre [of y] by (auto simp: current_ok_def)
  have same: "current t1 n' k' = current t n' k'" for n' k'
  proof (cases "t1 = t")
    case False
    with t1(4) have "objects t1 = objects t @ [x]" "o_CurrentVersionID x = None" by auto
    then show ?thesis
      by (intro current_eqI) (auto simp: current_iff [OF s] current_iff [OF t1(3)] t1(1,2))
  qed simp
  have "db_ok t3"
    unfolding t3
  proof (rule add_version_db_ok [OF t1(3) nv])
    fix y assume y: "y \<in> set (objects t1)" "o_ID y \<noteq> v_ObjectID v"
    then have "y \<noteq> x" using x(2) v(1) by auto
    with old [OF y(1)] show "current_ok t1 y" using pre by blast
  qed
  moreover have "current t3 n' k' = (if n' = n \<and> k' = k then Some (point_to v x, v) else current t n' k')" for n' k'
  proof -
    have "current (add_version t1 v) n' k' =
        (if n' = b_Name b \<and> k' = o_Key x then Some (point_to v x, v) else current t1 n' k')"
      by (rule add_version_current [OF t1(3) nv])
        ((erule cur, assumption) | simp add: x b t1(2) v(1))+
    then show ?thesis by (simp add: t3 same b(2) x(4))
  qed
  ultimately show ?thesis
    using x(2) by (auto simp: t3 add_version_tables t1(1,2) intro!: exI [of _ "point_to v x"])
qed

end
