(* ===== verification/Metadata_Refine.thy ===== *)
theory Metadata_Refine
  imports Metadata_Spec
begin

text \<open>
  The metadata service refines a small machine: a map of buckets and a map from bucket and key to
  the current version. Every call, under any faults of the database and of Kafka, keeps the
  invariant of the tables and moves the two maps as the machine allows.
\<close>

section \<open>Statements\<close>

lemma wpE_pg_statement:
  assumes "\<And>x t. f w = Inr (x, t) \<Longrightarrow> Q x (w\<lparr>now := Suc (now w), tables := t\<rparr>)"
    and "\<And>e. f w = Inl e \<or> e \<in> range db_fault_error \<Longrightarrow> E e (w\<lparr>now := Suc (now w)\<rparr>)"
  shows "wpE (pg_statement f) Q E w"
  using assms by (auto simp: wpE_def pg_statement_def Let_def split: option.splits sum.splits prod.splits)

lemma wpE_pg_select:
  assumes "\<And>x. f w = Inr x \<Longrightarrow> Q x (w\<lparr>now := Suc (now w)\<rparr>)" 
    and "\<And>e. f w = Inl e \<or> e \<in> range db_fault_error \<Longrightarrow> E e (w\<lparr>now := Suc (now w)\<rparr>)"
  shows "wpE (pg_select f) Q E w"
  unfolding pg_select_def
proof (rule wpE_pg_statement)
  fix x t assume "(case f w of Inl e \<Rightarrow> Inl e | Inr x \<Rightarrow> Inr (x, tables w)) = Inr (x, t)"
  then have "f w = Inr x" "t = tables w" by (auto split: sum.splits)
  with assms(1) [of x] show "Q x (w\<lparr>now := Suc (now w), tables := t\<rparr>)" by simp
qed (rule assms(2), auto split: sum.splits)

lemma db_fault_errors: "e \<in> range db_fault_error \<Longrightarrow> \<not> errors_Is e ErrNoRows \<and> as_pgerror e \<noteq> Some ''23505'' \<and> as_common e = None"
proof (erule rangeE)
  show "\<not> errors_Is e ErrNoRows \<and> as_pgerror e \<noteq> Some ''23505'' \<and> as_common e = None" if "e = db_fault_error f" for f
    using that by (cases f) auto
qed

definition md_frame :: "(md_world \<Rightarrow> 'b) \<Rightarrow> bool" where
  "md_frame f = (\<forall>w n t. f (w\<lparr>now := n\<rparr>) = f w \<and> f (w\<lparr>now := n, tables := t\<rparr>) = f w)"

lemma md_frames [simp]: "md_frame saved" "md_frame new_uuid" "md_frame events" "md_frame db_faults"
  by (simp_all add: md_frame_def)

lemma preserves_pg_statement [frame]: "md_frame f \<Longrightarrow> preserves (pg_statement g) f"
  by (auto simp: preserves_def pg_statement_def Let_def md_frame_def split: option.splits sum.splits prod.splits)

lemma preserves_pg_select [frame]: "md_frame f \<Longrightarrow> preserves (pg_select g) f"
  unfolding pg_select_def by (rule preserves_pg_statement)

lemma preserves_pg_select_tables [frame]: "preserves (pg_select g) tables"
  by (auto simp: preserves_def pg_select_def pg_statement_def Let_def split: option.splits sum.splits prod.splits)

section \<open>Dropping rows\<close>

lemma drop_objects_tables:
  "buckets (drop_objects P t) = buckets t"
  "objects (drop_objects P t) = filter (\<lambda>x. \<not> P x) (objects t)"
  "versions (drop_objects P t) = filter (\<lambda>v. v_ObjectID v \<notin> o_ID ` set (filter P (objects t))) (versions t)"
  by (simp_all add: drop_objects_def)

lemma drop_objects_keeps:
  assumes "schema_ok t" "x \<in> set (objects t)" "\<not> P x"
  shows "o_ID x \<notin> o_ID ` set (filter P (objects t))"
  using assms by (auto simp: schema_ok_def distinct_map inj_on_def)

lemma drop_objects_schema:
  assumes "schema_ok t"
  shows "schema_ok (drop_objects P t)"
proof -
  have "v_ObjectID v \<in> o_ID ` set (filter (\<lambda>x. \<not> P x) (objects t))"
    if "v \<in> set (versions t)" "v_ObjectID v \<notin> o_ID ` set (filter P (objects t))" for v
  proof -
    from that(1) assms have "v_ObjectID v \<in> o_ID ` set (objects t)" by (simp add: schema_ok_def)
    then obtain x where "x \<in> set (objects t)" "v_ObjectID v = o_ID x" by auto
    with that(2) show ?thesis by (cases "P x") auto
  qed
  with assms show ?thesis
    unfolding schema_ok_def drop_objects_tables by (simp add: distinct_map_filter)
qed

lemma drop_objects_current_ok:
  assumes "schema_ok t" "x \<in> set (objects t)" "\<not> P x" "current_ok t x"
  shows "current_ok (drop_objects P t) x"
proof -
  obtain v where v: "v \<in> set (versions t)" "o_CurrentVersionID x = Some (v_ID v)" "v_ObjectID v = o_ID x" "latest t v"
    using assms(4) by (auto simp: current_ok_def)
  with drop_objects_keeps [where P = P, OF assms(1-3)] have "v \<in> set (versions (drop_objects P t))"
    by (simp add: drop_objects_tables)
  moreover have "latest (drop_objects P t) v" using v(4) by (simp add: latest_def drop_objects_tables)
  ultimately show ?thesis using v(2,3) by (auto simp: current_ok_def)
qed

lemma drop_objects_db_ok: "db_ok t \<Longrightarrow> db_ok (drop_objects P t)"
  by (auto simp: db_ok_def drop_objects_schema drop_objects_tables intro!: drop_objects_current_ok)

lemma drop_objects_current:
  assumes "db_ok t"
  shows "current (drop_objects P t) n k =
    (case current t n k of None \<Rightarrow> None | Some (x, v) \<Rightarrow> if P x then None else Some (x, v))"
proof (rule option.exhaust [of "current t n k"])
  have s: "schema_ok t" using assms by (simp add: db_ok_def)
  note c = current_iff [OF s] and c' = current_iff [OF drop_objects_schema [OF s]]
  have kept: "v \<in> set (versions (drop_objects P t)) \<longleftrightarrow> v \<in> set (versions t)"
    if "x \<in> set (objects t)" "\<not> P x" "v \<in> set (versions t) \<Longrightarrow> v_ObjectID v = o_ID x" for x v
  proof -
    have "v_ObjectID v \<notin> o_ID ` set (filter P (objects t))" if "v \<in> set (versions t)"
      using drop_objects_keeps [where P = P, OF s \<open>x \<in> set (objects t)\<close> \<open>\<not> P x\<close>] \<open>_ \<Longrightarrow> v_ObjectID v = o_ID x\<close> [OF that] by simp
    then show ?thesis unfolding drop_objects_tables set_filter by blast
  qed
  have own: "v_ObjectID v = o_ID x"
    if "x \<in> set (objects t)" "o_CurrentVersionID x = Some (v_ID v)" "v \<in> set (versions t)" for x v
  proof -
    from assms that(1) obtain u where "u \<in> set (versions t)" "o_CurrentVersionID x = Some (v_ID u)" "v_ObjectID u = o_ID x"
      by (auto simp: db_ok_def current_ok_def)
    with that s show ?thesis by (auto simp: schema_ok_def distinct_map inj_on_def)
  qed
  have iff: "current (drop_objects P t) n k = Some (x, v) \<longleftrightarrow> current t n k = Some (x, v) \<and> \<not> P x" for x v
    unfolding c c' using kept [of x v] own [of x v] by (auto simp: drop_objects_tables)
  show ?thesis if "current t n k = None"
    using that iff by (cases "current (drop_objects P t) n k") auto
  show ?thesis if "current t n k = Some r" for r
  proof (cases r)
    case (Pair x v)
    show ?thesis
    proof (cases "P x")
      case True
      have "current (drop_objects P t) n k = None"
        using that iff True Pair by (metis not_Some_eq option.inject prod.inject surj_pair)
      with True that Pair show ?thesis by simp
    next
      case False
      with that Pair iff [of x v] show ?thesis by simp
    qed
  qed
qed

section \<open>The abstract machine\<close>

record md_abs =
  bucket_map :: "string \<rightharpoonup> Bucket"
  object_map :: "string \<times> string \<rightharpoonup> Version"

definition md_view :: "tables \<Rightarrow> md_abs" where
  "md_view t = \<lparr>bucket_map = (\<lambda>n. find (\<lambda>b. b_Name b = n) (buckets t)),
     object_map = (\<lambda>(n, k). map_option snd (current t n k))\<rparr>"

datatype md_call =
    CallCreateBucket string string
  | CallDeleteBucket string
  | CallCreateObjectVersion string string string int string string
  | CallDeleteObjectMeta string string
  | CallGetBucket string
  | CallHeadBucket string
  | CallListBuckets string
  | CallGetObjectMeta string string string
  | CallListObjects string string string int
  | CallHealthCheck

text \<open>
  \<open>md_step c ok a a'\<close>: the call \<open>c\<close>, answered without error when \<open>ok\<close>, moves the maps
  from \<open>a\<close> to \<open>a'\<close>. A call that answers an error has done nothing, or all of its work:
  the acknowledgement of a commit or of the event may be lost.
\<close>

definition supersedes :: "Version \<Rightarrow> Version option \<Rightarrow> bool" where
  "supersedes v old = (case old of None \<Rightarrow> True
     | Some u \<Rightarrow> v_ObjectID v = v_ObjectID u \<and> v_VersionNumber u < v_VersionNumber v)"

fun is_read :: "md_call \<Rightarrow> bool" where
  "is_read (CallCreateBucket _ _) = False"
| "is_read (CallDeleteBucket _) = False"
| "is_read (CallCreateObjectVersion _ _ _ _ _ _) = False"
| "is_read (CallDeleteObjectMeta _ _) = False"
| "is_read _ = True"

inductive md_step :: "pg_env \<Rightarrow> md_call \<Rightarrow> bool \<Rightarrow> md_abs \<Rightarrow> md_abs \<Rightarrow> bool" for env where
  create_bucket: "bucket_map a n = None \<Longrightarrow> b_Name b = n \<Longrightarrow> Some (b_OwnerID b) = uuid_in env owner \<Longrightarrow>
    md_step env (CallCreateBucket n owner) True a (a\<lparr>bucket_map := (bucket_map a)(n \<mapsto> b)\<rparr>)"
| delete_bucket: "bucket_map a n \<noteq> None \<Longrightarrow> (\<And>k. object_map a (n, k) = None) \<Longrightarrow>
    md_step env (CallDeleteBucket n) ok a (a\<lparr>bucket_map := (bucket_map a)(n := None)\<rparr>)"
| create_version: "bucket_map a n \<noteq> None \<Longrightarrow> v_BlobID v = uuid_in env blob \<Longrightarrow> v_BlobID v \<noteq> None \<Longrightarrow>
    v_SizeBytes v = sz \<Longrightarrow> v_Etag v = etag \<Longrightarrow> v_ContentType v = ctype \<Longrightarrow> supersedes v (object_map a (n, k)) \<Longrightarrow>
    md_step env (CallCreateObjectVersion n k blob sz etag ctype) ok a (a\<lparr>object_map := (object_map a)((n, k) \<mapsto> v)\<rparr>)"
| delete_object: "object_map a (n, k) \<noteq> None \<Longrightarrow>
    md_step env (CallDeleteObjectMeta n k) ok a (a\<lparr>object_map := (object_map a)((n, k) := None)\<rparr>)"
| read: "is_read c \<Longrightarrow> md_step env c ok a a"
| failed: "md_step env c False a a"

inductive_cases md_step_cases: "md_step env c ok a a'"

text \<open>A call on the model of the handlers, its answer reduced to whether it is an error.\<close>

fun md_exec :: "pg_env \<Rightarrow> string \<Rightarrow> string \<Rightarrow> ctx \<Rightarrow> md_call \<Rightarrow> unit mdop" where
  "md_exec env bt ot ctx (CallCreateBucket n owner) = bindE (mh_CreateBucket env n owner) (\<lambda>_. returnE ())"
| "md_exec env bt ot ctx (CallDeleteBucket n) = bindE (mh_DeleteBucket env bt ctx n) (\<lambda>_. returnE ())"
| "md_exec env bt ot ctx (CallCreateObjectVersion n k blob sz etag ctype) =
     bindE (mh_CreateObjectVersion env ctx n k blob sz etag ctype) (\<lambda>_. returnE ())"
| "md_exec env bt ot ctx (CallDeleteObjectMeta n k) = bindE (mh_DeleteObjectMeta env ot n k) (\<lambda>_. returnE ())"
| "md_exec env bt ot ctx (CallGetBucket n) = bindE (mh_GetBucket env n) (\<lambda>_. returnE ())"
| "md_exec env bt ot ctx (CallHeadBucket n) = bindE (mh_HeadBucket env n) (\<lambda>_. returnE ())"
| "md_exec env bt ot ctx (CallListBuckets owner) = bindE (mh_ListBuckets env owner) (\<lambda>_. returnE ())"
| "md_exec env bt ot ctx (CallGetObjectMeta n k vid) = bindE (mh_GetObjectMeta env n k vid) (\<lambda>_. returnE ())"
| "md_exec env bt ot ctx (CallListObjects n pre tok m) = bindE (mh_ListObjects env n pre tok m) (\<lambda>_. returnE ())"
| "md_exec env bt ot ctx CallHealthCheck = bindE mh_HealthCheck (\<lambda>_. returnE ())"

text \<open>
  The invariant of the running service. \<open>uuid_in\<close> reads the ids of the tables, and the ids
  \<open>gen_random_uuid\<close> will make, as themselves: they are in the canonical form Postgres prints.
\<close>

definition canonical :: "pg_env \<Rightarrow> string \<Rightarrow> bool" where
  "canonical env i = (uuid_in env i = Some i)"

definition tab_ok :: "pg_env \<Rightarrow> tables \<Rightarrow> bool" where
  "tab_ok env t = (db_ok t \<and> (\<forall>b \<in> set (buckets t). canonical env (b_ID b)) \<and> (\<forall>x \<in> set (objects t). o_Key x \<noteq> []))"

definition md_ok :: "pg_env \<Rightarrow> md_world \<Rightarrow> bool" where
  "md_ok env w = (saved w = None \<and> tab_ok env (tables w) \<and> (\<forall>i. canonical env (new_uuid w i)))"

section \<open>Simulation of the statements\<close>

lemma bucket_map_Some: "schema_ok t \<Longrightarrow> b \<in> set (buckets t) \<Longrightarrow> bucket_map (md_view t) (b_Name b) = Some b"
  by (auto simp: md_view_def find_Some_iff schema_ok_def distinct_map inj_on_def in_set_conv_nth
      distinct_conv_nth)

lemma bucket_map_iff: "schema_ok t \<Longrightarrow> bucket_map (md_view t) n = Some b \<longleftrightarrow> b \<in> set (buckets t) \<and> b_Name b = n"
  using bucket_map_Some [of t b] by (auto simp: md_view_def find_Some_iff)

lemma object_map_eq: "object_map (md_view t) (n, k) = map_option snd (current t n k)"
  by (simp add: md_view_def)

lemma md_view_eqI:
  assumes "schema_ok t" "\<And>n b. b \<in> set (buckets t) \<and> b_Name b = n \<longleftrightarrow> bucket_map a n = Some b"
    "\<And>n k. map_option snd (current t n k) = object_map a (n, k)"
  shows "md_view t = a"
proof -
  have "bucket_map (md_view t) n = bucket_map a n" for n
    using assms(2) bucket_map_iff [OF assms(1)] by (metis option.exhaust)
  moreover have "object_map (md_view t) p = object_map a p" for p
    using assms(3) by (cases p) (simp add: object_map_eq)
  ultimately show ?thesis by (intro md_abs.equality) (auto simp: fun_eq_iff)
qed

lemma insert_bucket_step:
  assumes "tab_ok env t" "insert_bucket t b = Inr (b', t')" "canonical env (b_ID b)" "Some (b_OwnerID b) = uuid_in env owner"
  shows "tab_ok env t' \<and> md_step env (CallCreateBucket (b_Name b) owner) True (md_view t) (md_view t')"
proof -
  have ok: "db_ok t" using assms(1) by (simp add: tab_ok_def)
  note e = insert_bucket_effect [OF ok assms(2)]
  have s: "schema_ok t" "schema_ok t'" using ok e by (simp_all add: db_ok_def)
  have new: "b_Name c \<noteq> b_Name b" if "c \<in> set (buckets t)" for c
    using that assms(2) by (auto simp: insert_bucket_def split: if_splits)
  have none: "bucket_map (md_view t) (b_Name b) = None"
    using new bucket_map_iff [OF s(1)] by (metis not_Some_eq)
  have "md_view t' = (md_view t)\<lparr>bucket_map := (bucket_map (md_view t))(b_Name b \<mapsto> b)\<rparr>"
    by (rule md_view_eqI) (use e s new in \<open>auto simp: bucket_map_iff object_map_eq\<close>)
  then have "md_step env (CallCreateBucket (b_Name b) owner) True (md_view t) (md_view t')"
    using md_step.create_bucket [OF none refl assms(4)] by simp
  with e assms(1,3) show ?thesis by (auto simp: tab_ok_def)
qed

lemma delete_bucket_step:
  assumes "tab_ok env t" "b \<in> set (buckets t)" "\<And>x. x \<in> set (objects t) \<Longrightarrow> o_BucketID x \<noteq> b_ID b"
    "delete_bucket t (b_ID b) = (m, t')"
  shows "tab_ok env t' \<and> md_step env (CallDeleteBucket (b_Name b)) ok (md_view t) (md_view t')"
proof -
  have ok: "db_ok t" and s: "schema_ok t" using assms(1) by (simp_all add: tab_ok_def db_ok_def)
  have "filter (\<lambda>x. o_BucketID x = b_ID b) (objects t) = []" "filter (\<lambda>x. o_BucketID x \<noteq> b_ID b) (objects t) = objects t"
    using assms(3) by (auto simp: filter_empty_conv filter_id_conv)
  then have t': "buckets t' = filter (\<lambda>c. b_ID c \<noteq> b_ID b) (buckets t)" "objects t' = objects t" "versions t' = versions t"
    using assms(2,4) by (auto simp: delete_bucket_def drop_objects_def split: if_splits)
  have ids: "b_ID ` set (buckets t') = b_ID ` set (buckets t) - {b_ID b}" by (auto simp: t')
  have "distinct (map b_ID (buckets t')) \<and> distinct (map b_Name (buckets t'))"
    using s by (simp add: t' schema_ok_def distinct_map_filter)
  then have s': "schema_ok t'"
    using s assms(3) unfolding schema_ok_def ids t'(2,3) by simp
  have same: "current t' n k = current t n k" for n k
    by (intro current_eqI) (use assms(3) in \<open>force simp: current_iff [OF s] current_iff [OF s'] t'\<close>)
  have name: "b_ID c = b_ID b \<longleftrightarrow> b_Name c = b_Name b" if "c \<in> set (buckets t)" for c
    using that assms(2) s by (auto simp: schema_ok_def distinct_map inj_on_def)
  have empty: "object_map (md_view t) (b_Name b, k) = None" for k
  proof (cases "current t (b_Name b) k")
    case (Some r)
    then obtain x v c where "x \<in> set (objects t)" "c \<in> set (buckets t)" "b_Name c = b_Name b" "b_ID c = o_BucketID x"
      by (cases r) (auto simp: current_iff [OF s])
    with assms(3) name show ?thesis by metis
  qed (simp add: object_map_eq)
  have "md_view t' = (md_view t)\<lparr>bucket_map := (bucket_map (md_view t))(b_Name b := None)\<rparr>"
    by (rule md_view_eqI [OF s']) (use name in \<open>auto simp: bucket_map_iff [OF s] object_map_eq t' same\<close>)
  then have "md_step env (CallDeleteBucket (b_Name b)) ok (md_view t) (md_view t')"
    using md_step.delete_bucket [OF _ empty] bucket_map_Some [OF s assms(2)] by simp
  moreover have "db_ok t'"
    using ok s' by (auto simp: db_ok_def current_ok_def latest_def t')
  ultimately show ?thesis using assms(1) by (auto simp: tab_ok_def t')
qed


lemma delete_object_step:
  assumes "tab_ok env t" "x \<in> set (objects t)" "P x"
    and P: "\<And>y. P y = (o_Key y = k \<and> (\<exists>b \<in> set (bucket_named t n). b_ID b = o_BucketID y))"
  shows "tab_ok env (drop_objects P t) \<and>
    md_step env (CallDeleteObjectMeta n k) ok (md_view t) (md_view (drop_objects P t)) \<and>
    object_map (md_view t) (n, k) \<noteq> None"
proof -
  have ok: "db_ok t" and s: "schema_ok t" using assms(1) by (simp_all add: tab_ok_def db_ok_def)
  have P': "P y \<longleftrightarrow> n' = n \<and> k' = k" if "current t n' k' = Some (y, v)" for y v n' k'
  proof -
    from that obtain b where b: "b \<in> set (buckets t)" "b_Name b = n'" "b_ID b = o_BucketID y" "o_Key y = k'"
      by (auto simp: current_iff [OF s])
    have "(\<exists>c \<in> set (bucket_named t n). b_ID c = o_BucketID y) \<longleftrightarrow> n' = n"
    proof
      assume "\<exists>c \<in> set (bucket_named t n). b_ID c = o_BucketID y"
      then obtain c where c: "c \<in> set (buckets t)" "b_Name c = n" "b_ID c = o_BucketID y"
        by (auto simp: bucket_named_def)
      have "c = b" using bucket_inj [OF s c(1) b(1)] c(3) b(3) by simp
      with c b show "n' = n" by simp
    next
      assume "n' = n"
      with b show "\<exists>c \<in> set (bucket_named t n). b_ID c = o_BucketID y"
        by (intro bexI [of _ b]) (simp_all add: bucket_named_def)
    qed
    with b(4) show ?thesis by (auto simp: P)
  qed
  obtain b where b: "b \<in> set (buckets t)" "b_Name b = n" "b_ID b = o_BucketID x" "o_Key x = k"
    using assms(3) by (auto simp: P bucket_named_def)
  obtain v where v: "current t n k = Some (x, v)"
    using current_Some [OF ok b(1) assms(2)] b by metis
  have "md_view (drop_objects P t) = (md_view t)\<lparr>object_map := (object_map (md_view t))((n, k) := None)\<rparr>"
  proof (rule md_view_eqI [OF drop_objects_schema [OF s]])
    show "map_option snd (current (drop_objects P t) n' k') =
        object_map ((md_view t)\<lparr>object_map := (object_map (md_view t))((n, k) := None)\<rparr>) (n', k')" for n' k'
      using P' [of n' k'] by (auto simp: drop_objects_current [OF ok] object_map_eq split: option.splits)
  qed (simp add: bucket_map_iff [OF s] drop_objects_tables)
  moreover have "object_map (md_view t) (n, k) \<noteq> None" by (simp add: object_map_eq v)
  ultimately have "md_step env (CallDeleteObjectMeta n k) ok (md_view t) (md_view (drop_objects P t))"
    using md_step.delete_object [of "md_view t" n k env ok] by simp
  with assms(1) ok v show ?thesis
    by (simp add: tab_ok_def drop_objects_db_ok drop_objects_tables object_map_eq)
qed

text \<open>The current version of an object is its latest, so the next one supersedes it.\<close>

lemma create_version_step:
  assumes ok: "tab_ok env t" and up: "upsert_object t newO n k = Inr (oid, t1)"
    and v: "v_ObjectID v = oid" "v_VersionNumber v = next_version_number t1 oid" "live_version v"
      "v_BlobID v = uuid_in env blob" "v_BlobID v \<noteq> None"
    and ins: "insert_version t1 v = Inr t2" and key: "k \<noteq> []"
  defines "t3 \<equiv> set_current t2 oid (v_ID v)"
  shows "tab_ok env t3 \<and> (\<exists>x. current t3 n k = Some (x, v) \<and> o_ID x = oid) \<and> versions t3 = versions t @ [v] \<and>
    buckets t3 = buckets t \<and> (\<forall>x \<in> set (objects t). \<exists>y \<in> set (objects t3). o_ID y = o_ID x \<and> o_Key y = o_Key x \<and> o_BucketID y = o_BucketID x) \<and>
    md_step env (CallCreateObjectVersion n k blob (v_SizeBytes v) (v_Etag v) (v_ContentType v)) ok' (md_view t) (md_view t3)"
proof -
  have db: "db_ok t" and s: "schema_ok t" using ok by (simp_all add: tab_ok_def db_ok_def)
  note e = create_version_effect [OF db up v(1-3,5) ins, folded t3_def]
  obtain b x where b: "b \<in> set (buckets t)" "b_Name b = n"
    and x: "x \<in> set (objects t1)" "o_ID x = oid" "o_BucketID x = b_ID b" "o_Key x = k"
    and t1: "versions t1 = versions t" "buckets t1 = buckets t" "schema_ok t1"
      "t1 = t \<or> objects t1 = objects t @ [x] \<and> oid \<notin> o_ID ` set (objects t) \<and> o_CurrentVersionID x = None"
    using upsert_effect [OF s up] .
  have "supersedes v (object_map (md_view t) (n, k))"
  proof (cases "current t n k")
    case (Some r)
    then obtain y u c where y: "object_map (md_view t) (n, k) = Some u" "y \<in> set (objects t)" "o_Key y = k"
        "c \<in> set (buckets t)" "b_Name c = n" "b_ID c = o_BucketID y" "u \<in> set (versions t)" "o_CurrentVersionID y = Some (v_ID u)"
      by (cases r) (auto simp: current_iff [OF s] object_map_eq)
    have "b = c" using y b bucket_map_Some [OF s] by (metis option.inject)
    moreover have "y \<in> set (objects t1)" using y(2) t1(4) by auto
    ultimately have "y = x" using x y t1(3) by (auto simp: schema_ok_def distinct_map inj_on_def)
    obtain w where "current t (b_Name c) (o_Key y) = Some (y, w)" "v_ObjectID w = o_ID y"
      using current_Some [OF db y(4,2)] y(6) by metis
    then have "v_ObjectID u = oid"
      using y(1,3,5) x(2) \<open>y = x\<close> by (simp add: object_map_eq)
    then show ?thesis
      using next_version_number_above [of u t1 oid] y(1,7) v(1,2) t1(1) by (simp add: supersedes_def)
  qed (simp add: object_map_eq supersedes_def)
  moreover have "bucket_map (md_view t) n \<noteq> None" using bucket_map_Some [OF s b(1)] b(2) by simp
  moreover have "md_view t3 = (md_view t)\<lparr>object_map := (object_map (md_view t))((n, k) \<mapsto> v)\<rparr>"
    by (rule md_view_eqI) (use e in \<open>auto simp: db_ok_def bucket_map_iff [OF s] object_map_eq\<close>)
  ultimately have "md_step env (CallCreateObjectVersion n k blob (v_SizeBytes v) (v_Etag v) (v_ContentType v)) ok'
      (md_view t) (md_view t3)"
    using md_step.create_version [of "md_view t" n v env blob "v_SizeBytes v" "v_Etag v" "v_ContentType v" k ok'] v by simp
  moreover have objs: "objects t3 = map (point_to v) (objects t1)"
    using ins v(1) add_version_tables(3) [of t1 v] by (auto simp: t3_def add_version_def insert_version_def split: if_splits)
  moreover have "(\<forall>x \<in> set (objects t). \<exists>y \<in> set (objects t3). o_ID y = o_ID x \<and> o_Key y = o_Key x \<and> o_BucketID y = o_BucketID x)"
    using t1(4) by (auto simp: objs)
  moreover have "o_Key y \<noteq> []" if "y \<in> set (objects t3)" for y
  proof -
    from objs that obtain z where "y = point_to v z" "z \<in> set (objects t1)" by auto
    with t1(4) ok x(4) key show ?thesis by (auto simp: tab_ok_def)
  qed
  ultimately show ?thesis using e ok by (auto simp: tab_ok_def)
qed

section \<open>Simulation of the calls\<close>

abbreviation simulates :: "pg_env \<Rightarrow> md_world \<Rightarrow> md_call \<Rightarrow> unit mdop \<Rightarrow> bool" where
  "simulates env w c m \<equiv> wpE m
     (\<lambda>_ w'. saved w' = None \<and> tab_ok env (tables w') \<and> md_step env c True (md_view (tables w)) (md_view (tables w')))
     (\<lambda>_ w'. saved w' = None \<and> tab_ok env (tables w') \<and> md_step env c False (md_view (tables w)) (md_view (tables w'))) w"

text \<open>A call that cannot change the tables.\<close>

lemma simulates_read:
  assumes "md_ok env w" "is_read c" "preserves m tables" "preserves m saved"
  shows "simulates env w c m"
  using preserves_wpE [OF assms(3), of w] preserves_wpE [OF assms(4), of w] assms(1,2)
  by (auto simp: wpE_def md_ok_def md_step.read split: prod.splits sum.splits)

lemma reads_preserve [frame]:
  "preserves (bucket_Get env n) tables" "preserves (bucket_Head env n) tables" "preserves (bucket_List env n) tables"
  "preserves (GetMeta env n k vid) tables" "preserves (object_List env n pre tok m) tables"
  "preserves (bucket_CountObjects env i) tables"
  unfolding bucket_Get_def bucket_Head_def bucket_List_def GetMeta_def object_List_def bucket_CountObjects_def Let_def
  by (intro frame)+

lemma repo_frames [frame]:
  assumes "md_frame f"
  shows "preserves (bucket_Get env n) f" "preserves (bucket_Head env n) f" "preserves (bucket_List env n) f"
    "preserves (GetMeta env n k vid) f" "preserves (object_List env n pre tok m) f"
    "preserves (bucket_CountObjects env i) f" "preserves (bucket_Create env n owner) f"
    "preserves (bucket_Delete env i) f" "preserves (UpsertObject env n k) f"
    "preserves (InsertVersion env oid blob sz etag ctype) f" "preserves (SetCurrentVersion oid vid) f"
    "preserves (object_Delete env n k) f"
  unfolding bucket_Get_def bucket_Head_def bucket_List_def GetMeta_def object_List_def bucket_CountObjects_def
    bucket_Create_def bucket_Delete_def UpsertObject_def InsertVersion_def SetCurrentVersion_def object_Delete_def Let_def
  by (intro frame assms)+

lemma tx_body_frames [frame]:
  assumes "md_frame f"
  shows "preserves (deleteBucketTx env n c) f" "preserves (createVersionTx env n k blob sz etag ctype c) f"
  unfolding deleteBucketTx_def createVersionTx_def by (intro frame assms)+

lemma producer_Send_frame [frame]: "preserves (producer_Send topic k v) tables" "preserves (producer_Send topic k v) saved"
  "preserves (producer_Send topic k v) new_uuid"
  by (auto simp: preserves_def producer_Send_def Let_def split: option.splits prod.splits)

lemma producer_Send_tables:
  "wpE (producer_Send t k v) (\<lambda>_ w'. saved w' = saved u \<and> tables w' = tables u)
     (\<lambda>_ w'. saved w' = saved u \<and> tables w' = tables u) u"
  by (auto simp: wpE_def producer_Send_def Let_def split: option.splits)

definition tx_frame :: "(md_world \<Rightarrow> 'b) \<Rightarrow> bool" where
  "tx_frame f = (md_frame f \<and> (\<forall>w n s t. f (w\<lparr>now := n, saved := s\<rparr>) = f w \<and> f (w\<lparr>now := n, saved := s, tables := t\<rparr>) = f w))"

lemma tx_frames [simp]: "tx_frame new_uuid" "tx_frame events" "tx_frame db_faults"
  by (simp_all add: tx_frame_def)

lemma preserves_pg_ReadCommitted [frame]:
  assumes "tx_frame g" "\<And>c. preserves (f c) g"
  shows "preserves (ReadCommitted pg_transactor ctx f) g"
  using assms
  by (intro preserves_ReadCommitted)
    (auto simp: preserves_def tx_frame_def md_frame_def pg_transactor_def pg_BeginTx_def pg_Commit_def pg_Rollback_def Let_def
      split: option.splits)

lemma simulates_create_bucket:
  assumes "md_ok env w"
  shows "simulates env w (CallCreateBucket n owner) (md_exec env bt ot ctx (CallCreateBucket n owner))"
proof -
  have "wpE (bucket_Create env n owner)
     (\<lambda>_ w'. saved w' = None \<and> tab_ok env (tables w') \<and>
        md_step env (CallCreateBucket n owner) True (md_view (tables w)) (md_view (tables w')))
     (\<lambda>_ w'. saved w' = None \<and> tables w' = tables w) w"
    unfolding bucket_Create_def wp if_distrib [where f = "\<lambda>m. wpE m _ _"]
  proof (rule wpE_pg_statement, goal_cases)
    case (1 b t)
    then obtain own where own: "uuid_in env owner = Some own" and ins: "insert_bucket (tables w)
        \<lparr>b_ID = new_uuid w (now w), b_Name = n, b_OwnerID = own, b_CreatedAt = wall w (now w)\<rparr> = Inr (b, t)"
      by (auto simp: uuid_arg_def split: option.splits sum.splits)
    show ?case
      using insert_bucket_step [OF _ ins, where env = env and owner = owner] own assms by (simp add: md_ok_def)
  qed (use assms in \<open>simp add: md_ok_def\<close>)
  from wpE_mono [OF this] show ?thesis
    using assms unfolding md_exec.simps mh_CreateBucket_def CreateBucket_def
    by (auto simp: wp md_ok_def md_step.failed split: option.splits)
qed

lemma deleteBucketTx_wp:
  assumes "tab_ok env (tables w)"
  shows "wpE (deleteBucketTx env n ctx) (\<lambda>i w'. tab_ok env (tables w') \<and>
      (\<forall>ok. md_step env (CallDeleteBucket n) ok (md_view (tables w)) (md_view (tables w')))) (\<lambda>_ _. True) w"
  unfolding deleteBucketTx_def bucket_Get_def wp
proof (rule wpE_pg_select, goal_cases)
  case (1 b)
  then have "scan_one (take 1 (bucket_named (tables w) n)) = Inr b" by (auto split: option.splits)
  then have "b \<in> set (bucket_named (tables w) n)"
    by (cases "bucket_named (tables w) n") auto
  then have b: "b \<in> set (buckets (tables w))" "b_Name b = n" by (simp_all add: bucket_named_def)
  with assms have c: "uuid_in env (b_ID b) = Some (b_ID b)" by (simp add: tab_ok_def canonical_def)
  show ?case
    unfolding bucket_CountObjects_def wp
  proof (rule wpE_pg_select, goal_cases)
    case (1 count)
    then have count: "count = int (length (filter (\<lambda>x. o_BucketID x = b_ID b) (objects (tables w))))"
      by (simp add: c uuid_arg_def)
    show ?case
    proof (cases "count > 0")
      case False
      then have none: "x \<in> set (objects (tables w)) \<Longrightarrow> o_BucketID x \<noteq> b_ID b" for x
        by (simp add: count filter_empty_conv)
      show ?thesis
        using False unfolding bucket_Delete_def wp
        apply simp
        apply (rule wpE_pg_statement)
        using delete_bucket_step [OF assms b(1) none] b(2) by (auto simp: c uuid_arg_def split_beta wp)
    qed (simp add: wp)
  next
    case (2 e)
    then have "e \<in> range db_fault_error" by (auto simp: c uuid_arg_def)
    then show ?case by (simp add: db_fault_errors wp)
  qed
qed (simp add: wp)


text \<open>What a committed \<open>CreateObjectVersion\<close> leaves in the tables, with its answer.\<close>

definition version_created ::
  "pg_env \<Rightarrow> tables \<Rightarrow> string \<Rightarrow> string \<Rightarrow> string \<Rightarrow> int \<Rightarrow> string \<Rightarrow> string \<Rightarrow> string \<times> string \<times> int \<Rightarrow> tables \<Rightarrow> bool" where
  "version_created env t n k blob sz etag ctype r t' =
    (tab_ok env t' \<and> (\<forall>ok. md_step env (CallCreateObjectVersion n k blob sz etag ctype) ok (md_view t) (md_view t')) \<and>
     (\<exists>x v. current t' n k = Some (x, v) \<and> versions t' = versions t @ [v] \<and> r = (o_ID x, v_ID v, v_CreatedAt v) \<and>
        v_BlobID v = uuid_in env blob \<and> v_BlobID v \<noteq> None \<and> v_SizeBytes v = sz \<and> v_Etag v = etag \<and> v_ContentType v = ctype \<and>
        v_VersionNumber v = next_version_number t (o_ID x)) \<and> text_in env n \<and> text_in env k \<and>
     buckets t' = buckets t \<and>
     (\<forall>x \<in> set (objects t). \<exists>y \<in> set (objects t'). o_ID y = o_ID x \<and> o_Key y = o_Key x \<and> o_BucketID y = o_BucketID x))"

lemma createVersionTx_wp:
  assumes ok: "tab_ok env (tables w)" and key: "k \<noteq> []"
  shows "wpE (createVersionTx env n k blob sz etag ctype ctx)
    (\<lambda>r w'. version_created env (tables w) n k blob sz etag ctype r (tables w')) (\<lambda>_ _. True) w"
  unfolding createVersionTx_def UpsertObject_def wp
proof (rule wpE_pg_statement, goal_cases)
  case (1 oid t1)
  then have up: "upsert_object (tables w) (new_uuid w (now w)) n k = Inr (oid, t1)" and texts: "text_in env n" "text_in env k"
    by (auto simp: text_arg_def split: if_splits option.splits)
  have s: "schema_ok (tables w)" using ok by (simp add: tab_ok_def db_ok_def)
  have t1: "schema_ok t1" "versions t1 = versions (tables w)" using upsert_effect [OF s up] by blast+
  show ?case
    unfolding InsertVersion_def wp
  proof (rule wpE_pg_select, goal_cases)
    case (1 lockedObjectID)
    show ?case
    proof (rule wpE_pg_statement, goal_cases)
      case (1 r t2)
      let ?u = "w\<lparr>now := Suc (now w), tables := t1, now := Suc (now (w\<lparr>now := Suc (now w), tables := t1\<rparr>))\<rparr>"
      from 1 obtain b where b: "uuid_in env blob = Some b"
        by (auto simp: uuid_arg_def split: option.splits sum.splits)
      define v where "v = \<lparr>v_ID = new_uuid ?u (now ?u), v_ObjectID = oid, v_BlobID = Some b,
        v_SizeBytes = sz, v_Etag = etag, v_ContentType = ctype, v_VersionNumber = next_version_number t1 oid,
        v_Kind = VersionKindBlob, v_State = VersionStateCommitted, v_CreatedAt = wall ?u (now ?u),
        v_CommittedAt = Some (wall ?u (now ?u)), v_AbortedAt = None\<rparr>"
      from 1 have ins: "insert_version t1 v = Inr t2" and r: "r = (v_ID v, v_CreatedAt v)"
        by (auto simp: b v_def uuid_arg_def Let_def split: option.splits sum.splits)
      have e: "tab_ok env (set_current t2 oid (v_ID v)) \<and>
          (\<exists>x. current (set_current t2 oid (v_ID v)) n k = Some (x, v) \<and> o_ID x = oid) \<and>
          versions (set_current t2 oid (v_ID v)) = versions (tables w) @ [v] \<and>
          buckets (set_current t2 oid (v_ID v)) = buckets (tables w) \<and>
          (\<forall>x \<in> set (objects (tables w)). \<exists>y \<in> set (objects (set_current t2 oid (v_ID v))).
             o_ID y = o_ID x \<and> o_Key y = o_Key x \<and> o_BucketID y = o_BucketID x) \<and>
          (\<forall>ok'. md_step env (CallCreateObjectVersion n k blob sz etag ctype) ok' (md_view (tables w))
            (md_view (set_current t2 oid (v_ID v))))"
        using create_version_step [OF ok up, of v blob t2] ins b key by (simp add: v_def live_version_def)
      then have "version_created env (tables w) n k blob sz etag ctype (oid, v_ID v, v_CreatedAt v)
          (set_current t2 oid (v_ID v))"
        by (auto simp: version_created_def v_def b next_version_number_def t1(2) texts)
      then show ?case
        unfolding r SetCurrentVersion_def by (auto simp: wp intro!: wpE_pg_statement split: if_splits)
    qed simp
  qed simp
qed (simp add: wp)

lemma simulates_create_version:
  assumes "md_ok env w" "ExtractTx ctx = None"
  shows "wpE (CreateObjectVersion env ctx n k blob sz etag ctype)
    (\<lambda>r w'. saved w' = None \<and> version_created env (tables w) n k blob sz etag ctype r (tables w'))
    (\<lambda>_ w'. saved w' = None \<and> (tables w' = tables w \<or>
        (\<exists>r. version_created env (tables w) n k blob sz etag ctype r (tables w')))) w"
proof (cases "Validate [required n ''bucket_name is required'', required k ''key is required'', required blob ''blob_id is required'']")
  case None
  have "wpE (ReadCommitted pg_transactor ctx (createVersionTx env n k blob sz etag ctype))
    (\<lambda>r w'. saved w' = None \<and> version_created env (tables w) n k blob sz etag ctype r (tables w'))
    (\<lambda>_ w'. saved w' = None \<and> (tables w' = tables w \<or>
        (\<exists>r. version_created env (tables w) n k blob sz etag ctype r (tables w')))) w"
  proof (rule metadata_db.ReadCommitted_wp)
    show "wpE (createVersionTx env n k blob sz etag ctype (InjectTx ctx tx))
        (\<lambda>r w2. version_created env (tables w) n k blob sz etag ctype r (tables w2)) (\<lambda>_ _. True) w1"
      if "tables w1 = tables w" for tx w1
      using createVersionTx_wp [of env w1 k n blob sz etag ctype "InjectTx ctx tx"] that assms(1) None
      by (simp add: md_ok_def Validate_None required_def split: if_splits)
  qed (use assms in \<open>auto simp: md_ok_def intro: frame\<close>)
  then show ?thesis by (simp add: CreateObjectVersion_def None)
next
  case (Some e)
  then show ?thesis using assms(1) by (simp add: CreateObjectVersion_def wp md_ok_def)
qed

lemma simulates_delete_bucket:
  assumes "md_ok env w" "ExtractTx ctx = None"
  shows "simulates env w (CallDeleteBucket n) (md_exec env bt ot ctx (CallDeleteBucket n))"
proof -
  let ?Q = "\<lambda>t'. tab_ok env t' \<and> (\<forall>ok. md_step env (CallDeleteBucket n) ok (md_view (tables w)) (md_view t'))"
  have tx: "wpE (ReadCommitted pg_transactor ctx (deleteBucketTx env n)) (\<lambda>_ w'. saved w' = None \<and> ?Q (tables w'))
      (\<lambda>_ w'. saved w' = None \<and> (tables w' = tables w \<or> (\<exists>x :: string. ?Q (tables w')))) w"
  proof (rule metadata_db.ReadCommitted_wp)
    show "wpE (deleteBucketTx env n (InjectTx ctx tx)) (\<lambda>_ w2. ?Q (tables w2)) (\<lambda>_ _. True) w1"
      if "tables w1 = tables w" for tx w1
      using deleteBucketTx_wp [of env w1 n "InjectTx ctx tx"] that assms(1) by (simp add: md_ok_def)
  qed (use assms in \<open>auto simp: md_ok_def intro: frame\<close>)
  show ?thesis
    unfolding md_exec.simps mh_DeleteBucket_def DeleteBucket_def wp
  proof (rule wpE_mono [OF tx], goal_cases)
    case (1 i u)
    then show ?case by (intro wpE_mono [OF producer_Send_tables]) auto
  next
    case (2 e u)
    then show ?case using assms(1) by (auto simp: md_ok_def md_step.failed)
  qed
qed

lemma simulates_delete_object:
  assumes "md_ok env w"
  shows "simulates env w (CallDeleteObjectMeta n k) (md_exec env bt ot ctx (CallDeleteObjectMeta n k))"
proof -
  let ?Q = "\<lambda>t'. tab_ok env t' \<and> (\<forall>ok. md_step env (CallDeleteObjectMeta n k) ok (md_view (tables w)) (md_view t'))"
  have del: "wpE (object_Delete env n k) (\<lambda>_ w'. saved w' = None \<and> ?Q (tables w'))
      (\<lambda>_ w'. saved w' = None \<and> tables w' = tables w) w"
    unfolding object_Delete_def wp if_distrib [where f = "\<lambda>m. wpE m _ _"]
  proof (rule wpE_pg_statement, goal_cases)
    case (1 r t)
    let ?P = "\<lambda>x. o_Key x = k \<and> (\<exists>b \<in> set (bucket_named (tables w) n). b_ID b = o_BucketID x)"
    from 1 obtain x xs where x: "filter ?P (objects (tables w)) = x # xs" "t = drop_objects ?P (tables w)"
      by (auto simp: Let_def split: option.splits list.splits)
    then have "x \<in> set (objects (tables w))" "?P x" by (auto simp: filter_eq_Cons_iff)
    then have "?Q t" using delete_object_step [of env "tables w" x ?P k n] assms x(2) by (simp add: md_ok_def)
    then show ?case using assms by (auto simp: wp md_ok_def split: prod.splits option.splits)
  qed (use assms in \<open>simp add: md_ok_def\<close>)
  show ?thesis
    unfolding md_exec.simps mh_DeleteObjectMeta_def DeleteObjectMeta_def wp
  proof (rule wpE_mono [OF del], goal_cases)
    case (1 i u)
    then show ?case by (cases i) (auto intro!: wpE_mono [OF producer_Send_tables] simp: wp)
  next
    case (2 e u)
    then show ?case using assms by (auto simp: md_ok_def md_step.failed)
  qed
qed


lemma md_exec_simulates:
  assumes "md_ok env w" "ExtractTx ctx = None"
  shows "simulates env w c (md_exec env bt ot ctx c)"
proof (cases c)
  case (CallCreateObjectVersion n k blob sz etag ctype)
  show ?thesis
    unfolding CallCreateObjectVersion md_exec.simps mh_CreateObjectVersion_def wp
    by (rule wpE_mono [OF simulates_create_version [OF assms]])
      (use assms(1) in \<open>auto simp: wp version_created_def md_ok_def md_step.failed split: prod.splits\<close>)
next
  case CallHealthCheck
  then show ?thesis
    by (intro simulates_read [OF assms(1)])
      (auto simp: mh_HealthCheck_def metadata_HealthCheck_def intro!: frame)
qed (auto intro!: simulates_create_bucket simulates_delete_bucket simulates_delete_object simulates_read frame assms
    simp: mh_GetBucket_def GetBucket_def mh_HeadBucket_def HeadBucket_def mh_ListBuckets_def ListBuckets_def
      mh_GetObjectMeta_def GetObjectMeta_def mh_ListObjects_def ListObjects_def simp del: md_exec.simps(1-4))

lemma md_exec_new_uuid: "preserves (md_exec env bt ot ctx c) new_uuid"
  by (cases c) (auto intro!: frame simp: mh_GetBucket_def GetBucket_def mh_HeadBucket_def HeadBucket_def mh_ListBuckets_def
      ListBuckets_def mh_GetObjectMeta_def GetObjectMeta_def mh_ListObjects_def ListObjects_def mh_HealthCheck_def
      metadata_HealthCheck_def mh_CreateBucket_def CreateBucket_def mh_DeleteBucket_def DeleteBucket_def
      mh_CreateObjectVersion_def CreateObjectVersion_def mh_DeleteObjectMeta_def DeleteObjectMeta_def split: option.splits)

text \<open>A history of calls, each with whether it was answered without error.\<close>

fun md_run :: "pg_env \<Rightarrow> string \<Rightarrow> string \<Rightarrow> ctx \<Rightarrow> md_call list \<Rightarrow> md_world \<Rightarrow> (md_call \<times> bool) list \<times> md_world" where
  "md_run env bt ot ctx [] w = ([], w)"
| "md_run env bt ot ctx (c # cs) w =
    (case md_exec env bt ot ctx c w of (r, w1) \<Rightarrow>
     (case md_run env bt ot ctx cs w1 of (h, w2) \<Rightarrow> ((c, \<not> isl r) # h, w2)))"

inductive md_steps :: "pg_env \<Rightarrow> (md_call \<times> bool) list \<Rightarrow> md_abs \<Rightarrow> md_abs \<Rightarrow> bool" for env where
  nil: "md_steps env [] a a"
| cons: "md_step env c ok a b \<Longrightarrow> md_steps env h b d \<Longrightarrow> md_steps env ((c, ok) # h) a d"

lemma md_exec_step:
  assumes "md_ok env w" "ExtractTx ctx = None" "md_exec env bt ot ctx c w = (r, w')"
  shows "md_ok env w' \<and> md_step env c (\<not> isl r) (md_view (tables w)) (md_view (tables w'))"
  using md_exec_simulates [OF assms(1,2), of bt ot c] preservesD [OF md_exec_new_uuid assms(3)] assms(1,3)
  by (cases r) (auto simp: wpE_def md_ok_def)

lemma md_run_steps:
  assumes "md_ok env w" "ExtractTx ctx = None" "md_run env bt ot ctx cs w = (h, w')"
  shows "md_ok env w' \<and> md_steps env h (md_view (tables w)) (md_view (tables w'))"
  using assms(1,3)
proof (induction cs arbitrary: w h)
  case Nil
  then show ?case by (simp add: md_steps.nil)
next
  case (Cons c cs)
  obtain r w1 where r: "md_exec env bt ot ctx c w = (r, w1)" by fastforce
  obtain h1 w2 where h1: "md_run env bt ot ctx cs w1 = (h1, w2)" by fastforce
  note step = md_exec_step [OF Cons.prems(1) assms(2) r]
  show ?case
    using step Cons.IH [of w1 h1] Cons.prems(2) h1 r by (auto intro: md_steps.cons)
qed

end
