(* ===== verification/Metadata_List.thy ===== *)
theory Metadata_List
  imports Metadata_Refine
begin

text \<open>
  Reading: the version a lookup finds, and the pages of a listing. A page is a prefix of the sorted
  rows after its token, and the token of a truncated page continues exactly where it ended.
\<close>

section \<open>Lookups by version id\<close>

text \<open>A version of an object is found by its id, current or not.\<close>

lemma meta_rows_version:
  assumes s: "schema_ok t" and "b \<in> set (buckets t)" "x \<in> set (objects t)" "o_BucketID x = b_ID b"
    "v \<in> set (versions t)" "v_ObjectID v = o_ID x"
  shows "meta_rows t (b_Name b) (o_Key x) (\<lambda>y u. v_ID u = v_ID v \<and> v_ObjectID u = o_ID y) = [(x, v)]"
proof -
  have b: "bucket_named t (b_Name b) = [b]"
    using assms(2) s unfolding bucket_named_def by (intro filter_unique [where f = b_Name]) (auto simp: schema_ok_def)
  let ?g = "\<lambda>y. concat (map (\<lambda>b. map (Pair y)
      (filter (\<lambda>u. (v_ID u = v_ID v \<and> v_ObjectID u = o_ID y) \<and> live_version u) (versions t)))
      (filter (\<lambda>b. b_ID b = o_BucketID y) [b]))"
  let ?xs = "filter (\<lambda>y. o_Key y = o_Key x \<and> o_Status y = ObjectStatusActive) (objects t)"
  have "concat (map ?g ?xs) = ?g x"
  proof (rule concat_unique)
    show "distinct ?xs" using s by (simp add: schema_ok_def distinct_map)
    show "x \<in> set ?xs" using assms(3) s by (auto simp: schema_ok_def)
    show "?g y = []" if "y \<in> set ?xs" "y \<noteq> x" for y
      using that assms(3,4) s by (auto simp: schema_ok_def distinct_map inj_on_def)
  qed
  moreover have "filter (\<lambda>u. (v_ID u = v_ID v \<and> v_ObjectID u = o_ID x) \<and> live_version u) (versions t) = [v]"
    using assms(5,6) s by (intro filter_unique [where f = v_ID]) (auto simp: schema_ok_def)
  ultimately show ?thesis by (simp add: meta_rows_def b assms(4))
qed

definition meta_of :: "Object \<Rightarrow> Version \<Rightarrow> ObjectMeta" where
  "meta_of x v = \<lparr>m_ObjectID = o_ID x, m_VersionID = v_ID v, m_BlobID = the (v_BlobID v), m_SizeBytes = v_SizeBytes v,
     m_Etag = v_Etag v, m_ContentType = v_ContentType v, m_LastModified = v_CreatedAt v\<rparr>"

lemma scan_meta_one: "v_BlobID v \<noteq> None \<Longrightarrow> scan_meta [(x, v)] = Inr (meta_of x v)"
  by (auto simp: scan_meta_def meta_of_row_def meta_of_def)

lemma pg_select_run:
  "db_faults w (now w) = None \<Longrightarrow> pg_select f w = (f w, w\<lparr>now := Suc (now w)\<rparr>)"
  by (auto simp: pg_select_def pg_statement_def Let_def split: sum.splits)

lemma catchE_fst:
  "fst (catchE m (\<lambda>e. if P e then throwE a else throwE e) w) =
     (case fst (m w) of Inl e \<Rightarrow> Inl (if P e then a else e) | Inr x \<Rightarrow> Inr x)"
  by (auto simp: catchE_def throwE_def split: prod.splits sum.splits)

lemma GetMeta_tables:
  assumes "tables w' = tables w" "db_faults w (now w) = None" "db_faults w' (now w') = None"
  shows "fst (GetMeta env n k vid w') = fst (GetMeta env n k vid w)"
  unfolding GetMeta_def catchE_fst by (simp only: pg_select_run [OF assms(2)] pg_select_run [OF assms(3)] assms(1) fst_conv)

lemma GetMeta_current:
  assumes "db_ok (tables w)" "text_in env n" "text_in env k" "db_faults w (now w) = None"
  shows "GetMeta env n k [] w = (case current (tables w) n k of
     None \<Rightarrow> (Inl ErrObjectNotFound, w\<lparr>now := Suc (now w)\<rparr>)
   | Some (x, v) \<Rightarrow> (Inr (meta_of x v), w\<lparr>now := Suc (now w)\<rparr>))"
proof (cases "current (tables w) n k")
  case None
  with assms show ?thesis
    by (simp add: GetMeta_def catchE_def throwE_def pg_select_run text_arg_def meta_rows_current scan_meta_def)
next
  case (Some r)
  obtain x v where r: "r = (x, v)" by fastforce
  have "v_BlobID v \<noteq> None"
    using Some assms(1) r by (auto simp: current_iff [of "tables w"] db_ok_def schema_ok_def)
  with assms Some r show ?thesis
    by (simp add: GetMeta_def catchE_def throwE_def pg_select_run text_arg_def meta_rows_current scan_meta_one)
qed

lemma GetMeta_version:
  assumes s: "schema_ok (tables w)" and "text_in env (b_Name b)" "text_in env (o_Key x)" "db_faults w (now w) = None"
    and rows: "b \<in> set (buckets (tables w))" "x \<in> set (objects (tables w))" "o_BucketID x = b_ID b"
      "v \<in> set (versions (tables w))" "v_ObjectID v = o_ID x"
    and "vid \<noteq> []" "uuid_in env vid = Some (v_ID v)"
  shows "GetMeta env (b_Name b) (o_Key x) vid w = (Inr (meta_of x v), w\<lparr>now := Suc (now w)\<rparr>)"
proof -
  have "v_BlobID v \<noteq> None" using rows(4) s by (auto simp: schema_ok_def)
  with assms show ?thesis
    by (simp add: GetMeta_def catchE_def throwE_def pg_select_run text_arg_def uuid_arg_def
        meta_rows_version [OF s rows] scan_meta_one)
qed

section \<open>Pages\<close>

locale key_order =
  fixes lt :: "string \<Rightarrow> string \<Rightarrow> bool"
  assumes irrefl: "\<not> lt a a"
    and trans: "lt a b \<Longrightarrow> lt b c \<Longrightarrow> lt a c"
    and total: "a \<noteq> b \<Longrightarrow> lt a b \<or> lt b a"
begin

abbreviation ordered :: "('a \<Rightarrow> string) \<Rightarrow> 'a list \<Rightarrow> bool" where
  "ordered key \<equiv> sorted_wrt (\<lambda>a b. lt (key a) (key b))"

lemma set_insert_by: "set (insert_by lt' x xs) = insert x (set xs)"
  by (induction xs) auto

lemma set_order_by: "set (order_by lt' xs) = set xs"
  by (induction xs) (auto simp: order_by_def set_insert_by)

lemma insert_by_ordered:
  assumes "ordered key xs" "\<And>y. y \<in> set xs \<Longrightarrow> key y \<noteq> key x"
  shows "ordered key (insert_by (\<lambda>a b. lt (key a) (key b)) x xs)"
  using assms
proof (induction xs)
  case (Cons y ys)
  show ?case
  proof (cases "lt (key y) (key x)")
    case True
    with Cons show ?thesis by (auto simp: set_insert_by)
  next
    case False
    then have xy: "lt (key x) (key y)" using Cons.prems(2) [of y] total by force
    then have "lt (key x) (key z)" if "z \<in> set ys" for z
      using Cons.prems(1) that trans by auto
    with False xy Cons.prems(1) show ?thesis by simp
  qed
qed simp

lemma order_by_ordered:
  "distinct (map key xs) \<Longrightarrow> ordered key (order_by (\<lambda>a b. lt (key a) (key b)) xs)"
proof (induction xs)
  case (Cons x xs)
  have "key y \<noteq> key x" if "y \<in> set (order_by (\<lambda>a b. lt (key a) (key b)) xs)" for y
    using that Cons.prems unfolding set_order_by by (metis distinct.simps(2) image_eqI list.set_map list.simps(9))
  with Cons show ?case
    by (simp add: order_by_def) (simp add: order_by_def [symmetric] insert_by_ordered)
qed (simp add: order_by_def)

text \<open>An ordered list is determined by its elements.\<close>

lemma ordered_unique: "ordered key xs \<Longrightarrow> ordered key ys \<Longrightarrow> set xs = set ys \<Longrightarrow> xs = ys"
proof (induction xs arbitrary: ys)
  case (Cons x xs)
  then obtain y ys' where ys: "ys = y # ys'" by (cases ys) auto
  have "x = y"
  proof (rule ccontr)
    assume "x \<noteq> y"
    then have "lt (key x) (key y)" "lt (key y) (key x)"
      using Cons.prems ys by (metis list.set_intros(1) set_ConsD sorted_wrt.simps(2))+
    then show False using trans irrefl by blast
  qed
  moreover have "x \<notin> set xs" "y \<notin> set ys'" using Cons.prems ys irrefl by auto
  ultimately have "set xs = set ys'" using Cons.prems(3) ys by auto
  with Cons ys \<open>x = y\<close> show ?case by simp
qed simp

text \<open>The rows after the last of the first \<open>m\<close> rows are the remaining ones.\<close>

lemma filter_after:
  assumes "ordered key xs" "0 < m" "m \<le> length xs"
  shows "filter (\<lambda>y. lt (key (last (take m xs))) (key y)) xs = drop m xs"
proof -
  define p where "p = last (take m xs)"
  have ne: "take m xs \<noteq> []" using assms(2,3) by auto
  have split: "ordered key (take m xs)" "\<And>y z. y \<in> set (take m xs) \<Longrightarrow> z \<in> set (drop m xs) \<Longrightarrow> lt (key y) (key z)"
    using assms(1) sorted_wrt_append [of "\<lambda>a b. lt (key a) (key b)" "take m xs" "drop m xs"]
    unfolding append_take_drop_id by blast+
  have "\<not> lt (key p) (key y)" if "y \<in> set (take m xs)" for y
  proof (cases "y = p")
    case False
    have "y \<in> set (butlast (take m xs) @ [p])" using that ne by (simp add: p_def)
    with False have "y \<in> set (butlast (take m xs))" by simp
    moreover have "ordered key (butlast (take m xs) @ [p])" using split(1) ne by (simp add: p_def)
    ultimately have "lt (key y) (key p)" by (auto simp: sorted_wrt_append)
    then show ?thesis using trans irrefl by blast
  qed (simp add: irrefl)
  moreover have "lt (key p) (key y)" if "y \<in> set (drop m xs)" for y
    using split(2) [OF _ that, of p] ne by (simp add: p_def)
  ultimately have "filter (\<lambda>y. lt (key p) (key y)) (take m xs @ drop m xs) = drop m xs"
    by (simp only: filter_append) (simp add: filter_empty_conv filter_id_conv)
  then show ?thesis by (simp add: p_def)
qed

end


section \<open>The rows of a listing\<close>

lemma concat_if: "concat (map (\<lambda>x. if P x then [f x] else []) xs) = map f (filter P xs)"
  by (induction xs) auto

lemma list_rows_eq:
  assumes "db_ok t" "bucket_named t n = [b]"
  shows "list_rows t n = map (\<lambda>x. the (current t n (o_Key x))) (filter (\<lambda>x. o_BucketID x = b_ID b) (objects t))"
proof -
  have s: "schema_ok t" using assms(1) by (simp add: db_ok_def)
  have b: "b \<in> set (buckets t)" "b_Name b = n"
    using assms(2) filter_set [of "\<lambda>b. b_Name b = n" "buckets t"] by (auto simp: bucket_named_def filter_eq_Cons_iff)
  have all: "filter (\<lambda>x. o_Status x = ObjectStatusActive) (objects t) = objects t"
    using s by (auto simp: filter_id_conv schema_ok_def)
  have row: "concat (map (\<lambda>b. map (Pair x)
      (filter (\<lambda>v. o_CurrentVersionID x = Some (v_ID v) \<and> live_version v) (versions t)))
      (filter (\<lambda>b. b_ID b = o_BucketID x) [b])) =
      (if o_BucketID x = b_ID b then [the (current t n (o_Key x))] else [])" if x: "x \<in> set (objects t)" for x
  proof (cases "o_BucketID x = b_ID b")
    case True
    obtain v where v: "current t n (o_Key x) = Some (x, v)" "v \<in> set (versions t)" "o_CurrentVersionID x = Some (v_ID v)"
      using current_Some [OF assms(1) b(1) x True] b(2) by metis
    have "live_version v" using v(2) s by (simp add: schema_ok_def)
    with version_by_id [OF s v(2), of live_version] v(1,3) True show ?thesis by simp
  qed simp
  show ?thesis
    unfolding list_rows_def all assms(2)
    by (subst concat_if [symmetric], rule arg_cong [where f = concat], rule map_cong [OF refl row])
qed

lemma list_items_keys:
  assumes "db_ok t"
  shows "distinct (map i_Key (map list_item (list_rows t n)))"
    and "i \<in> set (map list_item (list_rows t n)) \<longleftrightarrow> (\<exists>x v. current t n (o_Key x) = Some (x, v) \<and> i = list_item (x, v))"
proof -
  have s: "schema_ok t" using assms by (simp add: db_ok_def)
  have "distinct (map i_Key (map list_item (list_rows t n))) \<and>
    (i \<in> set (map list_item (list_rows t n)) \<longleftrightarrow> (\<exists>x v. current t n (o_Key x) = Some (x, v) \<and> i = list_item (x, v)))"
  proof (cases rule: bucket_named_cases [OF s, of n])
    case 1
    then have "list_rows t n = []" "current t n k = None" for k by (simp_all add: list_rows_def current_def)
    then show ?thesis by simp
  next
    case (2 b)
    let ?xs = "filter (\<lambda>x. o_BucketID x = b_ID b) (objects t)"
    have cur: "\<exists>v. current t n (o_Key x) = Some (x, v)" if "x \<in> set ?xs" for x
      using current_Some [OF assms 2(2), of x] 2(3) that by auto
    have "map i_Key (map list_item (list_rows t n)) = map o_Key ?xs"
      unfolding list_rows_eq [OF assms 2(1)] map_map
      by (rule map_cong [OF refl]) (use cur in \<open>fastforce simp: list_item_def\<close>)
    moreover have "distinct (map o_Key ?xs)"
      using s by (auto simp: schema_ok_def distinct_map inj_on_def)
    moreover have "x \<in> set ?xs" if "current t n (o_Key x) = Some (x, v)" for x v
    proof -
      from that obtain c where "x \<in> set (objects t)" "c \<in> set (buckets t)" "b_Name c = n" "b_ID c = o_BucketID x"
        by (auto simp: current_iff [OF s])
      moreover from this have "c = b" using 2(2,3) s by (auto simp: schema_ok_def distinct_map inj_on_def)
      ultimately show ?thesis by simp
    qed
    with cur have "i \<in> set (map list_item (list_rows t n)) \<longleftrightarrow>
        (\<exists>x v. current t n (o_Key x) = Some (x, v) \<and> i = list_item (x, v))"
      unfolding list_rows_eq [OF assms 2(1)] set_map image_image image_iff by (metis option.sel)
    ultimately show ?thesis by simp
  qed
  then show "distinct (map i_Key (map list_item (list_rows t n)))"
    "i \<in> set (map list_item (list_rows t n)) \<longleftrightarrow> (\<exists>x v. current t n (o_Key x) = Some (x, v) \<and> i = list_item (x, v))"
    by blast+
qed

lemma list_query_ordered:
  assumes "key_order (collate_less env)" "db_ok t"
  shows "sorted_wrt (\<lambda>a b. collate_less env (i_Key a) (i_Key b)) (list_query env t n pre tok)"
  unfolding list_query_def
  using list_items_keys(1) [OF assms(2), of n]
  by (intro key_order.order_by_ordered [OF assms(1)] distinct_map_filter)

lemma set_list_query:
  assumes "key_order (collate_less env)"
  shows "set (list_query env t n pre tok) = {i \<in> set (map list_item (list_rows t n)).
    (pre \<noteq> [] \<longrightarrow> sql_like (pre @ ''%'') (i_Key i)) \<and> (tok \<noteq> [] \<longrightarrow> collate_less env tok (i_Key i))}"
  unfolding list_query_def key_order.set_order_by [OF assms] by auto

text \<open>The listing from a later token is the rest of the listing.\<close>

lemma list_query_token:
  assumes ko: "key_order (collate_less env)" and "db_ok t" "tok' \<noteq> []" "tok = [] \<or> collate_less env tok tok'"
  shows "list_query env t n pre tok' = filter (\<lambda>i. collate_less env tok' (i_Key i)) (list_query env t n pre tok)"
proof (rule key_order.ordered_unique [OF ko])
  show "sorted_wrt (\<lambda>a b. collate_less env (i_Key a) (i_Key b)) (list_query env t n pre tok')"
    by (rule list_query_ordered [OF assms(1,2)])
  show "sorted_wrt (\<lambda>a b. collate_less env (i_Key a) (i_Key b))
      (filter (\<lambda>i. collate_less env tok' (i_Key i)) (list_query env t n pre tok))"
    by (intro sorted_wrt_filter list_query_ordered [OF assms(1,2)])
  show "set (list_query env t n pre tok') =
      set (filter (\<lambda>i. collate_less env tok' (i_Key i)) (list_query env t n pre tok))"
    using assms(3,4) key_order.trans [OF ko] unfolding set_filter set_list_query [OF ko] by auto
qed

definition page_size :: "int \<Rightarrow> nat" where
  "page_size maxKeys = nat (if maxKeys \<le> 0 \<or> maxKeys > defaultMaxKeys then defaultMaxKeys else maxKeys)"

lemma page_size_bounds: "0 < page_size m \<and> page_size m \<le> 1000"
  by (auto simp: page_size_def defaultMaxKeys_def)

lemma object_List_run:
  assumes "db_faults w (now w) = None" "text_in env n" "text_in env pre" "text_in env tok"
  shows "object_List env n pre tok m w =
    (let rows = list_query env (tables w) n pre tok; page = take (page_size m) rows; full = page_size m \<le> length rows in
     (Inr (page, if full then i_Key (last page) else [], full), w\<lparr>now := Suc (now w)\<rparr>))"
proof -
  have "nat (if m \<le> 0 \<or> m > defaultMaxKeys then defaultMaxKeys else m) = page_size m"
    "(if m \<le> 0 \<or> m > defaultMaxKeys then defaultMaxKeys else m) = int (page_size m)"
    by (auto simp: page_size_def defaultMaxKeys_def)
  with assms show ?thesis
    by (auto simp: object_List_def Let_def bindE_def returnE_def pg_select_run min_def)
qed

text \<open>A truncated page and the listing from its token make up the listing.\<close>

lemma page_rest:
  assumes ko: "key_order (collate_less env)" and ok: "tab_ok env t"
    and m: "0 < m" "m \<le> length (list_query env t n pre tok)"
  defines "page \<equiv> take m (list_query env t n pre tok)"
  shows "list_query env t n pre tok = page @ list_query env t n pre (i_Key (last page)) \<and> i_Key (last page) \<noteq> []"
proof -
  let ?q = "list_query env t n pre"
  have db: "db_ok t" using ok by (simp add: tab_ok_def)
  have "page \<noteq> []" using m by (auto simp: page_def)
  then have "last page \<in> set page" by simp
  then have "last page \<in> set (?q tok)" unfolding page_def by (rule in_set_takeD)
  then have mem: "last page \<in> set (map list_item (list_rows t n))" "tok \<noteq> [] \<longrightarrow> collate_less env tok (i_Key (last page))"
    unfolding set_list_query [OF ko] by blast+
  have ne: "i_Key (last page) \<noteq> []"
  proof -
    obtain x v where "current t n (o_Key x) = Some (x, v)" "last page = list_item (x, v)"
      using mem(1) list_items_keys(2) [OF db] by blast
    moreover from this have "x \<in> set (objects t)" using db by (auto simp: current_iff db_ok_def)
    ultimately show ?thesis using ok by (simp add: tab_ok_def list_item_def)
  qed
  have "?q (i_Key (last page)) = filter (\<lambda>i. collate_less env (i_Key (last page)) (i_Key i)) (?q tok)"
    using list_query_token [OF ko db ne] mem(2) by blast
  also have "\<dots> = drop m (?q tok)"
    unfolding page_def by (rule key_order.filter_after [OF ko list_query_ordered [OF ko db] m])
  finally show ?thesis using ne by (simp add: page_def)
qed


section \<open>A lookup answers an existing version\<close>

lemma GetMeta_version_inv:
  assumes s: "schema_ok (tables w)" and "vid \<noteq> []" "db_faults w (now w) = None" "fst (GetMeta env n k vid w) = Inr meta"
  obtains b x v where "text_in env n" "text_in env k" "uuid_in env vid = Some (v_ID v)"
    "b \<in> set (buckets (tables w))" "b_Name b = n" "x \<in> set (objects (tables w))" "o_Key x = k" "o_BucketID x = b_ID b"
    "v \<in> set (versions (tables w))" "v_ObjectID v = o_ID x" "meta = meta_of x v"
proof -
  let ?rows = "\<lambda>u. meta_rows (tables w) n k (\<lambda>x v. v_ID v = u \<and> v_ObjectID v = o_ID x)"
  from assms(2-) obtain u where u: "text_in env n" "text_in env k" "uuid_in env vid = Some u" "scan_meta (?rows u) = Inr meta"
    by (auto simp: GetMeta_def catchE_def throwE_def pg_select_run text_arg_def uuid_arg_def split: sum.splits if_splits option.splits)
  from u(4) obtain x v where xv: "?rows u = [(x, v)]" "meta = meta_of x v"
    by (auto simp: scan_meta_def meta_of_row_def meta_of_def split: sum.splits option.splits elim!: scan_one.elims)
  then have "(x, v) \<in> set (?rows u)" by simp
  then obtain b where "b \<in> set (buckets (tables w))" "b_Name b = n" "b_ID b = o_BucketID x" "x \<in> set (objects (tables w))"
      "o_Key x = k" "v \<in> set (versions (tables w))" "v_ID v = u" "v_ObjectID v = o_ID x"
    unfolding meta_rows_def bucket_named_def by auto
  with u xv that show ?thesis by metis
qed

text \<open>A new version leaves the lookups of the existing versions as they are.\<close>

lemma versions_stay:
  assumes "md_ok env w" and new: "version_created env (tables w) n' k' blob sz etag ctype r (tables w')"
    and "vid \<noteq> []" "db_faults w (now w) = None" "db_faults w' (now w') = None" "fst (GetMeta env n k vid w) = Inr meta"
  shows "fst (GetMeta env n k vid w') = Inr meta"
proof -
  have s: "schema_ok (tables w)" "schema_ok (tables w')"
    using assms(1) new by (auto simp: md_ok_def tab_ok_def db_ok_def version_created_def)
  obtain b x v where f: "text_in env n" "text_in env k" "uuid_in env vid = Some (v_ID v)"
    "b \<in> set (buckets (tables w))" "b_Name b = n" "x \<in> set (objects (tables w))" "o_Key x = k" "o_BucketID x = b_ID b"
    "v \<in> set (versions (tables w))" "v_ObjectID v = o_ID x" "meta = meta_of x v"
    using GetMeta_version_inv [OF s(1) assms(3,4,6)] .
  obtain x' where x': "x' \<in> set (objects (tables w'))" "o_ID x' = o_ID x" "o_Key x' = k" "o_BucketID x' = b_ID b"
    and b': "b \<in> set (buckets (tables w'))" and v': "v \<in> set (versions (tables w'))"
    using new f by (auto simp: version_created_def)
  have "GetMeta env (b_Name b) (o_Key x') vid w' = (Inr (meta_of x' v), w'\<lparr>now := Suc (now w')\<rparr>)"
    using x' b' v' f by (intro GetMeta_version [OF s(2)] assms) auto
  with f x' show ?thesis by (simp add: meta_of_def)
qed

end
