(* ===== verification/Metadata_Props.thy ===== *)
theory Metadata_Props
  imports Metadata_List
begin

text \<open>
  The properties of the metadata service, and a concrete database in which their hypotheses hold.
\<close>

section \<open>A concrete database\<close>

text \<open>Identifiers that read as themselves, any text, and the byte order of the collation C.\<close>

fun bytes_less :: "string \<Rightarrow> string \<Rightarrow> bool" where
  "bytes_less _ [] = False"
| "bytes_less [] (_ # _) = True"
| "bytes_less (a # s) (b # t) =
    ((of_char a :: nat) < of_char b \<or> a = b \<and> bytes_less s t)"

interpretation c_collation: key_order bytes_less
proof
  show "\<not> bytes_less a a" for a by (induction a) auto
  show "bytes_less a c" if "bytes_less a b" "bytes_less b c" for a b c
    using that
  proof (induction a b arbitrary: c rule: bytes_less.induct)
    case (2 b t)
    then show ?case by (cases c) auto
  next
    case (3 a s b t)
    then show ?case by (cases c) auto
  qed auto
  show "bytes_less a b \<or> bytes_less b a" if "a \<noteq> b" for a b
    using that
  proof (induction a b rule: bytes_less.induct)
    case (1 s)
    then show ?case by (cases s) auto
  next
    case (3 a s b t)
    have "(of_char a :: nat) < of_char b \<or> (of_char b :: nat) < of_char a \<or> a = b"
      by (metis char_of_char nat_neq_iff)
    with 3 show ?case by auto
  qed auto
qed

definition example_env :: pg_env where
  "example_env = \<lparr>uuid_in = Some, text_in = (\<lambda>_. True), collate_less = bytes_less\<rparr>"

definition example_db :: md_world where
  "example_db = \<lparr>now = 0, tables = \<lparr>buckets = [], objects = [], versions = []\<rparr>, saved = None,
     db_faults = (\<lambda>_. None), new_uuid = (\<lambda>i. CHR ''u'' # nat_digits i), wall = (\<lambda>i. 1000 * int i), events = []\<rparr>"

lemma example_db_ok: "md_ok example_env example_db"
  by (simp add: md_ok_def tab_ok_def db_ok_def schema_ok_def example_db_def example_env_def canonical_def)

lemma Background_no_tx [simp]: "ExtractTx Background = None"
  by (simp add: ExtractTx_def Background_def)

section \<open>The service as a whole\<close>

text \<open>
  C9. The metadata service refines a map of buckets and a map from bucket and key to the current
  version. For any history of calls, under any faults of the database and of Kafka, lost
  acknowledgements of commits included: the tables keep their constraints and every object points
  to its latest version; a call that succeeds has exactly its effect, one that fails has this
  effect or none; a bucket disappears only when it is empty; a new version supersedes the current
  one with a larger number.
\<close>

theorem metadata_refines_object_map:
  assumes "md_ok env w" "ExtractTx ctx = None" "md_run env bt ot ctx cs w = (h, w')"
  shows "md_ok env w' \<and> map fst h = cs \<and> md_steps env h (md_view (tables w)) (md_view (tables w'))"
proof -
  have "map fst h = cs"
    using assms(3) by (induction cs arbitrary: w h) (auto split: prod.splits)
  with md_run_steps [OF assms] show ?thesis by blast
qed

theorem metadata_refines_object_map_witness:
  "let (h, w') = md_run example_env ''b'' ''o'' Background [CallCreateBucket ''photos'' ''alice'',
         CallCreateObjectVersion ''photos'' ''cat'' ''blob1'' 5 ''e'' ''image/png'', CallDeleteBucket ''photos''] example_db in
   md_ok example_env w' \<and> md_steps example_env h (md_view (tables example_db)) (md_view (tables w'))"
proof -
  obtain h w' where r: "md_run example_env ''b'' ''o'' Background [CallCreateBucket ''photos'' ''alice'',
      CallCreateObjectVersion ''photos'' ''cat'' ''blob1'' 5 ''e'' ''image/png'', CallDeleteBucket ''photos''] example_db = (h, w')"
    by fastforce
  show ?thesis
    unfolding Let_def r using metadata_refines_object_map [OF example_db_ok Background_no_tx r] by simp
qed

section \<open>Versions\<close>

text \<open>
  C10. What \<open>CreateObjectVersion\<close> acknowledged is what \<open>GetObjectMeta\<close> answers next: the
  object and version ids it returned, the blob, size, etag and content type it was given. Its
  version number is one more than the largest of the object, so versions are numbered in order.
\<close>

theorem create_version_roundtrip:
  assumes "md_ok env w" "ExtractTx ctx = None"
    and put: "CreateObjectVersion env ctx n k blob sz etag ctype w = (Inr (oid, vid, time), w')"
    and "db_faults w' (now w') = None"
  shows "\<exists>b. uuid_in env blob = Some b \<and>
    fst (GetObjectMeta env n k [] w') = Inr \<lparr>m_ObjectID = oid, m_VersionID = vid, m_BlobID = b, m_SizeBytes = sz,
       m_Etag = etag, m_ContentType = ctype, m_LastModified = time\<rparr> \<and>
    (\<exists>v \<in> set (versions (tables w')). v_ID v = vid \<and> v_VersionNumber v = next_version_number (tables w) oid)"
proof -
  from wpE_InrD [OF simulates_create_version [OF assms(1,2)] put]
  obtain x v where v: "current (tables w') n k = Some (x, v)" "versions (tables w') = versions (tables w) @ [v]"
      "oid = o_ID x" "vid = v_ID v" "time = v_CreatedAt v" "v_BlobID v = uuid_in env blob" "v_BlobID v \<noteq> None"
      "v_SizeBytes v = sz" "v_Etag v = etag" "v_ContentType v = ctype" "v_VersionNumber v = next_version_number (tables w) (o_ID x)"
    and ok: "tab_ok env (tables w')" "text_in env n" "text_in env k"
    unfolding version_created_def prod.inject by blast
  have "GetObjectMeta env n k [] w' = (Inr (meta_of x v), w'\<lparr>now := Suc (now w')\<rparr>)"
    using GetMeta_current [of w' env n k] ok v(1) assms(4) by (simp add: GetObjectMeta_def tab_ok_def)
  with v show ?thesis by (auto simp: meta_of_def)
qed

definition example_put :: "(go_error + string \<times> string \<times> int) \<times> md_world" where
  "example_put = CreateObjectVersion example_env Background ''photos'' ''cat'' ''blob1'' 5 ''e'' ''image/png''
     (snd (CreateBucket example_env ''photos'' ''alice'' example_db))"

lemma example_put_run:
  "fst example_put = Inr (''u2'', ''u4'', 4000)" "now (snd example_put) = 7" "db_faults (snd example_put) 7 = None"
  by code_simp+

lemma example_bucket_ok: "md_ok example_env (snd (CreateBucket example_env ''photos'' ''alice'' example_db))"
proof -
  obtain r w' where r: "md_exec example_env [] [] Background (CallCreateBucket ''photos'' ''alice'') example_db = (r, w')"
    by fastforce
  then have "w' = snd (CreateBucket example_env ''photos'' ''alice'' example_db)"
    by (auto simp: mh_CreateBucket_def bindE_def returnE_def split: prod.splits sum.splits)
  with md_exec_step [OF example_db_ok Background_no_tx r] show ?thesis by simp
qed

lemma example_put_ok: "md_ok example_env (snd example_put)"
proof -
  let ?w = "snd (CreateBucket example_env ''photos'' ''alice'' example_db)"
  obtain r w' where r: "md_exec example_env [] [] Background
      (CallCreateObjectVersion ''photos'' ''cat'' ''blob1'' 5 ''e'' ''image/png'') ?w = (r, w')"
    by fastforce
  then have "w' = snd example_put"
    by (auto simp: example_put_def mh_CreateObjectVersion_def bindE_def returnE_def split: prod.splits sum.splits)
  with md_exec_step [OF example_bucket_ok Background_no_tx r] show ?thesis by simp
qed

lemma example_put_calm: "db_faults (snd example_put) i = None"
proof -
  have "preserves (CreateObjectVersion example_env Background n k blob sz etag ctype) db_faults"
      "preserves (CreateBucket example_env n owner) db_faults" for n k blob sz etag ctype owner
    unfolding CreateObjectVersion_def CreateBucket_def by (intro frame md_frames tx_frames)+
  then show ?thesis by (simp add: example_put_def preserves_def example_db_def)
qed

theorem create_version_roundtrip_witness:
  "fst (GetObjectMeta example_env ''photos'' ''cat'' [] (snd example_put)) =
     Inr \<lparr>m_ObjectID = ''u2'', m_VersionID = ''u4'', m_BlobID = ''blob1'', m_SizeBytes = 5,
       m_Etag = ''e'', m_ContentType = ''image/png'', m_LastModified = 4000\<rparr>"
proof -
  have "CreateObjectVersion example_env Background ''photos'' ''cat'' ''blob1'' 5 ''e'' ''image/png''
      (snd (CreateBucket example_env ''photos'' ''alice'' example_db)) = (Inr (''u2'', ''u4'', 4000), snd example_put)"
    using example_put_run(1) by (metis example_put_def prod.collapse)
  from create_version_roundtrip [OF example_bucket_ok Background_no_tx this] example_put_run show ?thesis
    by (simp add: example_env_def)
qed


text \<open>
  C11. Versions are never lost or rewritten by later uploads: whatever \<open>CreateObjectVersion\<close>
  does, for any key and with any outcome, a lookup of an earlier version by its id answers the
  same as before.
\<close>

theorem versions_stay_readable:
  assumes "md_ok env w" "ExtractTx ctx = None"
    and put: "CreateObjectVersion env ctx n' k' blob sz etag ctype w = (res, w')"
    and "vid \<noteq> []" "db_faults w (now w) = None" "db_faults w' (now w') = None"
    and get: "fst (GetObjectMeta env n k vid w) = Inr meta"
  shows "fst (GetObjectMeta env n k vid w') = Inr meta"
proof -
  have "tables w' = tables w \<or> (\<exists>r. version_created env (tables w) n' k' blob sz etag ctype r (tables w'))"
    using wpE_InrD [OF simulates_create_version [OF assms(1,2)]] wpE_InlD [OF simulates_create_version [OF assms(1,2)]] put
    by (cases res) blast+
  then consider "tables w' = tables w" | r where "version_created env (tables w) n' k' blob sz etag ctype r (tables w')"
    by blast
  then show ?thesis
  proof cases
    case 1
    show ?thesis using GetMeta_tables [OF 1 assms(5,6), of env n k vid] get by (simp add: GetObjectMeta_def)
  next
    case 2
    show ?thesis
      using versions_stay [OF assms(1) 2 assms(4,5,6)] get by (simp add: GetObjectMeta_def)
  qed
qed


theorem versions_stay_readable_witness:
  "let w1 = snd example_put; w2 = snd (CreateObjectVersion example_env Background ''photos'' ''cat'' ''blob2'' 9 ''f'' ''image/png'' w1) in
   fst (GetObjectMeta example_env ''photos'' ''cat'' ''u4'' w2) =
     Inr \<lparr>m_ObjectID = ''u2'', m_VersionID = ''u4'', m_BlobID = ''blob1'', m_SizeBytes = 5,
       m_Etag = ''e'', m_ContentType = ''image/png'', m_LastModified = 4000\<rparr>"
proof -
  let ?w2 = "snd (CreateObjectVersion example_env Background ''photos'' ''cat'' ''blob2'' 9 ''f'' ''image/png'' (snd example_put))"
  have run: "CreateObjectVersion example_env Background ''photos'' ''cat'' ''blob2'' 9 ''f'' ''image/png'' (snd example_put) =
      (fst (CreateObjectVersion example_env Background ''photos'' ''cat'' ''blob2'' 9 ''f'' ''image/png'' (snd example_put)), ?w2)"
    by simp
  have get: "fst (GetObjectMeta example_env ''photos'' ''cat'' ''u4'' (snd example_put)) =
      Inr \<lparr>m_ObjectID = ''u2'', m_VersionID = ''u4'', m_BlobID = ''blob1'', m_SizeBytes = 5,
       m_Etag = ''e'', m_ContentType = ''image/png'', m_LastModified = 4000\<rparr>"
    by code_simp
  have "db_faults ?w2 (now ?w2) = None" by code_simp
  then show ?thesis
    unfolding Let_def
    using versions_stay_readable [OF example_put_ok Background_no_tx run _ _ _ get] example_put_run by simp
qed

section \<open>Buckets\<close>

lemma current_nonempty:
  assumes "bucket_named t n = b # bs" "current t n k \<noteq> None"
  shows "filter (\<lambda>x. o_BucketID x = b_ID b) (objects t) \<noteq> []"
proof -
  have "object_at t (b_ID b) k \<noteq> []" using assms by (auto simp: current_def)
  then show ?thesis by (auto simp: object_at_def filter_empty_conv)
qed

lemma deleteBucketTx_nonempty:
  assumes "tab_ok env (tables w)" "current (tables w) n k \<noteq> None"
  shows "wpE (deleteBucketTx env n ctx) (\<lambda>_ _. False) (\<lambda>_ _. True) w"
  unfolding deleteBucketTx_def bucket_Get_def wp
proof (rule wpE_pg_select, goal_cases)
  case (1 b)
  then have "scan_one (take 1 (bucket_named (tables w) n)) = Inr b" by (auto split: option.splits)
  then obtain bs where b: "bucket_named (tables w) n = b # bs"
    by (cases "bucket_named (tables w) n") auto
  then have "b \<in> set (bucket_named (tables w) n)" by simp
  then have c: "uuid_in env (b_ID b) = Some (b_ID b)"
    using assms(1) by (simp add: tab_ok_def canonical_def bucket_named_def)
  have some: "filter (\<lambda>x. o_BucketID x = b_ID b) (objects (tables w)) \<noteq> []"
    using current_nonempty [OF b assms(2)] .
  show ?case
    unfolding bucket_CountObjects_def wp
  proof (rule wpE_pg_select, goal_cases)
    case (1 count)
    with some have "count > 0" by (auto simp: c uuid_arg_def simp flip: length_greater_0_conv)
    then show ?case by (simp add: wp)
  next
    case (2 e)
    then have "e \<in> range db_fault_error" by (auto simp: c uuid_arg_def)
    then show ?case by (simp add: db_fault_errors wp)
  qed
qed (simp add: wp)

lemma deleteBucketTx_code:
  assumes "tab_ok env (tables w)" "current (tables w) n k \<noteq> None" "text_in env n"
    "db_faults w (now w) = None" "db_faults w (Suc (now w)) = None"
  shows "fst (deleteBucketTx env n ctx w) = Inl ErrBucketNotEmpty"
proof -
  obtain b bs where b: "bucket_named (tables w) n = b # bs"
    using assms(2) by (auto simp: current_def split: list.splits)
  then have "b \<in> set (bucket_named (tables w) n)" by simp
  then have c: "uuid_in env (b_ID b) = Some (b_ID b)"
    using assms(1) by (simp add: tab_ok_def canonical_def bucket_named_def)
  have "filter (\<lambda>x. o_BucketID x = b_ID b) (objects (tables w)) \<noteq> []"
    using current_nonempty [OF b assms(2)] .
  with assms b c show ?thesis
    by (simp add: deleteBucketTx_def bucket_Get_def bucket_CountObjects_def bindE_def catchE_def throwE_def pg_select_run
        text_arg_def uuid_arg_def)
qed

text \<open>
  C12. A bucket that holds an object is never deleted: the call fails, under any faults, the tables
  are as before and no deletion event is published. Without faults the client sees the status
  FailedPrecondition, although the error passed through the rollback and its wrapping.
\<close>

theorem DeleteBucket_refuses_nonempty:
  assumes "md_ok env w" "ExtractTx ctx = None" "current (tables w) n k \<noteq> None"
  shows "\<exists>e w'. mh_DeleteBucket env topic ctx n w = (Inl e, w') \<and> tables w' = tables w \<and> events w' = events w \<and>
    (text_in env n \<and> (\<forall>i. db_faults w i = None) \<longrightarrow>
       handleError (Some e) = Some (StatusError G_FailedPrecondition ''bucket is not empty''))"
proof -
  let ?tx = "ReadCommitted pg_transactor ctx (deleteBucketTx env n)"
  have "wpE ?tx (\<lambda>_ w'. saved w' = None \<and> False)
      (\<lambda>_ w'. saved w' = None \<and> (tables w' = tables w \<or> (\<exists>x :: string. False))) w"
  proof (rule metadata_db.ReadCommitted_wp)
    show "wpE (deleteBucketTx env n (InjectTx ctx tx)) (\<lambda>_ _. False) (\<lambda>_ _. True) w1" if "tables w1 = tables w" for tx w1
      using deleteBucketTx_nonempty [of env w1 n k] that assms(1,3) by (simp add: md_ok_def)
  qed (use assms in \<open>auto simp: md_ok_def intro: frame\<close>)
  then obtain e w' where tx: "?tx w = (Inl e, w')" "tables w' = tables w"
    by (auto simp: wpE_def split: prod.splits sum.splits)
  have "preserves ?tx events" by (intro frame md_frames tx_frames)
  from preservesD [OF this tx(1)] have ev: "events w' = events w" .
  have code: "as_common e = Some (''bucket is not empty'', FailedPrecondition)"
    if t: "text_in env n" "\<And>i. db_faults w i = None"
  proof -
    let ?w1 = "w\<lparr>now := Suc (now w), saved := Some (tables w)\<rparr>"
    have "BeginTx pg_transactor w = (Inr (now w), ?w1)"
      using t(2) by (simp add: pg_transactor_def pg_BeginTx_def Let_def)
    moreover have "fst (deleteBucketTx env n (InjectTx ctx (now w)) ?w1) = Inl ErrBucketNotEmpty"
      using assms(1,3) t by (intro deleteBucketTx_code [of _ _ _ k]) (auto simp: md_ok_def)
    then obtain w2 where "deleteBucketTx env n (InjectTx ctx (now w)) ?w1 = (Inl ErrBucketNotEmpty, w2)"
      by (metis prod.collapse)
    ultimately show ?thesis
      using transaction_error_code [where f = "deleteBucketTx env n", OF assms(2)] tx(1)
      by (fastforce simp: metadata_errors)
  qed
  have "handleError (Some e) = Some (StatusError G_FailedPrecondition ''bucket is not empty'')"
    if "as_common e = Some (''bucket is not empty'', FailedPrecondition)"
    using that by (simp add: handleError_def IsCommonError_def GetCommonError_def status_Err_def toGRPCCode_def Code_defs)
  with tx ev code show ?thesis
    by (auto simp: mh_DeleteBucket_def DeleteBucket_def bindE_def)
qed


theorem DeleteBucket_refuses_nonempty_witness:
  "\<exists>e w'. mh_DeleteBucket example_env ''t'' Background ''photos'' (snd example_put) = (Inl e, w') \<and>
     handleError (Some e) = Some (StatusError G_FailedPrecondition ''bucket is not empty'')"
proof -
  have "current (tables (snd example_put)) ''photos'' ''cat'' \<noteq> None" by code_simp
  then show ?thesis
    using example_put_calm DeleteBucket_refuses_nonempty [OF example_put_ok Background_no_tx, of "''photos''" "''cat''" "''t''"]
    by (auto simp: example_env_def)
qed

section \<open>Deleting an object\<close>

text \<open>
  C14. \<open>DeleteObjectMeta\<close> removes the object with all its versions, and publishes one event
  that names the object and the blob of its current version. The blobs of the earlier versions
  appear in no event, and no row refers to them any more.
\<close>

theorem DeleteObjectMeta_event:
  assumes "md_ok env w" "text_in env n" "text_in env k" "\<And>i. db_faults w i = None"
    and cur: "current (tables w) n k = Some (x, v)"
  shows "\<exists>w'. DeleteObjectMeta env topic n k w = (Inr (o_ID x, the (v_BlobID v)), w') \<and>
    events w' = events w @ [\<lparr>ev_topic = topic, ev_key = o_ID x, ev_value = objectDeletedEvent (o_ID x) (the (v_BlobID v))\<rparr>] \<and>
    current (tables w') n k = None \<and>
    versions (tables w') = filter (\<lambda>u. v_ObjectID u \<noteq> o_ID x) (versions (tables w))"
proof -
  let ?t = "tables w"
  let ?P = "\<lambda>y. o_Key y = k \<and> (\<exists>b \<in> set (bucket_named ?t n). b_ID b = o_BucketID y)"
  have ok: "db_ok ?t" "schema_ok ?t" using assms(1) by (simp_all add: md_ok_def tab_ok_def db_ok_def)
  from cur obtain b where x: "x \<in> set (objects ?t)" "o_Key x = k" "b \<in> set (buckets ?t)" "b_Name b = n" "b_ID b = o_BucketID x"
      "v \<in> set (versions ?t)" "o_CurrentVersionID x = Some (v_ID v)"
    by (auto simp: current_iff [OF ok(2)])
  have bn: "bucket_named ?t n = [b]"
    unfolding bucket_named_def using x(3,4) ok(2) by (intro filter_unique [where f = b_Name]) (auto simp: schema_ok_def)
  have own: "v_ObjectID v = o_ID x"
    using current_Some [OF ok(1) x(3,1)] x cur by (metis option.inject prod.inject)
  have P: "filter ?P (objects ?t) = [x]"
    using x ok(2) bn by (intro filter_unique [where f = "\<lambda>y. (o_BucketID y, o_Key y)"]) (auto simp: schema_ok_def)
  have "filter (\<lambda>u. v_ObjectID u = o_ID x \<and> Some (v_ID u) = o_CurrentVersionID x) (versions ?t) = [v]"
    using x(6,7) own ok(2) by (intro filter_unique [where f = v_ID]) (auto simp: schema_ok_def)
  moreover obtain blob where blob: "v_BlobID v = Some blob" using x(6) ok(2) by (auto simp: schema_ok_def)
  ultimately have del: "object_Delete env n k w =
      (Inr (o_ID x, blob), w\<lparr>now := Suc (now w), tables := drop_objects ?P ?t\<rparr>)"
    using P assms(2-4)
    by (simp add: object_Delete_def bindE_def catchE_def pg_statement_def text_arg_def Let_def returnE_def)
  have "current (drop_objects ?P ?t) n k = None"
    using x bn by (auto simp: drop_objects_current [OF ok(1)] cur)
  moreover have "versions (drop_objects ?P ?t) = filter (\<lambda>u. v_ObjectID u \<noteq> o_ID x) (versions ?t)"
    unfolding drop_objects_tables P by simp
  ultimately show ?thesis
    using del assms(4) blob
    by (simp add: DeleteObjectMeta_def bindE_def catchE_def producer_Send_def Let_def returnE_def)
qed

theorem DeleteObjectMeta_event_witness:
  "\<exists>w'. DeleteObjectMeta example_env ''t'' ''photos'' ''cat'' (snd example_put) = (Inr (''u2'', ''blob1''), w') \<and>
     versions (tables w') = []"
proof -
  obtain x v where cur: "current (tables (snd example_put)) ''photos'' ''cat'' = Some (x, v)"
      and x: "o_ID x = ''u2''" "v_BlobID v = Some ''blob1''"
  proof -
    have "map_option (\<lambda>(x, v). (o_ID x, v_BlobID v)) (current (tables (snd example_put)) ''photos'' ''cat'') =
      Some (''u2'', Some ''blob1'')" by code_simp
    then show thesis using that by auto
  qed
  have "filter (\<lambda>u. v_ObjectID u \<noteq> ''u2'') (versions (tables (snd example_put))) = []" by code_simp
  with DeleteObjectMeta_event [OF example_put_ok _ _ example_put_calm cur, of "''t''"] x show ?thesis
    by (auto simp: example_env_def)
qed

section \<open>Listing\<close>

text \<open>
  C15. A page has at most a thousand rows, in the order of the keys. A page marked truncated and
  the listing that starts at its token make up the listing: following the tokens visits every row
  once, none twice. A page that is not truncated is the whole rest.
\<close>

theorem ListObjects_pages:
  assumes "key_order (collate_less env)" "md_ok env w" "db_faults w (now w) = None"
    "text_in env n" "text_in env pre" "text_in env tok"
  shows "\<exists>page next truncated w'. ListObjects env n pre tok maxKeys w = (Inr (page, next, truncated), w') \<and>
    length page \<le> 1000 \<and> sorted_wrt (\<lambda>a b. collate_less env (i_Key a) (i_Key b)) page \<and>
    (if truncated then page \<noteq> [] \<and> next \<noteq> [] \<and>
        list_query env (tables w) n pre tok = page @ list_query env (tables w) n pre next
     else page = list_query env (tables w) n pre tok)"
proof -
  let ?q = "list_query env (tables w) n pre tok" and ?m = "page_size maxKeys"
  have ok: "tab_ok env (tables w)" "db_ok (tables w)" using assms(2) by (simp_all add: md_ok_def tab_ok_def)
  have run: "ListObjects env n pre tok maxKeys w =
      (Inr (take ?m ?q, if ?m \<le> length ?q then i_Key (last (take ?m ?q)) else [], ?m \<le> length ?q), w\<lparr>now := Suc (now w)\<rparr>)"
    using object_List_run [OF assms(3-6)] by (simp add: ListObjects_def Let_def)
  have "sorted_wrt (\<lambda>a b. collate_less env (i_Key a) (i_Key b)) (take ?m ?q)"
    by (intro sorted_wrt_take list_query_ordered assms(1) ok)
  moreover have "take ?m ?q \<noteq> []" if "?m \<le> length ?q" using that page_size_bounds [of maxKeys] by auto
  ultimately show ?thesis
    using run page_rest [OF assms(1) ok(1), of ?m n pre tok] page_size_bounds [of maxKeys] by auto
qed

theorem ListObjects_pages_witness:
  "\<exists>page next truncated w'. ListObjects example_env ''photos'' ''c'' [] 1 (snd example_put) = (Inr (page, next, truncated), w') \<and>
    length page \<le> 1000"
  using ListObjects_pages [of example_env "snd example_put" "''photos''" "''c''" "[]" 1] example_put_ok example_put_calm
    c_collation.key_order_axioms
  by (auto simp: example_env_def)

text \<open>
  C16. For a prefix without percent sign, underscore and backslash, a listing from the start has
  exactly the objects of the bucket whose keys begin with the prefix, each with its current version.
\<close>

theorem ListObjects_prefix:
  assumes "key_order (collate_less env)" "db_ok t" "like_plain pre"
  shows "i \<in> set (list_query env t n pre []) \<longleftrightarrow>
    (\<exists>x v. current t n (o_Key x) = Some (x, v) \<and> HasPrefix (o_Key x) pre \<and> i = list_item (x, v))"
proof -
  have key: "i_Key (list_item (x, v)) = o_Key x" for x v by (simp add: list_item_def)
  have "(pre \<noteq> [] \<longrightarrow> sql_like (pre @ ''%'') s) \<longleftrightarrow> prefix pre s" for s
    using sql_like_plain [OF assms(3)] by auto
  then show ?thesis
    unfolding set_list_query [OF assms(1)] HasPrefix_iff mem_Collect_eq list_items_keys(2) [OF assms(2)]
    using key by metis
qed

theorem ListObjects_prefix_witness:
  "\<forall>i. i \<in> set (list_query example_env (tables (snd example_put)) ''photos'' ''ca'' []) \<longleftrightarrow>
    (\<exists>x v. current (tables (snd example_put)) ''photos'' (o_Key x) = Some (x, v) \<and> HasPrefix (o_Key x) ''ca'' \<and> i = list_item (x, v))"
proof -
  have "db_ok (tables (snd example_put))" using example_put_ok by (simp add: md_ok_def tab_ok_def)
  moreover have "key_order (collate_less example_env)" using c_collation.key_order_axioms by (simp add: example_env_def)
  moreover have "like_plain ''ca''" by (simp add: like_plain_def)
  ultimately show ?thesis using ListObjects_prefix by blast
qed

text \<open>A prefix is passed to LIKE unescaped: an underscore in it lists keys that do not begin with it.\<close>

lemma ListObjects_prefix_wildcard:
  "map i_Key (list_query example_env (tables (snd example_put)) ''photos'' ''c_t'' []) = [''cat''] \<and> \<not> HasPrefix ''cat'' ''c_t''"
  by code_simp

end
