(* ===== verification/Metadata_Race.thy ===== *)
theory Metadata_Race
  imports Metadata_Props
begin

text \<open>
  A transaction of the metadata service beside another call on the same database. Postgres at
  level READ COMMITTED gives every statement a fresh snapshot of what is committed, and a statement
  waits for the row locks of other transactions; both are modelled from its documentation. The
  transaction of \<open>DeleteBucket\<close> is a sequence of statements here, so that another call can commit
  between two of them, unless it needs a row that is locked.
\<close>

section \<open>Row locks\<close>










section \<open>Statements of a transaction\<close>








section \<open>Another call beside the transaction\<close>











section \<open>Runs without faults\<close>

definition calm :: "md_world \<Rightarrow> bool" where
  "calm w = (\<forall>i. db_faults w i = None)"

lemma calm_update [simp]: "calm (now_update f w) = calm w" "calm (tables_update g w) = calm w" "calm (saved_update h w) = calm w"
  by (simp_all add: calm_def)














section \<open>The race\<close>












definition in_tx :: "nat \<Rightarrow> md_world \<Rightarrow> md_world" where
  "in_tx i w = w\<lparr>now := i, saved := Some (tables w)\<rparr>"

lemma in_tx_simps [simp]:
  "now (in_tx i w) = i" "tables (in_tx i w) = tables w" "saved (in_tx i w) = Some (tables w)" "calm (in_tx i w) = calm w"
  "events (in_tx i w) = events w" "now_update f (in_tx i w) = in_tx (f i) w" "new_uuid (in_tx i w) = new_uuid w"
  by (simp_all add: in_tx_def)












end
