(* ===== verification/Gateway_Client.thy ===== *)
theory Gateway_Client
  imports Storage_Handler Metadata_Service
begin

text \<open>
  The gateway's clients of the two upstream services and its object service,
  \<open>services/gateway/internal/client\<close> and \<open>internal/service/object\<close>.

  The generated gRPC stubs are parameters: \<open>upstream\<close> has the calls the gateway makes. An
  upload has one stream per request, with its \<open>Send\<close> and \<open>CloseAndRecv\<close>; a download stream
  is the list of what its successive \<open>Recv\<close> calls return. Releasing a context with \<open>cancel\<close>
  has no effect on results and is left out.
\<close>

section \<open>Errors\<close>

definition gw_ErrBucketNotFound :: go_error where
  "gw_ErrBucketNotFound = ErrorString ''bucket not found''"
definition ErrEmptyStorageStream :: go_error where
  "ErrEmptyStorageStream = ErrorString ''storage returned an empty stream''"
definition ErrInsufficientStorage :: go_error where
  "ErrInsufficientStorage = ErrorString ''insufficient storage''"
definition ErrMetadataOverloaded :: go_error where
  "ErrMetadataOverloaded = ErrorString ''metadata is overloaded''"
definition ErrBlobMissing :: go_error where
  "ErrBlobMissing = ErrorString ''object data is missing in storage''"

lemmas gateway_errors = gw_ErrBucketNotFound_def ErrEmptyStorageStream_def ErrInsufficientStorage_def
  ErrMetadataOverloaded_def ErrBlobMissing_def

definition mapError :: "go_error \<Rightarrow> go_error" where
  "mapError err = (if status_Code err = G_ResourceExhausted then JoinError ErrMetadataOverloaded err else err)"

definition mapStoreError :: "go_error \<Rightarrow> go_error" where
  "mapStoreError err = (if status_Code err = G_ResourceExhausted then JoinError ErrInsufficientStorage err else err)"

definition mapRetrieveError :: "go_error \<Rightarrow> go_error" where
  "mapRetrieveError err = (if status_Code err = G_NotFound then JoinError ErrBlobMissing err else err)"

section \<open>The upstream services\<close>

record 'w upstream =
  rpc_HeadBucket :: "ctx \<Rightarrow> string \<Rightarrow> ('w, go_error, bool) op"
  rpc_CreateObjectVersion ::
    "ctx \<Rightarrow> string \<Rightarrow> string \<Rightarrow> string \<Rightarrow> int \<Rightarrow> string \<Rightarrow> string \<Rightarrow> ('w, go_error, CreateObjectVersionResponse) op"
  rpc_GetObjectMeta :: "ctx \<Rightarrow> string \<Rightarrow> string \<Rightarrow> ('w, go_error, ObjectMeta) op"
  rpc_StoreObject :: "ctx \<Rightarrow> ('w, go_error, unit) op"
  rpc_Send :: "store_msg \<Rightarrow> ('w, go_error, unit) op"
  rpc_CloseAndRecv :: "('w, go_error, StoreObjectResponse) op"
  rpc_RetrieveObject :: "ctx \<Rightarrow> string \<Rightarrow> int \<Rightarrow> ('w, go_error, bytes stream) op"

text \<open>\<open>context.WithTimeout\<close>: the earlier of the two ends.\<close>

definition WithTimeout :: "ctx \<Rightarrow> nat \<Rightarrow> nat \<Rightarrow> ctx" where
  "WithTimeout c timeout time =
    (case ctx_done c of
       Some (d, cause) \<Rightarrow> if d \<le> time + timeout then c else c\<lparr>ctx_done := Some (time + timeout, Expired)\<rparr>
     | None \<Rightarrow> c\<lparr>ctx_done := Some (time + timeout, Expired)\<rparr>)"

section \<open>The metadata client\<close>

record metadata_client =
  mc_timeout :: nat

record GatewayObjectMeta =
  g_BlobID :: string
  g_VersionID :: string
  g_Size :: int
  g_ETag :: string
  g_ContentType :: string

definition client_HeadBucket ::
  "'a clocked_scheme upstream \<Rightarrow> metadata_client \<Rightarrow> ctx \<Rightarrow> string \<Rightarrow> ('a clocked_scheme, go_error, bool) op" where
  "client_HeadBucket up c ctx bucket =
    bindE (getsE now) (\<lambda>t.
    wrapE mapError (rpc_HeadBucket up (WithTimeout ctx (mc_timeout c) t) bucket))"

definition client_CreateVersion ::
  "'a clocked_scheme upstream \<Rightarrow> metadata_client \<Rightarrow> ctx \<Rightarrow> string \<Rightarrow> string \<Rightarrow> string \<Rightarrow> int \<Rightarrow> string \<Rightarrow> string
    \<Rightarrow> ('a clocked_scheme, go_error, string) op" where
  "client_CreateVersion up c ctx bucket key blobID sz etag ctype =
    bindE (getsE now) (\<lambda>t.
    bindE (wrapE mapError (rpc_CreateObjectVersion up (WithTimeout ctx (mc_timeout c) t) bucket key blobID sz etag ctype)) (\<lambda>response.
    returnE (cv_VersionId response)))"

definition client_GetObject ::
  "'a clocked_scheme upstream \<Rightarrow> metadata_client \<Rightarrow> ctx \<Rightarrow> string \<Rightarrow> string \<Rightarrow> ('a clocked_scheme, go_error, GatewayObjectMeta) op" where
  "client_GetObject up c ctx bucket key =
    bindE (getsE now) (\<lambda>t.
    bindE (wrapE mapError (rpc_GetObjectMeta up (WithTimeout ctx (mc_timeout c) t) bucket key)) (\<lambda>response.
    returnE \<lparr>g_BlobID = m_BlobID response, g_VersionID = m_VersionID response, g_Size = m_SizeBytes response,
             g_ETag = m_Etag response, g_ContentType = m_ContentType response\<rparr>))"

section \<open>The storage client: uploads\<close>

definition uploadChunkSize :: nat where
  "uploadChunkSize = 64 * 1024"

record StoredObject =
  s_BlobID :: string
  s_ETag :: string
  s_Size :: int

definition storeSendError :: "'w upstream \<Rightarrow> go_error \<Rightarrow> ('w, go_error, 'b) op" where
  "storeSendError up sendErr =
    (if errors_Is sendErr EOF then
       bindE (tryE (rpc_CloseAndRecv up)) (\<lambda>r. case r of Inl err \<Rightarrow> throwE err | Inr _ \<Rightarrow> throwE sendErr)
     else throwE sendErr)"

text \<open>
  The copying loop; \<open>reads\<close> is what successive \<open>body.Read\<close> calls return, EOF when used up.
  The total is an \<open>int64\<close>.
\<close>

fun storeLoop :: "'w upstream \<Rightarrow> nat \<Rightarrow> 64 word \<Rightarrow> reads \<Rightarrow> ('w, go_error, 64 word) op" where
  "storeLoop up emptyReads tot [] = returnE tot"
| "storeLoop up emptyReads tot ((n, readErr) # body) =
    bindE (if n \<noteq> [] then catchE (rpc_Send up (StoreChunk n)) (storeSendError up) else returnE ()) (\<lambda>_.
    let emptyReads' = (if n \<noteq> [] then 0 else emptyReads); tot' = tot + word_of_nat (length n) in
    case readErr of
      Some e \<Rightarrow> if errors_Is e EOF then returnE tot' else throwE (BodyReadError e)
    | None \<Rightarrow>
       if n = [] then
         (if emptyReads' + 1 \<ge> 100 then throwE (BodyReadError ErrNoProgress) else storeLoop up (emptyReads' + 1) tot' body)
       else storeLoop up emptyReads' tot' body)"

definition Store :: "'w upstream \<Rightarrow> ctx \<Rightarrow> reads \<Rightarrow> int option \<Rightarrow> string \<Rightarrow> ('w, go_error, StoredObject) op" where
  "Store up ctx body sz ctype =
    wrapE mapStoreError
     (bindE (rpc_StoreObject up ctx) (\<lambda>_.
      bindE (catchE (rpc_Send up (StoreHeader sz ctype [])) (storeSendError up)) (\<lambda>_.
      bindE (storeLoop up 0 0 body) (\<lambda>tot.
      bindE (rpc_CloseAndRecv up) (\<lambda>response.
      returnE \<lparr>s_BlobID = respBlobId response, s_ETag = respChecksumMd5 response, s_Size = sint tot\<rparr>)))))"

section \<open>The storage client: downloads\<close>

definition storageMessageOverheadSize :: int where
  "storageMessageOverheadSize = 64 * 1024"

record streamReader =
  sr_stream :: "bytes stream option"
  sr_buffer :: bytes

definition Retrieve :: "'w upstream \<Rightarrow> int \<Rightarrow> ctx \<Rightarrow> string \<Rightarrow> int \<Rightarrow> ('w, go_error, streamReader) op" where
  "Retrieve up retrieveChunkSizeBytes ctx blobID expectedSize =
    bindE (wrapE mapRetrieveError
        (rpc_RetrieveObject up ctx blobID (retrieveChunkSizeBytes + storageMessageOverheadSize))) (\<lambda>stream.
    case stream_Recv stream of
      (Inl err, stream') \<Rightarrow>
        if \<not> errors_Is err EOF then throwE (mapRetrieveError err)
        else if expectedSize \<noteq> 0 then throwE ErrEmptyStorageStream
        else returnE \<lparr>sr_stream = None, sr_buffer = []\<rparr>
    | (Inr first, stream') \<Rightarrow> returnE \<lparr>sr_stream = Some stream', sr_buffer = first\<rparr>)"

text \<open>The loop of \<open>Read\<close> while the buffer is empty: the first chunk with data, or an error.\<close>

fun fill_loop :: "bytes stream \<Rightarrow> go_error + (bytes \<times> bytes stream)" where
  "fill_loop [] = Inl EOF"
| "fill_loop (Inl err # st) = Inl err"
| "fill_loop (Inr chunk # st) = (if chunk = [] then fill_loop st else Inr (chunk, st))"

text \<open>
  \<open>streamReader.Read\<close> into a buffer of \<open>p\<close> bytes. A stream that returned an error returns
  it again.
\<close>

definition streamReader_Read :: "nat \<Rightarrow> streamReader \<Rightarrow> (bytes \<times> go_error option) \<times> streamReader" where
  "streamReader_Read p r =
    (if p = 0 then (([], None), r)
     else if sr_buffer r \<noteq> [] then
       ((take p (sr_buffer r), None), r\<lparr>sr_buffer := drop p (sr_buffer r)\<rparr>)
     else case sr_stream r of
       None \<Rightarrow> (([], Some EOF), r)
     | Some st \<Rightarrow>
        (case fill_loop st of
           Inl err \<Rightarrow> (([], Some err), r\<lparr>sr_stream := Some [Inl err]\<rparr>)
         | Inr (chunk, st') \<Rightarrow> ((take p chunk, None), r\<lparr>sr_stream := Some st', sr_buffer := drop p chunk\<rparr>)))"

section \<open>The object service\<close>

record PutResult =
  p_ETag :: string
  p_VersionID :: string

record GetResult =
  r_Body :: streamReader
  r_Size :: int
  r_ETag :: string
  r_VersionID :: string
  r_ContentType :: string

record objectService =
  metadata :: metadata_client
  retrieveChunkSizeBytes :: int

definition service_Put ::
  "'a clocked_scheme upstream \<Rightarrow> objectService \<Rightarrow> ctx \<Rightarrow> string \<Rightarrow> string \<Rightarrow> reads \<Rightarrow> int option \<Rightarrow> string
    \<Rightarrow> ('a clocked_scheme, go_error, PutResult) op" where
  "service_Put up s ctx bucket key body sz ctype =
    bindE (client_HeadBucket up (metadata s) ctx bucket) (\<lambda>exists.
    if \<not> exists then throwE gw_ErrBucketNotFound
    else
    bindE (Store up ctx body sz ctype) (\<lambda>stored.
    bindE (client_CreateVersion up (metadata s) (WithoutCancel ctx) bucket key (s_BlobID stored) (s_Size stored)
             (s_ETag stored) ctype) (\<lambda>versionID.
    returnE \<lparr>p_ETag = s_ETag stored, p_VersionID = versionID\<rparr>)))"

definition service_Get ::
  "'a clocked_scheme upstream \<Rightarrow> objectService \<Rightarrow> ctx \<Rightarrow> string \<Rightarrow> string \<Rightarrow> ('a clocked_scheme, go_error, GetResult) op" where
  "service_Get up s ctx bucket key =
    bindE (client_GetObject up (metadata s) ctx bucket key) (\<lambda>meta.
    bindE (Retrieve up (retrieveChunkSizeBytes s) ctx (g_BlobID meta) (g_Size meta)) (\<lambda>body.
    returnE \<lparr>r_Body = body, r_Size = g_Size meta, r_ETag = g_ETag meta, r_VersionID = g_VersionID meta,
             r_ContentType = g_ContentType meta\<rparr>))"

end
