(* ===== verification/Go_Text.thy ===== *)
theory Go_Text
  imports Go_Errors
begin

text \<open>
  Text functions of Go's standard library that more than one component uses: quoting, the
  replacement of substrings and the trimming of white space. Strings are bytes; the functions
  are exact on ASCII text.
\<close>

text \<open>\<open>strconv.Quote\<close> for ASCII strings; bytes above 127 are copied.\<close>

definition quote_char :: "char \<Rightarrow> string" where
  "quote_char c =
    (let n = of_char c :: nat in
     if n = 34 then [CHR 0x5C, CHR 0x22] else if n = 92 then [CHR 0x5C, CHR 0x5C]
     else if n = 7 then [CHR 0x5C, CHR ''a''] else if n = 8 then [CHR 0x5C, CHR ''b'']
     else if n = 12 then [CHR 0x5C, CHR ''f''] else if n = 10 then [CHR 0x5C, CHR ''n'']
     else if n = 13 then [CHR 0x5C, CHR ''r''] else if n = 9 then [CHR 0x5C, CHR ''t'']
     else if n = 11 then [CHR 0x5C, CHR ''v'']
     else if n < 32 \<or> n = 127 then [CHR 0x5C, CHR ''x'', hex_char (n div 16), hex_char (n mod 16)]
     else [c])"

definition strconv_Quote :: "string \<Rightarrow> string" where
  "strconv_Quote s = CHR 0x22 # concat (map quote_char s) @ [CHR 0x22]"

text \<open>\<open>strings.Replace(s, old, new, -1)\<close> for a nonempty \<open>old\<close>: the occurrences from the left that do not overlap.\<close>

function ReplaceAll :: "string \<Rightarrow> string \<Rightarrow> string \<Rightarrow> string" where
  "ReplaceAll s old new =
    (if s = [] \<or> old = [] then s
     else if HasPrefix s old then new @ ReplaceAll (drop (length old) s) old new
     else hd s # ReplaceAll (tl s) old new)"
  by auto
termination
  by (relation "measure (\<lambda>(s, old, new). length s)") (auto simp: length_greater_0_conv [symmetric] simp del: length_greater_0_conv)

declare ReplaceAll.simps [simp del]

definition is_space :: "char \<Rightarrow> bool" where
  "is_space c = (of_char c \<in> {9, 10, 11, 12, 13, 32 :: nat})"

definition TrimSpace :: "string \<Rightarrow> string" where
  "TrimSpace s = rev (dropWhile is_space (rev (dropWhile is_space s)))"

text \<open>Replacing one character by a text without it leaves none of it.\<close>

lemma ReplaceAll_char:
  assumes "c \<notin> set new"
  shows "set (ReplaceAll s [c] new) \<subseteq> (set s - {c}) \<union> set new"
proof (induction s)
  case (Cons x s)
  then show ?case by (subst ReplaceAll.simps) (auto simp: HasPrefix_def)
qed (simp add: ReplaceAll.simps)

lemma set_TrimSpace: "set (TrimSpace s) \<subseteq> set s"
proof
  fix x assume "x \<in> set (TrimSpace s)"
  then have "x \<in> set (dropWhile is_space (rev (dropWhile is_space s)))" by (simp add: TrimSpace_def)
  then have "x \<in> set (rev (dropWhile is_space s))" by (blast dest: set_dropWhileD)
  then show "x \<in> set s" by (auto dest: set_dropWhileD)
qed

end
