(* ===== verification/Gateway_HTTP.thy ===== *)
theory Gateway_HTTP
  imports Gateway_Client Go_Text
begin

text \<open>
  The HTTP side of the gateway, \<open>services/gateway/internal/handler/httpapi\<close> and the
  instrumentation of \<open>internal/observability\<close>.

  A response writer has a status (0 until the header is written), the header map and the bytes
  written to the wire. \<open>wr k = Some (m, e)\<close> says that the \<open>k\<close>-th write fails with \<open>e\<close>
  after \<open>m\<close> of its bytes. A handler completes, or aborts by the panic \<open>http.ErrAbortHandler\<close>,
  on which the server closes the connection. Logs and spans are left out.
\<close>

section \<open>Package net/http\<close>

record http_request =
  rq_Method :: string
  rq_Path :: string
  rq_ContentType :: string
  rq_ContentLength :: int
  rq_Body :: reads
  rq_Context :: ctx

record statusWriter =
  sw_status :: int
  sw_header :: "string \<rightharpoonup> string"
  sw_body :: bytes
  sw_writes :: nat

datatype http_outcome = Completed | ErrAbortHandler

type_synonym write_faults = "nat \<Rightarrow> (nat \<times> go_error) option"

definition new_writer :: statusWriter where
  "new_writer = \<lparr>sw_status = 0, sw_header = (\<lambda>_. None), sw_body = [], sw_writes = 0\<rparr>"

definition set_header :: "string \<Rightarrow> string \<Rightarrow> statusWriter \<Rightarrow> statusWriter" where
  "set_header k v w = w\<lparr>sw_header := (sw_header w)(k \<mapsto> v)\<rparr>"

text \<open>\<open>statusWriter.WriteHeader\<close> and \<open>statusWriter.Write\<close>.\<close>

definition WriteHeader :: "int \<Rightarrow> statusWriter \<Rightarrow> statusWriter" where
  "WriteHeader st w = (if sw_status w \<noteq> 0 then w else w\<lparr>sw_status := st\<rparr>)"

definition sw_Write :: "write_faults \<Rightarrow> bytes \<Rightarrow> statusWriter \<Rightarrow> go_error option \<times> statusWriter" where
  "sw_Write wr p w =
    (let w' = (if sw_status w = 0 then w\<lparr>sw_status := 200\<rparr> else w) in
     case wr (sw_writes w) of
       Some (m, e) \<Rightarrow> (Some e, w'\<lparr>sw_body := sw_body w @ take m p, sw_writes := Suc (sw_writes w)\<rparr>)
     | None \<Rightarrow> (None, w'\<lparr>sw_body := sw_body w @ p, sw_writes := Suc (sw_writes w)\<rparr>))"

definition http_Error :: "write_faults \<Rightarrow> string \<Rightarrow> int \<Rightarrow> statusWriter \<Rightarrow> statusWriter" where
  "http_Error wr msg code w =
    snd (sw_Write wr (msg @ ''\<newline>'') (WriteHeader code
      (set_header ''X-Content-Type-Options'' ''nosniff'' (set_header ''Content-Type'' ''text/plain; charset=utf-8'' w))))"

definition http_NotFound :: "write_faults \<Rightarrow> statusWriter \<Rightarrow> statusWriter" where
  "http_NotFound wr w = http_Error wr ''404 page not found'' 404 w"

text \<open>\<open>http.StatusText\<close> of the codes the gateway uses.\<close>

definition StatusText :: "int \<Rightarrow> string" where
  "StatusText code =
    (if code = 400 then ''Bad Request'' else if code = 404 then ''Not Found''
     else if code = 502 then ''Bad Gateway'' else if code = 503 then ''Service Unavailable''
     else if code = 504 then ''Gateway Timeout'' else if code = 507 then ''Insufficient Storage''
     else if code = 500 then ''Internal Server Error'' else [])"

section \<open>Paths and errors\<close>

definition objectPath :: "string \<Rightarrow> string \<times> string \<times> bool" where
  "objectPath path =
    (if \<not> HasPrefix path ''/objects/'' then ([], [], False)
     else case Cut (TrimPrefix path ''/objects/'') (CHR ''/'') of
       (bucket, key, ok) \<Rightarrow> (bucket, key, ok \<and> bucket \<noteq> [] \<and> key \<noteq> []))"

definition statusClientClosedRequest :: int where
  "statusClientClosedRequest = 499"

definition classifyServiceError :: "go_error \<Rightarrow> int \<times> string" where
  "classifyServiceError err =
    (if errors_Is err gw_ErrBucketNotFound then (404, ''bucket not found'')
     else if errors_Is err ErrBodyRead then (400, ''could not read request body'')
     else if errors_Is err ErrEmptyStorageStream then (502, error_text err)
     else if errors_Is err ErrInsufficientStorage then (507, StatusText 507)
     else if errors_Is err ErrMetadataOverloaded then (503, StatusText 503)
     else if errors_Is err ErrBlobMissing then (502, StatusText 502)
     else
       let code = (case status_Code err of
           G_InvalidArgument \<Rightarrow> 400 | G_NotFound \<Rightarrow> 404 | G_Unavailable \<Rightarrow> 503
         | G_DeadlineExceeded \<Rightarrow> 504 | _ \<Rightarrow> 502) in
       (code, StatusText code))"

definition writeServiceError :: "write_faults \<Rightarrow> http_request \<Rightarrow> nat \<Rightarrow> go_error \<Rightarrow> statusWriter \<Rightarrow> statusWriter" where
  "writeServiceError wr r time err w =
    (case (if ctx_Err (rq_Context r) time \<noteq> None
           then (statusClientClosedRequest, ''client closed request'') else classifyServiceError err) of
       (code, body) \<Rightarrow> http_Error wr body code w)"

section \<open>Copying a verified object\<close>

lemma fill_loop_nonempty: "fill_loop st = Inr (chunk, st') \<Longrightarrow> chunk \<noteq> []"
  by (induction st rule: fill_loop.induct) (auto split: if_splits)

lemma streamReader_Read_progress:
  "streamReader_Read p r = ((bs, None), r') \<Longrightarrow> 0 < p \<Longrightarrow> bs \<noteq> [] \<and> length bs \<le> p"
  by (auto simp: streamReader_Read_def dest: fill_loop_nonempty split: if_splits option.splits sum.splits prod.splits)

text \<open>\<open>io.CopyN\<close> to the response: it ends with the error that kept it from copying \<open>n\<close> bytes.\<close>

function io_CopyN :: "write_faults \<Rightarrow> nat \<Rightarrow> streamReader \<Rightarrow> statusWriter \<Rightarrow> go_error option \<times> streamReader \<times> statusWriter" where
  "io_CopyN wr n r w =
    (if n = 0 then (None, r, w)
     else case streamReader_Read (min copyBufferSize n) r of
       ((bs, Some err), r') \<Rightarrow> (Some err, r', w)
     | ((bs, None), r') \<Rightarrow>
        (case sw_Write wr bs w of
           (Some err, w') \<Rightarrow> (Some err, r', w')
         | (None, w') \<Rightarrow> io_CopyN wr (n - length bs) r' w'))"
  by pat_completeness auto
termination
proof (relation "measure (\<lambda>(wr, n, r, w). n)", simp, goal_cases)
  case (1 wr n r w x r' bs e y w')
  then have "streamReader_Read (min copyBufferSize n) r = ((bs, None), r')" by simp
  from streamReader_Read_progress [OF this] 1(1) show ?case
    by (auto simp: copyBufferSize_def)
qed

declare io_CopyN.simps [simp del]

text \<open>\<open>bufio.NewReaderSize(src, 1)\<close>: the package raises the size to 16 bytes. One-byte reads only.\<close>

record bufReader =
  br_src :: streamReader
  br_buf :: bytes
  br_err :: "go_error option"

definition bufReader_Read1 :: "bufReader \<Rightarrow> (bytes \<times> go_error option) \<times> bufReader" where
  "bufReader_Read1 b =
    (if br_buf b \<noteq> [] then ((take 1 (br_buf b), None), b\<lparr>br_buf := drop 1 (br_buf b)\<rparr>)
     else case br_err b of
       Some e \<Rightarrow> (([], Some e), b\<lparr>br_err := None\<rparr>)
     | None \<Rightarrow>
        (case streamReader_Read 16 (br_src b) of
           ((bs, e), r') \<Rightarrow>
             if bs = [] then (([], e), b\<lparr>br_src := r'\<rparr>)
             else ((take 1 bs, None), \<lparr>br_src = r', br_buf = drop 1 bs, br_err = e\<rparr>)))"

text \<open>\<open>io.CopyN(io.Discard, src, 1)\<close> and the test on its result; \<open>read1\<close> reads one byte.\<close>

definition verifyStreamEnd :: "('s \<Rightarrow> (bytes \<times> go_error option) \<times> 's) \<Rightarrow> 's \<Rightarrow> go_error option" where
  "verifyStreamEnd read1 src =
    (case read1 src of
       ((bs, e), _) \<Rightarrow>
         if bs \<noteq> [] then Some (ErrorString ''storage returned more bytes than declared'')
         else (case e of Some err \<Rightarrow> if errors_Is err EOF then None else Some err | None \<Rightarrow> None))"

text \<open>\<open>io.ReadFull\<close> of one byte: a read delivers it or fails.\<close>

definition copyVerifiedObject :: "write_faults \<Rightarrow> streamReader \<Rightarrow> int \<Rightarrow> statusWriter \<Rightarrow> go_error option \<times> statusWriter" where
  "copyVerifiedObject wr src sz w =
    (case io_CopyN wr (nat (sz - 1)) src w of
       (Some err, _, w') \<Rightarrow> (Some err, w')
     | (None, src', w') \<Rightarrow>
        (case bufReader_Read1 \<lparr>br_src = src', br_buf = [], br_err = None\<rparr> of
           ((_, Some err), _) \<Rightarrow> (Some err, w')
         | ((lastByte, None), tail) \<Rightarrow>
            (case verifyStreamEnd bufReader_Read1 tail of
               Some err \<Rightarrow> (Some err, w')
             | None \<Rightarrow> sw_Write wr lastByte w')))"

section \<open>The handlers\<close>

definition PutObject ::
  "'a clocked_scheme upstream \<Rightarrow> objectService \<Rightarrow> write_faults \<Rightarrow> http_request \<Rightarrow> statusWriter \<Rightarrow> 'a clocked_scheme
    \<Rightarrow> statusWriter \<times> 'a clocked_scheme" where
  "PutObject up s wr r w v =
    (case objectPath (rq_Path r) of
       (bucket, key, ok) \<Rightarrow>
        if \<not> ok then (http_NotFound wr w, v)
        else
          let ct = (if rq_ContentType r = [] then ''application/octet-stream'' else rq_ContentType r);
              sz = (if rq_ContentLength r \<ge> 0 then Some (rq_ContentLength r) else None) in
          (case service_Put up s (rq_Context r) bucket key (rq_Body r) sz ct v of
             (Inl err, v') \<Rightarrow> (writeServiceError wr r (now v') err w, v')
           | (Inr result, v') \<Rightarrow>
              (WriteHeader 200 (set_header ''X-Object-Version-Id'' (p_VersionID result)
                 (set_header ''ETag'' (strconv_Quote (p_ETag result)) w)), v')))"

definition GetObject ::
  "'a clocked_scheme upstream \<Rightarrow> objectService \<Rightarrow> write_faults \<Rightarrow> http_request \<Rightarrow> statusWriter \<Rightarrow> 'a clocked_scheme
    \<Rightarrow> http_outcome \<times> statusWriter \<times> 'a clocked_scheme" where
  "GetObject up s wr r w v =
    (case objectPath (rq_Path r) of
       (bucket, key, ok) \<Rightarrow>
        if \<not> ok then (Completed, http_NotFound wr w, v)
        else
          (case service_Get up s (rq_Context r) bucket key v of
             (Inl err, v') \<Rightarrow> (Completed, writeServiceError wr r (now v') err w, v')
           | (Inr result, v') \<Rightarrow>
              if r_Size result < 0
              then (Completed, writeServiceError wr r (now v') (ErrorString ''invalid object size'') w, v')
              else
              (case (if r_Size result = 0 then verifyStreamEnd (streamReader_Read 1) (r_Body result) else None) of
                 Some err \<Rightarrow> (Completed, writeServiceError wr r (now v') err w, v')
               | None \<Rightarrow>
                  let ct = (if r_ContentType result = [] then ''application/octet-stream'' else r_ContentType result);
                      w' = set_header ''X-Object-Version-Id'' (r_VersionID result)
                          (set_header ''ETag'' (strconv_Quote (r_ETag result))
                          (set_header ''Content-Length'' (itoa (r_Size result))
                          (set_header ''X-Content-Type-Options'' ''nosniff''
                          (set_header ''Content-Type'' ct w)))) in
                  if r_Size result = 0 then (Completed, WriteHeader 200 w', v')
                  else
                  (case copyVerifiedObject wr (r_Body result) (r_Size result) w' of
                     (Some err, w'') \<Rightarrow> (ErrAbortHandler, w'', v')
                   | (None, w'') \<Rightarrow> (Completed, w'', v')))))"

text \<open>The swagger handler is third-party code: \<open>swagger\<close> is what it does to the writer.\<close>

definition ServeHTTP ::
  "'a clocked_scheme upstream \<Rightarrow> objectService \<Rightarrow> (http_request \<Rightarrow> statusWriter \<Rightarrow> statusWriter) \<Rightarrow> write_faults
    \<Rightarrow> http_request \<Rightarrow> statusWriter \<Rightarrow> 'a clocked_scheme \<Rightarrow> http_outcome \<times> statusWriter \<times> 'a clocked_scheme" where
  "ServeHTTP up s swagger wr r w v =
    (if rq_Path r = ''/healthz'' then
       if rq_Method r \<noteq> ''GET'' then
         (Completed, http_Error wr ''method not allowed'' 405 (set_header ''Allow'' ''GET'' w), v)
       else (Completed, snd (sw_Write wr ''ok\<newline>'' (set_header ''Content-Type'' ''text/plain; charset=utf-8'' w)), v)
     else if HasPrefix (rq_Path r) ''/swagger/'' then (Completed, swagger r w, v)
     else if rq_Method r = ''PUT'' then
       (case PutObject up s wr r w v of (w', v') \<Rightarrow> (Completed, w', v'))
     else if rq_Method r = ''GET'' then GetObject up s wr r w v
     else case objectPath (rq_Path r) of
       (_, _, ok) \<Rightarrow>
         if \<not> ok then (Completed, http_NotFound wr w, v)
         else (Completed, http_Error wr ''method not allowed'' 405 (set_header ''Allow'' ''GET, PUT'' w), v))"

section \<open>Instrumentation\<close>

definition methodLabel :: "string \<Rightarrow> string" where
  "methodLabel m = (if m \<in> {''GET'', ''HEAD'', ''POST'', ''PUT'', ''PATCH'', ''DELETE'', ''CONNECT'', ''OPTIONS'', ''TRACE''}
     then m else ''_OTHER'')"

definition routeName :: "string \<Rightarrow> string" where
  "routeName path =
    (if path = ''/healthz'' then ''/healthz''
     else if HasPrefix path ''/swagger/'' then ''/swagger/*''
     else if HasPrefix path ''/objects/'' \<and> CHR ''/'' \<in> set (TrimPrefix path ''/objects/'')
     then ''/objects/{bucket}/{key}''
     else ''unmatched'')"

record request_metric =
  rm_method :: string
  rm_route :: string
  rm_status :: int

text \<open>The instrumented handler: its outcome and the labels of the counters it adds to.\<close>

definition NewHTTPHandler ::
  "(http_request \<Rightarrow> statusWriter \<Rightarrow> 'v \<Rightarrow> http_outcome \<times> statusWriter \<times> 'v) \<Rightarrow> http_request \<Rightarrow> 'v
    \<Rightarrow> (http_outcome \<times> statusWriter \<times> 'v) \<times> request_metric" where
  "NewHTTPHandler serve r v =
    (case serve r new_writer v of (out, tracked, v') \<Rightarrow>
      ((out, tracked, v'),
       \<lparr>rm_method = methodLabel (rq_Method r), rm_route = routeName (rq_Path r),
        rm_status = (if sw_status tracked = 0 then 200 else sw_status tracked)\<rparr>))"

end
