(* ===== verification/Gateway_Spec.thy ===== *)
theory Gateway_Spec
  imports Gateway_HTTP Metadata_List Storage_Dirs
begin

text \<open>
  What the gateway promises: a download is complete only when the stored object was delivered to
  its last byte, and an upload followed by a download returns the uploaded bytes, for any upstream
  services that keep the contract \<open>upstream_contract\<close>.
\<close>

section \<open>The stream reader\<close>

definition sr_data :: "streamReader \<Rightarrow> bytes" where
  "sr_data r = sr_buffer r @ (case sr_stream r of None \<Rightarrow> [] | Some st \<Rightarrow> stream_data st)"

definition sr_error :: "streamReader \<Rightarrow> go_error option" where
  "sr_error r = (case sr_stream r of None \<Rightarrow> None | Some st \<Rightarrow> stream_error st)"

lemma fill_loop_spec:
  "case fill_loop st of
     Inl err \<Rightarrow> stream_data st = [] \<and> stream_error st = (if errors_Is err EOF then None else Some err)
   | Inr (chunk, st') \<Rightarrow> chunk \<noteq> [] \<and> stream_data st = chunk @ stream_data st' \<and> stream_error st = stream_error st'"
  by (induction st rule: fill_loop.induct) (auto split: sum.splits)

lemma streamReader_Read_spec:
  assumes "streamReader_Read p r = ((bs, e), r')" "0 < p"
  shows "case e of
     None \<Rightarrow> bs \<noteq> [] \<and> length bs \<le> p \<and> sr_data r = bs @ sr_data r' \<and> sr_error r' = sr_error r
   | Some err \<Rightarrow> bs = [] \<and> sr_data r = [] \<and> sr_error r = (if errors_Is err EOF then None else Some err)"
proof (cases "sr_buffer r = []")
  case False
  then show ?thesis using assms by (auto simp: streamReader_Read_def sr_data_def sr_error_def simp flip: append_assoc)
next
  case True
  then show ?thesis
    using assms fill_loop_spec [of "the (sr_stream r)"]
    by (auto simp: streamReader_Read_def sr_data_def sr_error_def simp flip: append_assoc
        split: option.splits sum.splits prod.splits)
qed

section \<open>Verified copies\<close>

lemma sw_Write_body:
  "sw_Write wr p w = (e, w') \<Longrightarrow>
    (\<exists>bs. prefix bs p \<and> sw_body w' = sw_body w @ bs \<and> (e = None \<longrightarrow> bs = p)) \<and> sw_header w' = sw_header w \<and>
    (wr = (\<lambda>_. None) \<longrightarrow> e = None) \<and> sw_status w' = (if sw_status w = 0 then 200 else sw_status w)"
  by (auto simp: sw_Write_def Let_def take_is_prefix split: option.splits if_splits)

lemma io_CopyN_spec:
  assumes "io_CopyN wr n r w = (e, r', w')"
  shows "sw_header w' = sw_header w \<and> sw_status w' \<in> {sw_status w, if sw_status w = 0 then 200 else sw_status w} \<and>
    (\<exists>bs. sw_body w' = sw_body w @ bs \<and> prefix bs (sr_data r) \<and> length bs \<le> n \<and>
       (e = None \<longrightarrow> length bs = n \<and> sr_data r = bs @ sr_data r' \<and> sr_error r' = sr_error r))"
  using assms
proof (induction wr n r w arbitrary: e r' w' rule: io_CopyN.induct)
  case (1 wr n r w)
  show ?case
  proof (cases "n = 0")
    case True
    then have "e = None" "r' = r" "w' = w" using 1(2) by (simp_all add: io_CopyN.simps [of wr 0])
    with True show ?thesis by auto
  next
    case False
    obtain bs re r1 where rd: "streamReader_Read (min copyBufferSize n) r = ((bs, re), r1)" by (metis surj_pair)
    have "0 < min copyBufferSize n" using False by (simp add: copyBufferSize_def)
    note spec = streamReader_Read_spec [OF rd this]
    show ?thesis
    proof (cases re)
      case (Some err)
      then have "e = Some err" "w' = w" using 1(2) False rd by (auto simp: io_CopyN.simps [of wr n])
      then show ?thesis by (intro conjI exI [of _ "[]"]) auto
    next
      case None
      obtain we w1 where wre: "sw_Write wr bs w = (we, w1)" by fastforce
      note w1 = sw_Write_body [OF wre]
      from spec None have bs: "bs \<noteq> []" "length bs \<le> n" "sr_data r = bs @ sr_data r1" "sr_error r1 = sr_error r" by auto
      show ?thesis
      proof (cases we)
        case (Some err)
        then have "e = Some err" "w' = w1" using 1(2) False rd None wre by (auto simp: io_CopyN.simps [of wr n])
        moreover obtain cs where cs: "prefix cs bs" "sw_body w1 = sw_body w @ cs" using w1 by blast
        moreover have "length cs \<le> n" using prefix_length_le [OF cs(1)] bs(2) by linarith
        ultimately show ?thesis using w1 bs(3) by (intro conjI exI [of _ cs]) (auto intro: prefix_prefix)
      next
        case none: None
        have "io_CopyN wr (n - length bs) r1 w1 = (e, r', w')"
          using 1(2) False rd None wre none by (simp add: io_CopyN.simps [of wr n])
        from 1(1) [OF False rd [symmetric] refl None wre [symmetric] none this]
        obtain cs where cs: "sw_body w' = sw_body w1 @ cs" "prefix cs (sr_data r1)" "length cs \<le> n - length bs"
            "e = None \<longrightarrow> length cs = n - length bs \<and> sr_data r1 = cs @ sr_data r' \<and> sr_error r' = sr_error r1"
            "sw_header w' = sw_header w1" "sw_status w' \<in> {sw_status w1, if sw_status w1 = 0 then 200 else sw_status w1}"
          by blast
        with w1 bs none show ?thesis by (intro conjI exI [of _ "bs @ cs"]) auto
      qed
    qed
  qed
qed

lemma copyVerifiedObject_spec:
  assumes "copyVerifiedObject wr src sz w = (e, w')" "0 < sz"
  shows "sw_header w' = sw_header w \<and>
    (\<exists>bs. sw_body w' = sw_body w @ bs \<and> prefix bs (sr_data src) \<and>
      (e = None \<longrightarrow> bs = sr_data src \<and> int (length bs) = sz \<and> sr_error src = None \<and>
         sw_status w' = (if sw_status w = 0 then 200 else sw_status w)) \<and>
      (e \<noteq> None \<and> wr = (\<lambda>_. None) \<longrightarrow> int (length bs) < sz))"
proof -
  obtain e1 r1 w1 where cp: "io_CopyN wr (nat (sz - 1)) src w = (e1, r1, w1)" by (metis surj_pair)
  from io_CopyN_spec [OF cp] obtain bs where bs: "sw_body w1 = sw_body w @ bs" "prefix bs (sr_data src)"
    "length bs \<le> nat (sz - 1)" "sw_header w1 = sw_header w"
    "sw_status w1 \<in> {sw_status w, if sw_status w = 0 then 200 else sw_status w}"
    "e1 = None \<longrightarrow> length bs = nat (sz - 1) \<and> sr_data src = bs @ sr_data r1 \<and> sr_error r1 = sr_error src" by blast
  have short: "int (length bs) < sz" using bs(3) assms(2) by linarith
  obtain l re r2 where rd: "streamReader_Read 16 r1 = ((l, re), r2)" by (metis surj_pair)
  note s1 = streamReader_Read_spec [OF rd]
  obtain l2 re2 r3 where rd2: "streamReader_Read 16 r2 = ((l2, re2), r3)" by (metis surj_pair)
  note s2 = streamReader_Read_spec [OF rd2]
  have fail: ?thesis if "e \<noteq> None" "w' = w1"
    using that bs short by auto
  show ?thesis
  proof (cases "e1 = None \<and> re = None \<and> length l = 1 \<and> re2 \<noteq> None \<and> sr_error r2 = None")
    case True
    then obtain b where b: "l = [b]" "sr_data r1 = [b]" "sr_data src = bs @ [b]" "sr_error src = None" "l2 = []"
      using s1 s2 bs(6) by (auto simp: length_Suc_conv split: option.splits if_splits)
    have wr: "sw_Write wr [b] w1 = (e, w')"
      using assms(1) cp rd rd2 True b s2
      by (auto simp: copyVerifiedObject_def bufReader_Read1_def verifyStreamEnd_def split: option.splits if_splits)
    obtain cs where cs: "prefix cs [b]" "sw_body w' = sw_body w1 @ cs" "e = None \<longrightarrow> cs = [b]" "wr = (\<lambda>_. None) \<longrightarrow> e = None"
      "sw_header w' = sw_header w1" "sw_status w' = (if sw_status w1 = 0 then 200 else sw_status w1)"
      using sw_Write_body [OF wr] by blast
    have "prefix (bs @ cs) (sr_data src)" using cs(1) unfolding b(3) by (rule same_prefix_prefix [THEN iffD2])
    with bs cs b True assms(2) show ?thesis
      by (intro conjI exI [of _ "bs @ cs"]) auto
  next
    case False
    have "e \<noteq> None \<and> w' = w1"
    proof (cases "e1 = None \<and> re = None")
      case True
      then have l: "l \<noteq> []" "length l \<le> 16" using s1 by auto
      then obtain b ls where "l = b # ls" by (cases l) auto
      then show ?thesis
        using True False assms(1) cp rd rd2 s2
        by (cases ls) (auto simp: copyVerifiedObject_def bufReader_Read1_def verifyStreamEnd_def split: option.splits if_splits)
    next
      case no: False
      then show ?thesis
        using assms(1) cp rd s1
        by (auto simp: copyVerifiedObject_def bufReader_Read1_def split: option.splits)
    qed
    then show ?thesis using fail by blast
  qed
qed

section \<open>Successful responses\<close>

lemma http_Error_status: "sw_status w = 0 \<Longrightarrow> code \<noteq> 0 \<Longrightarrow> sw_status (http_Error wr msg code w) = code"
  by (auto simp: http_Error_def set_header_def WriteHeader_def sw_Write_def Let_def split: option.splits)

lemma classify_codes: "fst (classifyServiceError err) \<in> {400, 404, 502, 503, 504, 507}"
  by (auto simp: classifyServiceError_def Let_def split: grpc_code.splits)

lemma writeServiceError_status:
  "sw_status w = 0 \<Longrightarrow> sw_status (writeServiceError wr r t err w) \<in> {400, 404, 499, 502, 503, 504, 507}"
  using classify_codes [of err]
  by (auto simp: writeServiceError_def statusClientClosedRequest_def http_Error_status split: prod.splits if_splits)

lemma not_200: "sw_status w \<in> {400, 404, 499, 502, 503, 504, 507} \<Longrightarrow> sw_status w \<noteq> 200"
  by auto

lemma new_writer_status [simp]: "sw_status new_writer = 0" "sw_body new_writer = []"
  by (simp_all add: new_writer_def)

lemma set_header_simps [simp]: "sw_status (set_header k v w) = sw_status w" "sw_body (set_header k v w) = sw_body w"
  "sw_header (set_header k v w) = (sw_header w)(k \<mapsto> v)"
  by (simp_all add: set_header_def)

lemma PutObject_200:
  assumes "PutObject up s wr r new_writer v = (w', v')" "sw_status w' = 200"
  obtains b k res where "objectPath (rq_Path r) = (b, k, True)"
    "service_Put up s (rq_Context r) b k (rq_Body r) (if rq_ContentLength r \<ge> 0 then Some (rq_ContentLength r) else None)
       (if rq_ContentType r = [] then ''application/octet-stream'' else rq_ContentType r) v = (Inr res, v')"
    "sw_header w' ''ETag'' = Some (strconv_Quote (p_ETag res))" "sw_header w' ''X-Object-Version-Id'' = Some (p_VersionID res)"
proof -
  obtain b k ok where p: "objectPath (rq_Path r) = (b, k, ok)" by (metis surj_pair)
  have ok
    using assms p by (cases ok) (auto simp: PutObject_def http_NotFound_def http_Error_status)
  let ?put = "service_Put up s (rq_Context r) b k (rq_Body r) (if rq_ContentLength r \<ge> 0 then Some (rq_ContentLength r) else None)
       (if rq_ContentType r = [] then ''application/octet-stream'' else rq_ContentType r) v"
  show ?thesis
  proof (cases ?put)
    case (Pair res v1)
    show ?thesis
    proof (cases res)
      case (Inl err)
      then have "w' = writeServiceError wr r (now v1) err new_writer"
        using assms(1) p \<open>ok\<close> Pair by (auto simp: PutObject_def Let_def)
      with assms(2) writeServiceError_status [of new_writer wr r "now v1" err] show ?thesis by auto
    next
      case (Inr x)
      then show ?thesis
        using assms(1) p \<open>ok\<close> Pair by (intro that [of b k x]) (auto simp: PutObject_def Let_def WriteHeader_def)
    qed
  qed
qed

text \<open>A download that succeeds, or is aborted.\<close>

lemma GetObject_body:
  assumes run: "GetObject up s wr r new_writer v = (out, w', v')" and ok: "out = ErrAbortHandler \<or> sw_status w' = 200"
  obtains b k g where "objectPath (rq_Path r) = (b, k, True)" "service_Get up s (rq_Context r) b k v = (Inr g, v')"
    "sw_header w' ''Content-Length'' = Some (itoa (r_Size g))" "sw_header w' ''ETag'' = Some (strconv_Quote (r_ETag g))"
    "sw_header w' ''X-Object-Version-Id'' = Some (r_VersionID g)" "prefix (sw_body w') (sr_data (r_Body g))"
    "out = Completed \<Longrightarrow> sw_body w' = sr_data (r_Body g) \<and> int (length (sw_body w')) = r_Size g \<and> sr_error (r_Body g) = None"
    "out = ErrAbortHandler \<Longrightarrow> wr = (\<lambda>_. None) \<Longrightarrow> int (length (sw_body w')) < r_Size g"
proof -
  obtain b k p where p: "objectPath (rq_Path r) = (b, k, p)" by (metis surj_pair)
  have p
    using run ok p by (cases p) (auto simp: GetObject_def http_NotFound_def http_Error_status)
  have bad: False if "out = Completed" "w' = writeServiceError wr r t err new_writer" for t err
    using ok that writeServiceError_status [of new_writer wr r t err] by auto
  obtain res v1 where get: "service_Get up s (rq_Context r) b k v = (res, v1)" by fastforce
  have "\<exists>g. res = Inr g"
    using run get p \<open>p\<close> bad by (cases res) (auto simp: GetObject_def)
  then obtain g where g: "res = Inr g" ..
  have sz: "0 \<le> r_Size g"
    using run get p \<open>p\<close> bad g by (auto simp: GetObject_def split: if_splits)
  let ?w = "set_header ''X-Object-Version-Id'' (r_VersionID g) (set_header ''ETag'' (strconv_Quote (r_ETag g))
      (set_header ''Content-Length'' (itoa (r_Size g)) (set_header ''X-Content-Type-Options'' ''nosniff''
      (set_header ''Content-Type'' (if r_ContentType g = [] then ''application/octet-stream'' else r_ContentType g) new_writer))))"
  note defs = GetObject_def Let_def get p g \<open>p\<close>
  show ?thesis
  proof (cases "r_Size g = 0")
    case True
    obtain bs e r1 where rd: "streamReader_Read 1 (r_Body g) = ((bs, e), r1)" by (metis surj_pair)
    have fin: "verifyStreamEnd (streamReader_Read 1) (r_Body g) = None"
      using run True bad by (auto simp: defs split: option.splits)
    with streamReader_Read_spec [OF rd] rd have "sr_data (r_Body g) = [] \<and> sr_error (r_Body g) = None"
      by (auto simp: verifyStreamEnd_def split: option.splits if_splits)
    moreover have "out = Completed" "w' = WriteHeader 200 ?w" "v' = v1"
      using run True fin by (auto simp: defs)
    ultimately show ?thesis using p \<open>p\<close> get g True by (intro that [of b k g]) (auto simp: WriteHeader_def)
  next
    case False
    obtain e w1 where cp: "copyVerifiedObject wr (r_Body g) (r_Size g) ?w = (e, w1)" by fastforce
    have out: "out = (if e = None then Completed else ErrAbortHandler)" "w' = w1" "v' = v1"
      using run False sz cp by (auto simp: defs split: option.splits)
    from copyVerifiedObject_spec [OF cp] False sz
    obtain bs where "sw_header w1 = sw_header ?w" "sw_body w1 = bs" "prefix bs (sr_data (r_Body g))"
      "e = None \<longrightarrow> bs = sr_data (r_Body g) \<and> int (length bs) = r_Size g \<and> sr_error (r_Body g) = None"
      "e \<noteq> None \<and> wr = (\<lambda>_. None) \<longrightarrow> int (length bs) < r_Size g" by auto
    with out p \<open>p\<close> get g show ?thesis by (intro that [of b k g]) (auto split: if_splits)
  qed
qed

section \<open>The contract of the upstream services\<close>

fun body_error :: "reads \<Rightarrow> go_error option" where
  "body_error [] = None"
| "body_error ((bs, None) # rs) = body_error rs"
| "body_error ((bs, Some e) # rs) = (if errors_Is e EOF then None else Some e)"

text \<open>
  \<open>blob_at\<close> are the stored blobs, \<open>entry_at\<close> the current entry of a bucket and key in the
  catalog, \<open>sent\<close> the messages sent on the open upload stream. Every call may fail; a failed
  call keeps the catalog, except that the registration of a version may have happened.
\<close>

locale upstream_contract =
  fixes up :: "'a clocked_scheme upstream"
    and inv :: "'a clocked_scheme \<Rightarrow> bool"
    and blob_at :: "'a clocked_scheme \<Rightarrow> string \<Rightarrow> bytes option"
    and entry_at :: "'a clocked_scheme \<Rightarrow> string \<Rightarrow> string \<Rightarrow> ObjectMeta option"
    and sent :: "'a clocked_scheme \<Rightarrow> store_msg list"
    and id_ok :: "string \<Rightarrow> bool"
  assumes head_law: "inv w \<Longrightarrow> wpE (rpc_HeadBucket up c b)
      (\<lambda>_ w'. inv w' \<and> blob_at w' = blob_at w \<and> entry_at w' = entry_at w)
      (\<lambda>_ w'. inv w' \<and> entry_at w' = entry_at w) w"
    and open_law: "inv w \<Longrightarrow> wpE (rpc_StoreObject up c)
      (\<lambda>_ w'. inv w' \<and> blob_at w' = blob_at w \<and> entry_at w' = entry_at w \<and> sent w' = [])
      (\<lambda>_ w'. inv w' \<and> entry_at w' = entry_at w) w"
    and send_law: "inv w \<Longrightarrow> wpE (rpc_Send up m)
      (\<lambda>_ w'. inv w' \<and> blob_at w' = blob_at w \<and> entry_at w' = entry_at w \<and> sent w' = sent w @ [m])
      (\<lambda>_ w'. inv w' \<and> entry_at w' = entry_at w) w"
    and close_inv_law: "inv w \<Longrightarrow> wpE (rpc_CloseAndRecv up)
      (\<lambda>_ w'. inv w' \<and> entry_at w' = entry_at w) (\<lambda>_ w'. inv w' \<and> entry_at w' = entry_at w) w"
    and close_law: "inv w \<Longrightarrow> sent w = StoreHeader sz ct [] # map StoreChunk cs \<Longrightarrow> wpE (rpc_CloseAndRecv up)
      (\<lambda>r w'. id_ok (respBlobId r) \<and> blob_at w' (respBlobId r) = Some (concat cs) \<and>
         respChecksumMd5 r = md5Hex (concat cs) \<and> (\<forall>n. sz = Some n \<longrightarrow> n = int (length (concat cs)))) (\<lambda>_ _. True) w"
    and create_law: "inv w \<Longrightarrow> id_ok i \<Longrightarrow> wpE (rpc_CreateObjectVersion up c b k i n et ct)
      (\<lambda>r w'. inv w' \<and> blob_at w' = blob_at w \<and> (\<exists>m. entry_at w' b k = Some m \<and> m_VersionID m = cv_VersionId r \<and>
         m_BlobID m = i \<and> m_SizeBytes m = n \<and> m_Etag m = et \<and> m_ContentType m = ct))
      (\<lambda>_ w'. inv w') w"
    and meta_law: "inv w \<Longrightarrow> wpE (rpc_GetObjectMeta up c b k)
      (\<lambda>m w'. inv w' \<and> blob_at w' = blob_at w \<and> entry_at w' = entry_at w \<and> entry_at w b k = Some m)
      (\<lambda>_ w'. inv w' \<and> entry_at w' = entry_at w) w"
    and retrieve_law: "inv w \<Longrightarrow> id_ok i \<Longrightarrow> blob_at w i = Some d \<Longrightarrow> int (length d) \<le> maxInt64 \<Longrightarrow> wpE (rpc_RetrieveObject up c i lim)
      (\<lambda>st w'. prefix (stream_data st) d \<and> (stream_error st = None \<longrightarrow> stream_data st = d)) (\<lambda>_ _. True) w"
begin

lemma storeSendError_wp:
  assumes "inv w"
  shows "wpE (storeSendError up e) (\<lambda>_ _. False) (\<lambda>_ w'. inv w' \<and> entry_at w' = entry_at w) w"
  unfolding storeSendError_def wp
  by (simp add: assms) (blast intro: wpE_mono [OF close_inv_law [OF assms]])

text \<open>The upload loop sends the body in order, and counts its bytes.\<close>

lemma storeLoop_wp:
  assumes "inv w"
  shows "wpE (storeLoop up k n body)
    (\<lambda>t w'. inv w' \<and> entry_at w' = entry_at w \<and> body_error body = None \<and>
       (\<exists>cs. sent w' = sent w @ map StoreChunk cs \<and> concat cs = reads_data body \<and>
          t = n + word_of_nat (length (reads_data body))))
    (\<lambda>_ w'. inv w' \<and> entry_at w' = entry_at w) w"
  using assms
proof (induction body arbitrary: k n w)
  case Nil
  then show ?case by (auto simp: wp intro!: exI [of _ "[]"])
next
  case (Cons r body)
  obtain bs re where r: "r = (bs, re)" by fastforce
  show ?case
  proof (cases "bs = []")
    case True
    show ?thesis
      unfolding r True
      using Cons.prems by (auto simp: wp Let_def split: option.splits intro!: wpE_mono [OF Cons.IH [OF Cons.prems]])
  next
    case False
    have "wpE (catchE (rpc_Send up (StoreChunk bs)) (storeSendError up))
        (\<lambda>_ w'. inv w' \<and> entry_at w' = entry_at w \<and> sent w' = sent w @ [StoreChunk bs])
        (\<lambda>e w'. inv w' \<and> entry_at w' = entry_at w) w"
      unfolding wp by (rule wpE_mono [OF send_law [OF Cons.prems]]) (auto intro!: wpE_mono [OF storeSendError_wp])
    then have step: "wpE (storeLoop up k n ((bs, re) # body)) Q E w"
      if "\<And>w'. inv w' \<Longrightarrow> entry_at w' = entry_at w \<Longrightarrow> sent w' = sent w @ [StoreChunk bs] \<Longrightarrow>
          wpE (case re of Some e \<Rightarrow> if errors_Is e EOF then returnE (n + word_of_nat (length bs)) else throwE (BodyReadError e)
            | None \<Rightarrow> storeLoop up 0 (n + word_of_nat (length bs)) body) Q E w'"
        "\<And>e w'. inv w' \<Longrightarrow> entry_at w' = entry_at w \<Longrightarrow> E e w'" for Q E
      using False that by (auto simp: Let_def wpE_bindE elim!: wpE_mono)
    show ?thesis
      unfolding r
    proof (rule step, goal_cases)
      case (1 w')
      show ?case
      proof (cases re)
        case None
        show ?thesis
          unfolding None option.case
        proof (rule wpE_mono [OF Cons.IH [OF 1(1)]], goal_cases)
          case (1 t v)
          then obtain cs where "sent v = sent w' @ map StoreChunk cs" "concat cs = reads_data body" by blast
          with 1 \<open>sent w' = _\<close> \<open>entry_at w' = _\<close> show ?case by (intro conjI exI [of _ "bs # cs"]) auto
        qed (use 1 in auto)
      next
        case (Some e)
        with 1 show ?thesis by (auto simp: wp intro!: exI [of _ "[bs]"])
      qed
    qed auto
  qed
qed


lemma Store_wp:
  assumes "inv w"
  shows "wpE (Store up ctx body sz ct)
    (\<lambda>r w'. inv w' \<and> entry_at w' = entry_at w \<and> body_error body = None \<and> id_ok (s_BlobID r) \<and>
       blob_at w' (s_BlobID r) = Some (reads_data body) \<and> s_ETag r = md5Hex (reads_data body) \<and>
       s_Size r = sint (word_of_nat (length (reads_data body)) :: 64 word) \<and>
       (\<forall>n. sz = Some n \<longrightarrow> n = int (length (reads_data body))))
    (\<lambda>_ w'. inv w' \<and> entry_at w' = entry_at w) w"
  unfolding Store_def wp
proof (rule wpE_mono [OF open_law [OF assms]], goal_cases)
  case (1 _ w1)
  show ?case
  proof (rule wpE_mono [OF send_law], goal_cases)
    case (2 _ w2)
    show ?case
    proof (rule wpE_mono [OF storeLoop_wp], goal_cases)
      case 1
      then show ?case using 2 by simp
    next
      case (2 t w3)
      then obtain cs where cs: "sent w3 = StoreHeader sz ct [] # map StoreChunk cs" "concat cs = reads_data body"
          "t = word_of_nat (length (reads_data body))" and w3: "inv w3" "entry_at w3 = entry_at w" "body_error body = None"
        using 1 \<open>inv w2 \<and> _\<close> by auto
      show ?case
        using wpE_conj [OF close_inv_law [OF w3(1)] close_law [OF w3(1) cs(1)]]
        by (rule wpE_mono) (use w3 cs in auto)
    next
      case (3 e w3)
      then show ?case using 1 2 by auto
    qed
  next
    case (3 e w2)
    then show ?case using 1 by (intro wpE_mono [OF storeSendError_wp]) auto
  qed (use 1 in auto)
qed auto

lemma service_Put_wp:
  assumes "inv w"
  shows "wpE (service_Put up s ctx b k body sz ct)
    (\<lambda>r w'. inv w' \<and> body_error body = None \<and> p_ETag r = md5Hex (reads_data body) \<and>
       (\<forall>n. sz = Some n \<longrightarrow> n = int (length (reads_data body))) \<and>
       (\<exists>m. entry_at w' b k = Some m \<and> m_VersionID m = p_VersionID r \<and> m_Etag m = p_ETag r \<and> m_ContentType m = ct \<and>
          m_SizeBytes m = sint (word_of_nat (length (reads_data body)) :: 64 word) \<and>
          id_ok (m_BlobID m) \<and> blob_at w' (m_BlobID m) = Some (reads_data body)))
    (\<lambda>_ w'. inv w') w"
  unfolding service_Put_def client_HeadBucket_def client_CreateVersion_def wp
proof (rule wpE_mono [OF head_law [OF assms]], goal_cases)
  case (1 ex w1)
  show ?case
  proof (cases ex)
    case True
    then have w1: "inv w1" using 1 by simp
    show ?thesis
      using True
    proof (simp, intro wpE_mono [OF Store_wp [OF w1]], goal_cases)
      case (1 r w2)
      then show ?case by (intro wpE_mono [OF create_law]) (auto simp: wp)
    qed (simp add: wp)
  qed (use 1 in \<open>simp add: wp\<close>)
qed (simp add: wp)

lemma service_Get_wp:
  assumes "inv w"
  shows "wpE (service_Get up s ctx b k)
    (\<lambda>g _. \<exists>m. entry_at w b k = Some m \<and> r_Size g = m_SizeBytes m \<and> r_ETag g = m_Etag m \<and>
       r_VersionID g = m_VersionID m \<and> r_ContentType g = m_ContentType m \<and>
       (\<forall>d. id_ok (m_BlobID m) \<and> blob_at w (m_BlobID m) = Some d \<and> int (length d) \<le> maxInt64 \<longrightarrow>
          prefix (sr_data (r_Body g)) d \<and> (sr_error (r_Body g) = None \<longrightarrow> sr_data (r_Body g) = d)))
    (\<lambda>_ w'. True) w"
  unfolding service_Get_def client_GetObject_def wp
proof (rule wpE_mono [OF meta_law [OF assms]], goal_cases)
  case (1 m w1)
  note entry = 1
  have law: "wpE (rpc_RetrieveObject up c i lim) (\<lambda>st _. \<forall>d. id_ok i \<and> blob_at w i = Some d \<and> int (length d) \<le> maxInt64 \<longrightarrow>
      prefix (stream_data st) d \<and> (stream_error st = None \<longrightarrow> stream_data st = d)) (\<lambda>_ _. True) w1" for c i lim
  proof (cases "id_ok i \<and> (\<exists>d. blob_at w i = Some d \<and> int (length d) \<le> maxInt64)")
    case True
    then obtain d where "blob_at w1 i = Some d" "blob_at w i = Some d" "id_ok i" "inv w1" "int (length d) \<le> maxInt64" using 1 by auto
    with retrieve_law [of w1 i d c lim] show ?thesis by (auto elim!: wpE_mono)
  qed (auto simp: wpE_def split: prod.splits sum.splits)
  show ?case
    unfolding Retrieve_def wp GatewayObjectMeta.select_convs
  proof (rule wpE_mono [OF law], goal_cases)
    case (1 st v)
    then show ?case
      using entry by (cases st rule: stream_Recv.cases) (auto simp: sr_data_def sr_error_def split: sum.splits)
  qed simp
qed simp


text \<open>A download after an upload, through both handlers.\<close>

lemma http_put_get:
  assumes "inv w" "PutObject up s wr rq new_writer w = (w1, v1)" "sw_status w1 = 200"
    and "length (reads_data (rq_Body rq)) < 2 ^ 63" "rq_Path rq' = rq_Path rq"
    and "GetObject up s wr' rq' new_writer v1 = (out, w2, v2)" "sw_status w2 = 200"
  shows "prefix (sw_body w2) (reads_data (rq_Body rq)) \<and>
    sw_header w2 ''ETag'' = sw_header w1 ''ETag'' \<and>
    sw_header w1 ''ETag'' = Some (strconv_Quote (md5Hex (reads_data (rq_Body rq)))) \<and>
    sw_header w2 ''X-Object-Version-Id'' = sw_header w1 ''X-Object-Version-Id'' \<and>
    sw_header w2 ''Content-Length'' = Some (itoa (int (length (reads_data (rq_Body rq))))) \<and>
    (out = Completed \<longrightarrow> sw_body w2 = reads_data (rq_Body rq))"
proof -
  let ?d = "reads_data (rq_Body rq)"
  obtain b k res where put: "objectPath (rq_Path rq) = (b, k, True)"
    "service_Put up s (rq_Context rq) b k (rq_Body rq) (if rq_ContentLength rq \<ge> 0 then Some (rq_ContentLength rq) else None)
       (if rq_ContentType rq = [] then ''application/octet-stream'' else rq_ContentType rq) w = (Inr res, v1)"
    "sw_header w1 ''ETag'' = Some (strconv_Quote (p_ETag res))" "sw_header w1 ''X-Object-Version-Id'' = Some (p_VersionID res)"
    using PutObject_200 [OF assms(2,3)] .
  from wpE_InrD [OF service_Put_wp [OF assms(1)] put(2)] obtain m where m: "inv v1" "p_ETag res = md5Hex ?d"
    "entry_at v1 b k = Some m" "m_VersionID m = p_VersionID res" "m_Etag m = p_ETag res"
    "m_SizeBytes m = sint (word_of_nat (length ?d) :: 64 word)" "id_ok (m_BlobID m)" "blob_at v1 (m_BlobID m) = Some ?d"
    by blast
  have size: "sint (word_of_nat (length ?d) :: 64 word) = int (length ?d)"
    using assms(4) by (simp add: signed_of_nat signed_take_bit_int_eq_self)
  have max: "int (length ?d) \<le> maxInt64" using assms(4) by (simp add: maxInt64_def)
  obtain b' k' g where get: "objectPath (rq_Path rq') = (b', k', True)" "service_Get up s (rq_Context rq') b' k' v1 = (Inr g, v2)"
    "sw_header w2 ''Content-Length'' = Some (itoa (r_Size g))" "sw_header w2 ''ETag'' = Some (strconv_Quote (r_ETag g))"
    "sw_header w2 ''X-Object-Version-Id'' = Some (r_VersionID g)" "prefix (sw_body w2) (sr_data (r_Body g))"
    "out = Completed \<Longrightarrow> sw_body w2 = sr_data (r_Body g) \<and> int (length (sw_body w2)) = r_Size g \<and> sr_error (r_Body g) = None"
    using GetObject_body [OF assms(6)] assms(7) by metis
  have "b' = b" "k' = k" using get(1) put(1) assms(5) by simp_all
  with wpE_InrD [OF service_Get_wp [OF m(1)] get(2)] m size max
  have g: "r_Size g = int (length ?d)" "r_ETag g = md5Hex ?d" "r_VersionID g = p_VersionID res"
    "prefix (sr_data (r_Body g)) ?d" "sr_error (r_Body g) = None \<Longrightarrow> sr_data (r_Body g) = ?d"
    by auto
  with get put m show ?thesis by (auto intro: prefix_order.trans)
qed

end

end
