(* ===== verification/Gateway_System.thy ===== *)
theory Gateway_System
  imports Gateway_Spec Storage_Props
begin

text \<open>
  The gateway over the other services of the repository: the upstream calls run the handlers of
  the metadata and the storage service behind their error interceptors, each with its own world.
  The transport may fail any call with any status, before or after the server did its work.
\<close>

record sys_world = clocked +
  disk_w :: fs_world
  db_w :: md_world
  sent_msgs :: "store_msg list"
  blob_ids :: "nat \<Rightarrow> string"
  net :: "nat \<Rightarrow> (grpc_code \<times> bool) option"

lemma sys_world_select [simp]:
  "disk_w (now_update f w) = disk_w w" "db_w (now_update f w) = db_w w"
  "disk_w (sent_msgs_update g w) = disk_w w" "db_w (sent_msgs_update g w) = db_w w"
  "disk_w (db_w_update h w) = disk_w w" "db_w (disk_w_update j w) = db_w w"
  "disk_w (disk_w_update j w) = j (disk_w w)" "db_w (db_w_update h w) = h (db_w w)"
  by (cases w; simp)+

record deployment =
  dp_env :: pg_env
  dp_js :: json_codec
  dp_repo :: repo
  dp_chunk :: nat

text \<open>The context of the server side of a call has the deadline of the client and no values.\<close>

definition server_ctx :: "ctx \<Rightarrow> ctx" where
  "server_ctx c = c\<lparr>ctx_vals := (\<lambda>_. None)\<rparr>"

lemma server_ctx_no_tx [simp]: "ExtractTx (server_ctx c) = None"
  by (simp add: ExtractTx_def server_ctx_def)

text \<open>A call of a service: the transport fails, or the handler's answer comes back with its status.\<close>

definition remote :: "('s \<Rightarrow> 's \<times> (go_error + 'a)) \<Rightarrow> (sys_world \<Rightarrow> 's) \<Rightarrow> ('s \<Rightarrow> sys_world \<Rightarrow> sys_world) \<Rightarrow> (sys_world, go_error, 'a) op" where
  "remote handler get put w =
    (case handler (get w) of (s', r) \<Rightarrow>
     (case net w (now w) of
        Some (code, delivered) \<Rightarrow>
          (Inl (StatusError code ''transport''), (let w' = w\<lparr>now := Suc (now w)\<rparr> in if delivered then put s' w' else w'))
      | None \<Rightarrow> (handleError_result r, put s' (w\<lparr>now := Suc (now w)\<rparr>))))"

definition on_db :: "'a mdop \<Rightarrow> (sys_world, go_error, 'a) op" where
  "on_db m = remote (\<lambda>s. case m s of (r, s') \<Rightarrow> (s', r)) db_w (\<lambda>s. db_w_update (\<lambda>_. s))"

definition on_disk :: "'a fsop \<Rightarrow> (sys_world, go_error, 'a) op" where
  "on_disk m = remote (\<lambda>s. case m s of (r, s') \<Rightarrow> (s', r)) disk_w (\<lambda>s. disk_w_update (\<lambda>_. s))"

definition net_op :: "(sys_world \<Rightarrow> sys_world) \<Rightarrow> (sys_world, go_error, unit) op" where
  "net_op f w = (case net w (now w) of
     Some (code, _) \<Rightarrow> (Inl (StatusError code ''transport''), w\<lparr>now := Suc (now w)\<rparr>)
   | None \<Rightarrow> (Inr (), (f w)\<lparr>now := Suc (now w)\<rparr>))"

text \<open>The messages of a download, and how the stream ends; the transport may cut it off.\<close>

definition retrieve_stream :: "(go_error + unit) \<Rightarrow> RetrieveObjectResponse list \<Rightarrow> (grpc_code \<times> bool) option \<Rightarrow> bytes stream" where
  "retrieve_stream res ms broken =
    (case broken of
       Some (code, _) \<Rightarrow> map (Inr \<circ> respData) (butlast ms) @ [Inl (StatusError code ''transport'')]
     | None \<Rightarrow> map (Inr \<circ> respData) ms @
         (case handleError_result res of
            Inl e \<Rightarrow> [Inl (StatusError (status_Code e) (error_text e))] | Inr _ \<Rightarrow> [Inl EOF]))"

definition retrieve_call :: "deployment \<Rightarrow> ctx \<Rightarrow> string \<Rightarrow> (sys_world, go_error, bytes stream) op" where
  "retrieve_call dp c i w =
    (case h_RetrieveObject (dp_repo dp) (dp_chunk dp) (\<lambda>_. None) (server_ctx c) i 0 0 (disk_w w) of
       Some (res, ms, d) \<Rightarrow> (Inr (retrieve_stream res ms (net w (now w))), w\<lparr>now := Suc (now w), disk_w := d\<rparr>)
     | None \<Rightarrow> (Inl (StatusError G_DeadlineExceeded ''transport''), w\<lparr>now := Suc (now w)\<rparr>))"

definition services :: "deployment \<Rightarrow> sys_world upstream" where
  "services dp = \<lparr>
     rpc_HeadBucket = (\<lambda>c b. on_db (bindE (mh_HeadBucket (dp_env dp) b) (\<lambda>(ex, _, _). returnE ex))),
     rpc_CreateObjectVersion = (\<lambda>c b k i n et ct. on_db (mh_CreateObjectVersion (dp_env dp) (server_ctx c) b k i n et ct)),
     rpc_GetObjectMeta = (\<lambda>c b k. on_db (mh_GetObjectMeta (dp_env dp) b k [])),
     rpc_StoreObject = (\<lambda>c. net_op (sent_msgs_update (\<lambda>_. []))),
     rpc_Send = (\<lambda>m. net_op (sent_msgs_update (\<lambda>ms. ms @ [m]))),
     rpc_CloseAndRecv = bindE (getsE (\<lambda>w. (blob_ids w (now w), sent_msgs w))) (\<lambda>(i, ms).
        on_disk (h_StoreObject (dp_js dp) (dp_repo dp) i Background None (map Inr ms))),
     rpc_RetrieveObject = (\<lambda>c i lim. retrieve_call dp c i)\<rparr>"

definition sys_inv :: "deployment \<Rightarrow> sys_world \<Rightarrow> bool" where
  "sys_inv dp w = (storage_inv (dp_repo dp) (disk_w w) \<and> md_ok (dp_env dp) (db_w w) \<and> 0 < dp_chunk dp \<and>
     (\<forall>i. blob_id_ok (blob_ids w i) \<and> canonical (dp_env dp) (blob_ids w i)))"

definition sys_blob :: "deployment \<Rightarrow> sys_world \<Rightarrow> string \<Rightarrow> bytes option" where
  "sys_blob dp w = blobs (dp_repo dp) (disk_w w)"

definition sys_entry :: "sys_world \<Rightarrow> string \<Rightarrow> string \<Rightarrow> ObjectMeta option" where
  "sys_entry w b k = map_option (\<lambda>(x, v). m_LastModified_update UnixMilli (meta_of x v)) (current (tables (db_w w)) b k)"

lemma on_db_wp:
  assumes "wpE m (\<lambda>x s. Q x (w\<lparr>now := Suc (now w), db_w := s\<rparr>) \<and> (\<forall>e. E e (w\<lparr>now := Suc (now w), db_w := s\<rparr>)))
      (\<lambda>_ s. \<forall>e. E e (w\<lparr>now := Suc (now w), db_w := s\<rparr>)) (db_w w)" "\<And>e. E e (w\<lparr>now := Suc (now w)\<rparr>)"
  shows "wpE (on_db m) Q E w"
  using assms
  by (auto simp: on_db_def remote_def wpE_def Let_def handleError_result_def split: prod.splits sum.splits option.splits)

lemma on_disk_wp:
  assumes "wpE m (\<lambda>x s. Q x (w\<lparr>now := Suc (now w), disk_w := s\<rparr>) \<and> (\<forall>e. E e (w\<lparr>now := Suc (now w), disk_w := s\<rparr>)))
      (\<lambda>_ s. \<forall>e. E e (w\<lparr>now := Suc (now w), disk_w := s\<rparr>)) (disk_w w)" "\<And>e. E e (w\<lparr>now := Suc (now w)\<rparr>)"
  shows "wpE (on_disk m) Q E w"
  using assms
  by (auto simp: on_disk_def remote_def wpE_def Let_def handleError_result_def split: prod.splits sum.splits option.splits)


section \<open>The metadata calls\<close>

lemma md_read_wp:
  assumes "md_ok env s" "preserves m tables" "preserves m saved" "preserves m new_uuid"
  shows "wpE m (\<lambda>_ s'. md_ok env s' \<and> tables s' = tables s) (\<lambda>_ s'. md_ok env s' \<and> tables s' = tables s) s"
  using preserves_wpE [OF assms(2), of s] preserves_wpE [OF assms(3), of s] preserves_wpE [OF assms(4), of s] assms(1)
  by (auto simp: wpE_def md_ok_def split: prod.splits sum.splits)

lemma GetMeta_answer:
  assumes "db_ok (tables s)"
  shows "wpE (GetMeta env b k []) (\<lambda>m _. \<exists>x v. current (tables s) b k = Some (x, v) \<and> m = meta_of x v) (\<lambda>_ _. True) s"
  unfolding GetMeta_def wp
proof (rule wpE_pg_select, goal_cases)
  case (1 m)
  then have "scan_meta (case current (tables s) b k of None \<Rightarrow> [] | Some r \<Rightarrow> [r]) = Inr m"
    by (auto simp: meta_rows_current [OF assms] split: option.splits)
  then show ?case
    by (auto simp: scan_meta_def meta_of_row_def meta_of_def split: option.splits sum.splits)
qed simp

lemma mh_GetObjectMeta_wp:
  assumes "md_ok env s"
  shows "wpE (mh_GetObjectMeta env b k [])
    (\<lambda>m s'. md_ok env s' \<and> tables s' = tables s \<and>
       (\<exists>x v. current (tables s) b k = Some (x, v) \<and> m = m_LastModified_update UnixMilli (meta_of x v)))
    (\<lambda>_ s'. md_ok env s' \<and> tables s' = tables s) s"
proof -
  have pres: "preserves (GetMeta env b k []) tables" "preserves (GetMeta env b k []) saved" "preserves (GetMeta env b k []) new_uuid"
    by (intro frame md_frames)+
  have "db_ok (tables s)" using assms by (simp add: md_ok_def tab_ok_def)
  from wpE_conj [OF md_read_wp [OF assms pres] GetMeta_answer [OF this]] show ?thesis
    unfolding mh_GetObjectMeta_def GetObjectMeta_def wp by (rule wpE_mono) (auto simp: wp)
qed

lemma mh_HeadBucket_wp:
  assumes "md_ok env s"
  shows "wpE (bindE (mh_HeadBucket env b) (\<lambda>(ex, _, _). returnE ex))
    (\<lambda>_ s'. md_ok env s' \<and> tables s' = tables s) (\<lambda>_ s'. md_ok env s' \<and> tables s' = tables s) s"
  by (rule md_read_wp [OF assms])
    (unfold mh_HeadBucket_def HeadBucket_def split_def, (intro frame md_frames)+)

lemma mh_CreateObjectVersion_wp:
  assumes "md_ok env s" "ExtractTx c = None" "canonical env i"
  shows "wpE (mh_CreateObjectVersion env c b k i n et ct)
    (\<lambda>r s'. md_ok env s' \<and> (\<exists>x v. current (tables s') b k = Some (x, v) \<and> v_ID v = cv_VersionId r \<and>
       v_BlobID v = Some i \<and> v_SizeBytes v = n \<and> v_Etag v = et \<and> v_ContentType v = ct))
    (\<lambda>_ s'. md_ok env s') s"
proof -
  have pres: "preserves (CreateObjectVersion env c b k i n et ct) new_uuid"
    unfolding CreateObjectVersion_def by (intro frame md_frames tx_frames)
  from wpE_preserved [OF pres simulates_create_version [OF assms(1,2)]] show ?thesis
    unfolding mh_CreateObjectVersion_def wp
    by (rule wpE_mono) (use assms in \<open>auto simp: wp md_ok_def version_created_def canonical_def\<close>)
qed

section \<open>The storage calls\<close>

lemma h_StoreObject_inv:
  assumes "storage_inv r d" "blob_id_ok i"
  shows "wpE (h_StoreObject js r i c e st) (\<lambda>_ d'. storage_inv r d') (\<lambda>_ d'. storage_inv r d') d"
proof -
  have "repo_ok r" using assms(1) by (simp add: storage_inv_def)
  then have "dirs_within (not_blob r) (h_StoreObject js r i c e st)"
    unfolding h_StoreObject_def SendAndClose_def using assms(2) by (intro dirs)
  from dirs_storage_inv [OF this assms(1)] show ?thesis .
qed

lemma h_StoreObject_wp:
  assumes "repo_ok r" "blob_id_ok i"
  shows "wpE (h_StoreObject js r i c e (Inr (StoreHeader sz ct d0) # map (Inr \<circ> StoreChunk) cs))
    (\<lambda>resp d'. respBlobId resp = i \<and> blobs r d' i = Some (d0 @ concat cs) \<and> respChecksumMd5 resp = md5Hex (d0 @ concat cs) \<and>
       (\<forall>n. sz = Some n \<longrightarrow> n = int (length (d0 @ concat cs)))) (\<lambda>_ _. True) d"
proof -
  let ?rd = "chunk_reads copyBufferSize (newChunkStreamReader d0 (map store_chunk (map (Inr \<circ> StoreChunk) cs)))"
  have st: "stream_data (map store_chunk (map (Inr \<circ> StoreChunk) cs)) = concat cs"
    by (induction cs) (auto simp: store_chunk_def)
  have "reads_data ?rd = d0 @ concat cs"
    using chunk_reads_spec [of copyBufferSize "newChunkStreamReader d0 (map store_chunk (map (Inr \<circ> StoreChunk) cs))"]
    by (simp add: newChunkStreamReader_def copyBufferSize_def st [simplified])
  with StoreObject_wp [OF assms, of js c ?rd sz ct d] show ?thesis
    by (auto simp: h_StoreObject_def readStoreObjectStream_def recvFirstMessage_def SendAndClose_def wp split: option.splits
        elim!: wpE_mono)
qed


lemma stream_data_msgs: "stream_data (map (Inr \<circ> respData) ms @ [Inl e]) = sent_data ms"
  by (induction ms) (auto simp: sent_data_def)

lemma stream_error_msgs: "stream_error (map (Inr \<circ> respData) ms @ [Inl e]) = (if errors_Is e EOF then None else Some e)"
  by (induction ms) auto

lemma sent_data_butlast: "prefix (sent_data (butlast ms)) (sent_data ms)"
proof (cases ms rule: rev_cases)
  case (snoc xs x)
  then show ?thesis by (simp add: sent_data_def)
qed (simp add: sent_data_def)

lemma retrieve_stream_spec:
  "prefix (stream_data (retrieve_stream res ms broken)) (sent_data ms) \<and>
   (stream_error (retrieve_stream res ms broken) = None \<longrightarrow> res = Inr () \<and> stream_data (retrieve_stream res ms broken) = sent_data ms)"
  by (auto simp: retrieve_stream_def stream_data_msgs stream_error_msgs sent_data_butlast handleError_result_def
      split: option.splits sum.splits)

lemma retrieve_call_wp:
  assumes "sys_inv dp w" "blob_id_ok i" "sys_blob dp w i = Some d" "int (length d) \<le> maxInt64"
  shows "wpE (retrieve_call dp c i)
    (\<lambda>st _. prefix (stream_data st) d \<and> (stream_error st = None \<longrightarrow> stream_data st = d)) (\<lambda>_ _. True) w"
proof -
  have inv: "0 < dp_chunk dp" "storage_inv (dp_repo dp) (disk_w w)" using assms(1) by (simp_all add: sys_inv_def)
  have len: "blobs (dp_repo dp) (disk_w w) i = Some d' \<Longrightarrow> int (length d') \<le> maxInt64" for d'
    using assms(3,4) by (simp add: sys_blob_def)
  from h_RetrieveObject_spec [OF inv assms(2) len, of "\<lambda>_. None" "server_ctx c" 0 0] assms(3)
  obtain res ms d1 where run: "h_RetrieveObject (dp_repo dp) (dp_chunk dp) (\<lambda>_. None) (server_ctx c) i 0 0 (disk_w w) = Some (res, ms, d1)"
    and ms: "prefix (sent_data ms) d" "res = Inr () \<Longrightarrow> sent_data ms = d"
    by (auto simp: sys_blob_def blob_range_def)
  from retrieve_stream_spec [of res ms "net w (now w)"] ms show ?thesis
    by (auto simp: wpE_def retrieve_call_def run intro: prefix_order.trans)
qed

lemma net_op_wp:
  assumes "Q () ((f w)\<lparr>now := Suc (now w)\<rparr>)" "\<And>e. E e (w\<lparr>now := Suc (now w)\<rparr>)"
  shows "wpE (net_op f) Q E w"
  using assms by (auto simp: wpE_def net_op_def split: option.splits)

lemma sys_views [simp]:
  "sys_inv dp (now_update f w) = sys_inv dp w" "sys_inv dp (sent_msgs_update g w) = sys_inv dp w"
  "sys_blob dp (now_update f w) = sys_blob dp w" "sys_entry (now_update f w) = sys_entry w"
  "sys_blob dp (sent_msgs_update g w) = sys_blob dp w" "sys_entry (sent_msgs_update g w) = sys_entry w"
  "sys_blob dp (db_w_update h w) = sys_blob dp w" "sys_entry (disk_w_update j w) = sys_entry w"
  by (simp_all add: sys_inv_def sys_blob_def sys_entry_def fun_eq_iff)

text \<open>The metadata and storage services keep the contract the gateway relies on.\<close>

interpretation gateway_services: upstream_contract "services dp" "sys_inv dp" "sys_blob dp" sys_entry sent_msgs
  "\<lambda>i. blob_id_ok i \<and> canonical (dp_env dp) i" for dp
proof (unfold_locales, goal_cases)
  case (1 w c b)
  then have "md_ok (dp_env dp) (db_w w)" by (simp add: sys_inv_def)
  from mh_HeadBucket_wp [OF this, of b] show ?case
    unfolding services_def upstream.select_convs
    by (intro on_db_wp) (use 1 in \<open>auto simp: sys_inv_def sys_entry_def fun_eq_iff elim!: wpE_mono\<close>)
next
  case (2 w c)
  then show ?case unfolding services_def upstream.select_convs by (intro net_op_wp) auto
next
  case (3 w m)
  then show ?case unfolding services_def upstream.select_convs by (intro net_op_wp) auto
next
  case (4 w)
  then have "storage_inv (dp_repo dp) (disk_w w)" "blob_id_ok (blob_ids w (now w))" by (auto simp: sys_inv_def)
  from h_StoreObject_inv [OF this] 4 show ?case
    unfolding services_def upstream.select_convs wp prod.case
    by (intro on_disk_wp) (auto simp: sys_inv_def elim!: wpE_mono)
next
  case (5 w sz ct cs)
  have ids: "repo_ok (dp_repo dp)" "blob_id_ok (blob_ids w (now w))" "canonical (dp_env dp) (blob_ids w (now w))"
    using 5(1) by (auto simp: sys_inv_def storage_inv_def)
  have msgs: "map Inr (sent_msgs w) = Inr (StoreHeader sz ct []) # map (Inr \<circ> StoreChunk) cs"
    using 5(2) by simp
  show ?case
    unfolding services_def upstream.select_convs wp prod.case msgs
    by (rule on_disk_wp, rule wpE_mono [OF h_StoreObject_wp [OF ids(1,2)]]) (auto simp: sys_blob_def ids)
next
  case (6 w i c b k n et ct)
  then have "md_ok (dp_env dp) (db_w w)" "canonical (dp_env dp) i" by (simp_all add: sys_inv_def)
  note wp_create = mh_CreateObjectVersion_wp [OF this(1) server_ctx_no_tx this(2)]
  show ?case
    unfolding services_def upstream.select_convs
    by (rule on_db_wp, rule wpE_mono [OF wp_create])
      (use 6 in \<open>auto simp: sys_inv_def sys_entry_def meta_of_def\<close>)
next
  case (7 w c b k)
  then have "md_ok (dp_env dp) (db_w w)" by (simp add: sys_inv_def)
  from mh_GetObjectMeta_wp [OF this, of b k] show ?case
    unfolding services_def upstream.select_convs
    by (intro on_db_wp) (use 7 in \<open>auto simp: sys_inv_def sys_entry_def fun_eq_iff elim!: wpE_mono\<close>)
next
  case (8 w i d c lim)
  then show ?case unfolding services_def upstream.select_convs by (intro retrieve_call_wp) auto
qed

end
