(* ===== verification/Gateway_Props.thy ===== *)
theory Gateway_Props
  imports Gateway_System Metadata_Props
begin

text \<open>
  The properties of the gateway, and a running system in which their hypotheses hold.
\<close>

section \<open>A running system\<close>

definition example_dp :: deployment where
  "example_dp = \<lparr>dp_env = example_env, dp_js = example_codec, dp_repo = example_repo, dp_chunk = 4\<rparr>"

definition example_system :: sys_world where
  "example_system = \<lparr>now = 0, disk_w = example_world, db_w = snd (CreateBucket example_env ''photos'' ''alice'' example_db),
     sent_msgs = [], blob_ids = (\<lambda>_. ''ab1''), net = (\<lambda>_. None)\<rparr>"

definition example_service :: objectService where
  "example_service = \<lparr>metadata = \<lparr>mc_timeout = 5\<rparr>, retrieveChunkSizeBytes = 1048576\<rparr>"

definition example_request :: "string \<Rightarrow> http_request" where
  "example_request m = \<lparr>rq_Method = m, rq_Path = ''/objects/photos/cat'', rq_ContentType = ''text/plain'',
     rq_ContentLength = 5, rq_Body = [(''hel'', None), (''lo'', Some EOF)], rq_Context = Background\<rparr>"


lemma example_dp_fields [simp]:
  "dp_env example_dp = example_env" "dp_js example_dp = example_codec" "dp_repo example_dp = example_repo" "dp_chunk example_dp = 4"
  by (simp_all add: example_dp_def)

lemma example_system_inv: "sys_inv example_dp example_system"
  using example_id example_inv example_bucket_ok
  by (simp add: sys_inv_def example_system_def canonical_def example_env_def)

section \<open>An upload that succeeds\<close>

lemma services_calls:
  "rpc_HeadBucket (services dp) c b = on_db (bindE (mh_HeadBucket (dp_env dp) b) (\<lambda>(ex, _, _). returnE ex))"
  "rpc_CreateObjectVersion (services dp) c b k i n et ct = on_db (mh_CreateObjectVersion (dp_env dp) (server_ctx c) b k i n et ct)"
  "rpc_StoreObject (services dp) c = net_op (sent_msgs_update (\<lambda>_. []))"
  "rpc_Send (services dp) m = net_op (sent_msgs_update (\<lambda>ms. ms @ [m]))"
  "rpc_CloseAndRecv (services dp) = bindE (getsE (\<lambda>w. (blob_ids w (now w), sent_msgs w))) (\<lambda>(i, ms).
     on_disk (h_StoreObject (dp_js dp) (dp_repo dp) i Background None (map Inr ms)))"
  by (simp_all add: services_def)

lemma wpE_run: "m w = (Inr x, w') \<Longrightarrow> Q x w' \<Longrightarrow> wpE m Q E w"
  by (simp add: wpE_def)

lemma net_calm_wp:
  "net w = (\<lambda>_. None) \<Longrightarrow> Q () ((f w)\<lparr>now := Suc (now w)\<rparr>) \<Longrightarrow> wpE (net_op f) Q E w"
  by (simp add: net_op_def wpE_def)

lemma db_calm_wp:
  "net w = (\<lambda>_. None) \<Longrightarrow> wpE m (\<lambda>x s. Q x (w\<lparr>now := Suc (now w), db_w := s\<rparr>)) (\<lambda>_ _. False) (db_w w) \<Longrightarrow>
    wpE (on_db m) Q E w"
  by (auto simp: on_db_def remote_def handleError_result_def wpE_def split: prod.splits sum.splits)

lemma disk_calm_wp:
  "net w = (\<lambda>_. None) \<Longrightarrow> wpE m (\<lambda>x s. Q x (w\<lparr>now := Suc (now w), disk_w := s\<rparr>)) (\<lambda>_ _. False) (disk_w w) \<Longrightarrow>
    wpE (on_disk m) Q E w"
  by (auto simp: on_disk_def remote_def handleError_result_def wpE_def split: prod.splits sum.splits)

lemmas example_db_run = bindE_def tryE_def returnE_def catchE_def pg_select_def pg_statement_def
  example_system_def CreateBucket_def bucket_Create_def insert_bucket_def Validate_def required_def
  example_db_def example_env_def text_arg_def uuid_arg_def Let_def bucket_named_def

lemma example_head:
  "bindE (mh_HeadBucket example_env ''photos'') (\<lambda>(ex, _, _). returnE ex) (db_w example_system) =
    (Inr True, (db_w example_system)\<lparr>now := Suc (now (db_w example_system))\<rparr>)"
  by (simp add: mh_HeadBucket_def HeadBucket_def bucket_Head_def example_db_run)

lemma example_create:
  "wpE (mh_CreateObjectVersion example_env (server_ctx c) ''photos'' ''cat'' ''ab1'' n et ct) (\<lambda>_ _. True) (\<lambda>_ _. False)
    ((db_w example_system)\<lparr>now := Suc (now (db_w example_system))\<rparr>)"
  by (simp add: wpE_def mh_CreateObjectVersion_def CreateObjectVersion_def ReadCommitted_def transaction_def pg_transactor_def
      pg_BeginTx_def createVersionTx_def UpsertObject_def InsertVersion_def SetCurrentVersion_def upsert_object_def
      object_at_def insert_version_def set_current_def tx_deferred_def pg_Commit_def example_db_run)

definition example_put_request :: http_request where
  "example_put_request = \<lparr>rq_Method = ''PUT'', rq_Path = ''/objects/photos/cat'', rq_ContentType = ''text/plain'',
     rq_ContentLength = - 1, rq_Body = [(''hel'', None), (''lo'', Some EOF)], rq_Context = Background\<rparr>"

lemma example_store:
  obtains resp d where "h_StoreObject example_codec example_repo ''ab1'' Background None
      [Inr (StoreHeader None ''text/plain'' []), Inr (StoreChunk ''hel''), Inr (StoreChunk ''lo'')] example_world = (Inr resp, d)"
    "respBlobId resp = ''ab1''"
proof -
  have m: "marshal_manifest example_codec ''ab1'' ''staged'' = Inr ''ab1staged''"
    by (simp add: example_codec_def)
  obtain resp d where store: "h_StoreObject example_codec example_repo ''ab1'' Background None
      [Inr (StoreHeader None ''text/plain'' []), Inr (StoreChunk ''hel''), Inr (StoreChunk ''lo'')] example_world = (Inr resp, d)"
    using calm_h_StoreObject [OF example_repo_ok example_id(1) example_calm _ _ m example_ready, of Background
        "[Inr (StoreChunk ''hel''), Inr (StoreChunk ''lo'')]" "''text/plain''" "[]"]
    by (auto simp: Background_def store_chunk_def)
  moreover from store have "respBlobId resp = ''ab1''"
    using wpE_InrD [OF h_StoreObject_wp [OF example_repo_ok example_id(1)],
        of example_codec Background None None "''text/plain''" "[]" "[''hel'', ''lo'']"] by simp
  ultimately show ?thesis by (rule that)
qed

lemma example_path: "objectPath (rq_Path (example_request m)) = (''photos'', ''cat'', True)"
  by (simp add: example_request_def) code_simp

lemma example_upload:
  "sw_status (fst (PutObject (services example_dp) example_service (\<lambda>_. None) example_put_request new_writer example_system)) = 200"
proof -
  have path: "objectPath ''/objects/photos/cat'' = (''photos'', ''cat'', True)" by code_simp
  obtain resp d where store: "h_StoreObject example_codec example_repo ''ab1'' Background None
      [Inr (StoreHeader None ''text/plain'' []), Inr (StoreChunk ''hel''), Inr (StoreChunk ''lo'')] example_world = (Inr resp, d)"
    and bid: "respBlobId resp = ''ab1''" by (rule example_store)
  have net: "net example_system = (\<lambda>_. None)" and disk: "disk_w example_system = example_world"
    and ids: "blob_ids example_system = (\<lambda>_. ''ab1'')" by (simp_all add: example_system_def)
  have "wpE (service_Put (services example_dp) example_service Background ''photos'' ''cat''
      [(''hel'', None), (''lo'', Some EOF)] None ''text/plain'') (\<lambda>_ _. True) (\<lambda>_ _. False) example_system"
    unfolding service_Put_def client_HeadBucket_def client_CreateVersion_def Store_def wp
    unfolding services_calls example_dp_fields
    apply (rule db_calm_wp [OF net], rule wpE_run [where m = "bindE _ _", OF example_head])
    apply (simp add: wp services_calls Let_def)
    apply (rule net_calm_wp, simp add: net)+
    apply (rule disk_calm_wp, simp add: net)
    apply (simp add: net disk ids)
    apply (rule wpE_run [where m = "h_StoreObject _ _ _ _ _ _"], rule store)
    apply (rule db_calm_wp, simp add: net)
    apply (simp only: sys_world_select bid net disk ids)
    apply (rule wpE_mono [OF example_create]; simp)
    done
  from wpE_succeeds [OF this] show ?thesis
    by (auto simp: PutObject_def path example_put_request_def Let_def WriteHeader_def)
qed


section \<open>Properties\<close>

text \<open>
  C17. Uploads and downloads through all three services. Whatever calls the transport, the disk
  and the database fail: once the gateway has answered a PUT with 200, a GET of the same path that
  it answers with 200 sends the uploaded bytes, or a prefix of them on a connection it then
  aborts, with the length of the upload, its MD5 as the entity tag of both answers, and the
  version id of the PUT. The upload is shorter than 2^63 bytes.
\<close>

theorem put_then_get:
  assumes "sys_inv dp v" "PutObject (services dp) s wr rq new_writer v = (w1, v1)" "sw_status w1 = 200"
    "length (reads_data (rq_Body rq)) < 2 ^ 63" "rq_Path rq' = rq_Path rq"
  shows "case GetObject (services dp) s wr' rq' new_writer v1 of (out, w2, v2) \<Rightarrow>
    sw_status w2 = 200 \<longrightarrow>
      prefix (sw_body w2) (reads_data (rq_Body rq)) \<and>
      (out = Completed \<longrightarrow> sw_body w2 = reads_data (rq_Body rq)) \<and>
      sw_header w2 ''Content-Length'' = Some (itoa (int (length (reads_data (rq_Body rq))))) \<and>
      sw_header w1 ''ETag'' = Some (strconv_Quote (md5Hex (reads_data (rq_Body rq)))) \<and>
      sw_header w2 ''ETag'' = sw_header w1 ''ETag'' \<and>
      sw_header w2 ''X-Object-Version-Id'' = sw_header w1 ''X-Object-Version-Id''"
  using gateway_services.http_put_get [OF assms(1-5), of wr'] by (auto split: prod.splits)

theorem put_then_get_witness:
  "case PutObject (services example_dp) example_service (\<lambda>_. None) example_put_request new_writer example_system of (w1, v1) \<Rightarrow>
   case GetObject (services example_dp) example_service (\<lambda>_. None) (example_request ''GET'') new_writer v1 of (out, w2, v2) \<Rightarrow>
     sw_status w1 = 200 \<and>
     (sw_status w2 = 200 \<longrightarrow>
       prefix (sw_body w2) ''hello'' \<and> (out = Completed \<longrightarrow> sw_body w2 = ''hello'') \<and>
       sw_header w2 ''Content-Length'' = Some (itoa 5) \<and>
       sw_header w1 ''ETag'' = Some (strconv_Quote (md5Hex ''hello'')) \<and>
       sw_header w2 ''ETag'' = sw_header w1 ''ETag'' \<and>
       sw_header w2 ''X-Object-Version-Id'' = sw_header w1 ''X-Object-Version-Id'')"
proof -
  obtain w1 v1 where put: "PutObject (services example_dp) example_service (\<lambda>_. None) example_put_request new_writer example_system = (w1, v1)"
    by fastforce
  have ok: "sw_status w1 = 200" using example_upload by (simp add: put)
  have body: "reads_data (rq_Body example_put_request) = ''hello''" and path: "rq_Path (example_request ''GET'') = rq_Path example_put_request"
    by (simp_all add: example_put_request_def example_request_def)
  show ?thesis
    using put_then_get [OF example_system_inv put ok _ path, of "\<lambda>_. None"] put ok body
    by (simp split: prod.splits)
qed

text \<open>
  C18. A download is verified to its last byte. For any upstream services, a GET that completes
  with 200 has sent all bytes of the storage stream, exactly as many as the catalog and the
  Content-Length header say, and the stream ended cleanly. A handler that aborts the connection,
  with no fault of the client's connection, has sent fewer bytes than announced, so the client
  cannot take the body for a complete one.
\<close>

theorem GetObject_verified:
  assumes "GetObject up s wr r new_writer v = (out, w', v')" "out = ErrAbortHandler \<or> sw_status w' = 200"
  shows "\<exists>b k g. objectPath (rq_Path r) = (b, k, True) \<and> service_Get up s (rq_Context r) b k v = (Inr g, v') \<and>
    sw_header w' ''Content-Length'' = Some (itoa (r_Size g)) \<and> prefix (sw_body w') (sr_data (r_Body g)) \<and>
    (out = Completed \<longrightarrow> sw_body w' = sr_data (r_Body g) \<and> int (length (sw_body w')) = r_Size g \<and> sr_error (r_Body g) = None) \<and>
    (out = ErrAbortHandler \<and> wr = (\<lambda>_. None) \<longrightarrow> int (length (sw_body w')) < r_Size g)"
  by (rule GetObject_body [OF assms]) blast

definition cut_upstream :: "int \<Rightarrow> unit clocked_scheme upstream" where
  "cut_upstream n = \<lparr>
     rpc_HeadBucket = (\<lambda>c b. returnE True),
     rpc_CreateObjectVersion = (\<lambda>c b k i n et ct. throwE EOF),
     rpc_GetObjectMeta = (\<lambda>c b k. returnE \<lparr>m_ObjectID = ''u0'', m_VersionID = ''u1'', m_BlobID = ''ab1'', m_SizeBytes = n, m_Etag = ''e'',
        m_ContentType = ''text/plain'', m_LastModified = 0\<rparr>),
     rpc_StoreObject = (\<lambda>c. returnE ()), rpc_Send = (\<lambda>m. returnE ()), rpc_CloseAndRecv = throwE EOF,
     rpc_RetrieveObject = (\<lambda>c i lim. returnE [Inr ''hel'', Inr ''lo'', Inl EOF])\<rparr>"

definition cut_body :: streamReader where
  "cut_body = \<lparr>sr_stream = Some [Inr ''lo'', Inl EOF], sr_buffer = ''hel''\<rparr>"

lemma cut_copy:
  "fst (copyVerifiedObject (\<lambda>_. None) cut_body 5 w) = None"
  "sw_status w = 0 \<Longrightarrow> sw_status (snd (copyVerifiedObject (\<lambda>_. None) cut_body 5 w)) = 200"
  "fst (copyVerifiedObject (\<lambda>_. None) cut_body 9 w) \<noteq> None"
  by (simp_all add: copyVerifiedObject_def cut_body_def io_CopyN.simps [of _ "numeral n" for n] io_CopyN.simps [of _ 1]
      io_CopyN.simps [of _ "Suc 0"] io_CopyN.simps [of _ 0]
      streamReader_Read_def copyBufferSize_def bufReader_Read1_def verifyStreamEnd_def sw_Write_def Let_def)

theorem GetObject_verified_witness:
  "sw_body (fst (snd (GetObject (cut_upstream 5) example_service (\<lambda>_. None) (example_request ''GET'') new_writer \<lparr>now = 0\<rparr>))) = ''hello'' \<and>
   (case GetObject (cut_upstream 9) example_service (\<lambda>_. None) (example_request ''GET'') new_writer \<lparr>now = 0\<rparr> of (out, w', v') \<Rightarrow>
      out = ErrAbortHandler \<and> prefix (sw_body w') ''hello'' \<and> length (sw_body w') < 9)"
proof -
  let ?get = "\<lambda>n. GetObject (cut_upstream n) example_service (\<lambda>_. None) (example_request ''GET'') new_writer \<lparr>now = 0\<rparr>"
  have svc: "service_Get (cut_upstream n) example_service Background b k \<lparr>now = 0\<rparr> =
      (Inr \<lparr>r_Body = cut_body, r_Size = n, r_ETag = ''e'',
        r_VersionID = ''u1'', r_ContentType = ''text/plain''\<rparr>, \<lparr>now = 0\<rparr>)" for n b k
    by (simp add: service_Get_def client_GetObject_def Retrieve_def cut_upstream_def cut_body_def bindE_def getsE_def wrapE_def
        catchE_def returnE_def)
  have ctx: "rq_Context (example_request ''GET'') = Background" by (simp add: example_request_def)
  have data: "sr_data cut_body = ''hello''" by (simp add: sr_data_def cut_body_def)
  have "fst (?get 5) = Completed \<and> sw_status (fst (snd (?get 5))) = 200 \<and> fst (?get 9) = ErrAbortHandler"
    by (auto simp: GetObject_def svc ctx example_path case_prod_unfold cut_copy Let_def split: option.splits)
  moreover obtain o5 w5 v5 where "?get 5 = (o5, w5, v5)" by (metis surj_pair)
  moreover obtain o9 w9 v9 where "?get 9 = (o9, w9, v9)" by (metis surj_pair)
  ultimately show ?thesis
    using GetObject_verified [of "cut_upstream 5" example_service "\<lambda>_. None" "example_request ''GET''" "\<lparr>now = 0\<rparr>"]
      GetObject_verified [of "cut_upstream 9" example_service "\<lambda>_. None" "example_request ''GET''" "\<lparr>now = 0\<rparr>"]
    by (fastforce simp: svc ctx data)
qed

text \<open>
  C19. What the gateway answers when a service fails, by the status of the call: a missing blob
  behind an existing catalog entry is a gateway fault and never a 404, a full disk is 507 and an
  overloaded catalog 503.
\<close>

theorem upstream_error_statuses:
  "fst (classifyServiceError (mapError (StatusError c m))) =
     (case c of G_InvalidArgument \<Rightarrow> 400 | G_NotFound \<Rightarrow> 404 | G_ResourceExhausted \<Rightarrow> 503 | G_Unavailable \<Rightarrow> 503
        | G_DeadlineExceeded \<Rightarrow> 504 | _ \<Rightarrow> 502) \<and>
   fst (classifyServiceError (mapStoreError (StatusError c m))) =
     (case c of G_InvalidArgument \<Rightarrow> 400 | G_NotFound \<Rightarrow> 404 | G_ResourceExhausted \<Rightarrow> 507 | G_Unavailable \<Rightarrow> 503
        | G_DeadlineExceeded \<Rightarrow> 504 | _ \<Rightarrow> 502) \<and>
   fst (classifyServiceError (mapRetrieveError (StatusError c m))) =
     (case c of G_InvalidArgument \<Rightarrow> 400 | G_Unavailable \<Rightarrow> 503 | G_DeadlineExceeded \<Rightarrow> 504 | _ \<Rightarrow> 502)"
  by (cases c; simp add: classifyServiceError_def mapError_def mapStoreError_def mapRetrieveError_def gateway_errors
      status_Code_def Let_def)

text \<open>
  C20. The object paths are exactly those of a nonempty bucket without a slash and a nonempty
  key, which may have slashes: the bucket and key determine the path and the path determines them.
  They are counted by the metrics under the object route.
\<close>

theorem objectPath_iff:
  "(objectPath path = (b, k, True) \<longleftrightarrow>
     path = ''/objects/'' @ b @ ''/'' @ k \<and> b \<noteq> [] \<and> k \<noteq> [] \<and> CHR ''/'' \<notin> set b) \<and>
   routeName (''/objects/'' @ b @ ''/'' @ k) = ''/objects/{bucket}/{key}''"
proof -
  have "objectPath path = (b, k, True) \<longleftrightarrow> path = ''/objects/'' @ b @ ''/'' @ k \<and> b \<noteq> [] \<and> k \<noteq> [] \<and> CHR ''/'' \<notin> set b"
    if "HasPrefix path ''/objects/''"
  proof -
    from that obtain rest where path: "path = ''/objects/'' @ rest" by (auto simp: HasPrefix_iff prefix_def)
    have trim: "TrimPrefix path ''/objects/'' = rest" by (simp add: TrimPrefix_def path HasPrefix_iff)
    have cut: "Cut rest (CHR ''/'') = (b, k, True) \<longleftrightarrow> rest = b @ ''/'' @ k \<and> CHR ''/'' \<notin> set b"
      using Cut_True Cut_found by fastforce
    from that trim cut show ?thesis by (auto simp: objectPath_def path split: prod.splits)
  qed
  moreover have "HasPrefix path ''/objects/'' = (\<exists>rest. path = ''/objects/'' @ rest)"
    by (auto simp: HasPrefix_iff prefix_def)
  ultimately have iff: "objectPath path = (b, k, True) \<longleftrightarrow>
      path = ''/objects/'' @ b @ ''/'' @ k \<and> b \<noteq> [] \<and> k \<noteq> [] \<and> CHR ''/'' \<notin> set b"
    by (cases "HasPrefix path ''/objects/''") (auto simp: objectPath_def)
  then show ?thesis by (auto simp: routeName_def HasPrefix_iff TrimPrefix_def)
qed

text \<open>
  The labels of the request metrics come from fixed sets, whatever the client sends, and the
  status counted is the one sent: 200 when the handler never wrote a header.
\<close>

lemma request_metric_labels:
  "case NewHTTPHandler serve r v of ((out, w, v'), m) \<Rightarrow>
     rm_method m \<in> {''GET'', ''HEAD'', ''POST'', ''PUT'', ''PATCH'', ''DELETE'', ''CONNECT'', ''OPTIONS'', ''TRACE'', ''_OTHER''} \<and>
     rm_route m \<in> {''/healthz'', ''/swagger/*'', ''/objects/{bucket}/{key}'', ''unmatched''} \<and>
     rm_status m = (if sw_status w = 0 then 200 else sw_status w)"
  by (simp add: NewHTTPHandler_def methodLabel_def routeName_def split: prod.splits)

end
