(* ===== verification/Users_Repo.thy ===== *)
theory Users_Repo
  imports Metadata_Repo
begin

text \<open>
  The users service's database and repository, \<open>services/users/migrations\<close> and
  \<open>services/users/internal/repository/user\<close>.

  As for the metadata service, Postgres is modelled from its documentation on the tables of the
  migration, with \<open>pg_env\<close> for what it leaves open: the ids a UUID column reads and the strings
  a TEXT column accepts. Every call takes one tick and fails as \<open>us_faults\<close> says. A Go
  \<open>time.Time\<close> stored in a timestamp column is a count of microseconds.
\<close>

section \<open>Models and their conversions\<close>

record UserInfo =
  Name :: string
  Email :: string

record User =
  user_Id :: string
  User_Info :: UserInfo
  CreatedAt :: int
  UpdatedAt :: int

text \<open>The scanned row, \<open>repository/user/model\<close>.\<close>

record repo_UserInfo =
  ru_Name :: string
  ru_Email :: string

record repo_User =
  ru_Id :: string
  ru_UserInfo :: repo_UserInfo
  ru_CreatedAt :: int
  ru_UpdatedAt :: int

definition FromRepoToModelUserInfo :: "repo_UserInfo \<Rightarrow> UserInfo" where
  "FromRepoToModelUserInfo userInfo = \<lparr>Name = ru_Name userInfo, Email = ru_Email userInfo\<rparr>"

definition FromModelToRepoUserInfo :: "UserInfo \<Rightarrow> repo_UserInfo" where
  "FromModelToRepoUserInfo userInfo = \<lparr>ru_Name = Name userInfo, ru_Email = Email userInfo\<rparr>"

definition FromRepoToModelUser :: "repo_User \<Rightarrow> User" where
  "FromRepoToModelUser user = \<lparr>user_Id = ru_Id user, User_Info = FromRepoToModelUserInfo (ru_UserInfo user),
     CreatedAt = ru_CreatedAt user, UpdatedAt = ru_UpdatedAt user\<rparr>"

definition FromModelToRepoUser :: "User \<Rightarrow> repo_User" where
  "FromModelToRepoUser user = \<lparr>ru_Id = user_Id user, ru_UserInfo = FromModelToRepoUserInfo (User_Info user),
     ru_CreatedAt = CreatedAt user, ru_UpdatedAt = UpdatedAt user\<rparr>"

lemma user_conversions [simp]:
  "FromRepoToModelUserInfo (FromModelToRepoUserInfo i) = i" "FromModelToRepoUserInfo (FromRepoToModelUserInfo r) = r"
  "FromRepoToModelUser (FromModelToRepoUser u) = u" "FromModelToRepoUser (FromRepoToModelUser s) = s"
  by (simp_all add: FromRepoToModelUserInfo_def FromModelToRepoUserInfo_def FromRepoToModelUser_def FromModelToRepoUser_def)

section \<open>Errors\<close>

definition ErrUserNotFound :: go_error where
  "ErrUserNotFound = NewCommonError ''user not found'' NotFound"
definition ErrEmailAlreadyExists :: go_error where
  "ErrEmailAlreadyExists = NewCommonError ''email already exists'' AlreadyExists"
definition ErrInvalidInput :: go_error where
  "ErrInvalidInput = NewValidationErrors [''invalid input'']"
definition ErrNameRequired :: go_error where
  "ErrNameRequired = NewValidationErrors [''name is required'']"
definition ErrEmailRequired :: go_error where
  "ErrEmailRequired = NewValidationErrors [''email is required'']"
definition ErrPasswordRequired :: go_error where
  "ErrPasswordRequired = NewValidationErrors [''password is required'']"
definition ErrInvalidEmailFormat :: go_error where
  "ErrInvalidEmailFormat = NewValidationErrors [''invalid email format'']"
definition ErrPasswordMismatch :: go_error where
  "ErrPasswordMismatch = NewValidationErrors [''passwords do not match'']"
definition ErrPasswordTooShort :: go_error where
  "ErrPasswordTooShort = NewValidationErrors [''password must be at least 5 characters long'']"

lemmas user_errors = ErrUserNotFound_def ErrEmailAlreadyExists_def ErrInvalidInput_def ErrNameRequired_def
  ErrEmailRequired_def ErrPasswordRequired_def ErrInvalidEmailFormat_def ErrPasswordMismatch_def
  ErrPasswordTooShort_def NewCommonError_def NewValidationErrors_def

section \<open>Tables and statements\<close>

record user_row =
  u_id :: string
  u_name :: string
  u_email :: string
  u_password :: string
  u_created :: int
  u_updated :: int

record password_log =
  l_user_id :: string
  l_changed_at :: int
  l_ip :: string

record user_tables =
  users :: "user_row list"
  logs :: "password_log list"

record us_world = clocked +
  us_tables :: user_tables
  us_saved :: "user_tables option"
  us_faults :: "nat \<Rightarrow> (db_fault \<times> bool) option"
  us_uuid :: "nat \<Rightarrow> string"
  us_wall :: "nat \<Rightarrow> int"

type_synonym 'a usop = "(us_world, go_error, 'a) op"

definition us_statement :: "(us_world \<Rightarrow> go_error + ('a \<times> user_tables)) \<Rightarrow> 'a usop" where
  "us_statement f = (\<lambda>w. let w' = w\<lparr>now := Suc (now w)\<rparr> in
     case us_faults w (now w) of
       Some (e, _) \<Rightarrow> (Inl (db_fault_error e), w')
     | None \<Rightarrow> (case f w of Inl e \<Rightarrow> (Inl e, w') | Inr (x, t) \<Rightarrow> (Inr x, w'\<lparr>us_tables := t\<rparr>)))"

definition us_select :: "(us_world \<Rightarrow> go_error + 'a) \<Rightarrow> 'a usop" where
  "us_select f = us_statement (\<lambda>w. case f w of Inl e \<Rightarrow> Inl e | Inr x \<Rightarrow> Inr (x, us_tables w))"

definition us_Begin :: "us_world \<Rightarrow> (go_error + nat) \<times> us_world" where
  "us_Begin = (\<lambda>w. let w' = w\<lparr>now := Suc (now w)\<rparr> in
     case us_faults w (now w) of
       Some (e, _) \<Rightarrow> (Inl (db_fault_error e), w')
     | None \<Rightarrow> (Inr (now w), w'\<lparr>us_saved := Some (us_tables w)\<rparr>))"

definition us_before :: "us_world \<Rightarrow> user_tables" where
  "us_before w = (case us_saved w of Some t \<Rightarrow> t | None \<Rightarrow> us_tables w)"

definition us_Commit :: "nat \<Rightarrow> us_world \<Rightarrow> (go_error + unit) \<times> us_world" where
  "us_Commit tx = (\<lambda>w. let w' = w\<lparr>now := Suc (now w), us_saved := None\<rparr> in
     case us_faults w (now w) of
       Some (e, applied) \<Rightarrow> (Inl (db_fault_error e), if applied then w' else w'\<lparr>us_tables := us_before w\<rparr>)
     | None \<Rightarrow> (Inr (), w'))"

definition us_Rollback :: "nat \<Rightarrow> us_world \<Rightarrow> (go_error + unit) \<times> us_world" where
  "us_Rollback tx = (\<lambda>w. let w' = w\<lparr>now := Suc (now w), us_saved := None, us_tables := us_before w\<rparr> in
     case us_faults w (now w) of Some (e, _) \<Rightarrow> (Inl (db_fault_error e), w') | None \<Rightarrow> (Inr (), w'))"

definition us_transactor :: "us_world transactor" where
  "us_transactor = \<lparr>BeginTx = us_Begin, Commit = us_Commit, Rollback = us_Rollback\<rparr>"

interpretation users_db: transactional us_transactor us_tables us_saved
  by unfold_locales
    (auto simp: us_transactor_def us_Begin_def us_Commit_def us_Rollback_def us_before_def wpE_def Let_def
      split: option.splits prod.splits)

section \<open>The repository\<close>

text \<open>The INSERT with its constraints: the primary key and the unique email.\<close>

definition insert_user :: "user_tables \<Rightarrow> user_row \<Rightarrow> go_error + (string \<times> user_tables)" where
  "insert_user t u =
    (if u_id u \<in> u_id ` set (users t) \<or> u_email u \<in> u_email ` set (users t) then Inl (PgError ''23505'')
     else Inr (u_id u, t\<lparr>users := users t @ [u]\<rparr>))"

definition ur_Create :: "pg_env \<Rightarrow> UserInfo \<Rightarrow> string \<Rightarrow> int \<Rightarrow> string usop" where
  "ur_Create env userInfo hashedPassword createdAt =
    (let userInfoRepo = FromModelToRepoUserInfo userInfo in
     catchE (us_statement (\<lambda>w.
        case text_arg env (ru_Name userInfoRepo) of Some e \<Rightarrow> Inl e
        | None \<Rightarrow>
        case text_arg env (ru_Email userInfoRepo) of Some e \<Rightarrow> Inl e
        | None \<Rightarrow>
        case text_arg env hashedPassword of Some e \<Rightarrow> Inl e
        | None \<Rightarrow>
          insert_user (us_tables w)
            \<lparr>u_id = us_uuid w (now w), u_name = ru_Name userInfoRepo, u_email = ru_Email userInfoRepo,
             u_password = hashedPassword, u_created = createdAt, u_updated = us_wall w (now w)\<rparr>))
      (\<lambda>err. if as_pgerror err = Some ''23505'' then throwE ErrEmailAlreadyExists else throwE err))"

text \<open>A DELETE cascades to the logs; its result is the number of rows.\<close>

definition delete_user :: "user_tables \<Rightarrow> string \<Rightarrow> nat \<times> user_tables" where
  "delete_user t i = (length (filter (\<lambda>u. u_id u = i) (users t)),
     t\<lparr>users := filter (\<lambda>u. u_id u \<noteq> i) (users t), logs := filter (\<lambda>l. l_user_id l \<noteq> i) (logs t)\<rparr>)"

definition ur_Delete :: "pg_env \<Rightarrow> string \<Rightarrow> unit usop" where
  "ur_Delete env userID =
    bindE (us_statement (\<lambda>w. case uuid_arg env userID of Inl e \<Rightarrow> Inl e | Inr i \<Rightarrow> Inr (delete_user (us_tables w) i))) (\<lambda>rowsAffected.
    if rowsAffected = 0 then throwE ErrUserNotFound else returnE ())"

definition repo_row :: "user_row \<Rightarrow> repo_User" where
  "repo_row u = \<lparr>ru_Id = u_id u, ru_UserInfo = \<lparr>ru_Name = u_name u, ru_Email = u_email u\<rparr>,
     ru_CreatedAt = u_created u, ru_UpdatedAt = u_updated u\<rparr>"

definition ur_Get :: "pg_env \<Rightarrow> string \<Rightarrow> User usop" where
  "ur_Get env userID =
    bindE (catchE (us_select (\<lambda>w.
        case uuid_arg env userID of Inl e \<Rightarrow> Inl e
        | Inr i \<Rightarrow> scan_one (take 1 (map repo_row (filter (\<lambda>u. u_id u = i) (users (us_tables w)))))))
      (\<lambda>err. if errors_Is err ErrNoRows then throwE ErrUserNotFound else throwE err)) (\<lambda>user.
    returnE (FromRepoToModelUser user))"

definition ur_GetUserCredentials :: "pg_env \<Rightarrow> string \<Rightarrow> (string \<times> string) usop" where
  "ur_GetUserCredentials env email =
    catchE (us_select (\<lambda>w.
        case text_arg env email of Some e \<Rightarrow> Inl e
        | None \<Rightarrow> scan_row (take 1 (map (\<lambda>u. (u_id u, u_password u)) (filter (\<lambda>u. u_email u = email) (users (us_tables w)))))))
      (\<lambda>err. if errors_Is err ErrNoRows then throwE ErrUserNotFound else throwE err)"

text \<open>An UPDATE of the rows with an id; the unique email is checked on the result.\<close>

definition update_users :: "user_tables \<Rightarrow> string \<Rightarrow> (user_row \<Rightarrow> user_row) \<Rightarrow> go_error + (nat \<times> user_tables)" where
  "update_users t i f =
    (let us = map (\<lambda>u. if u_id u = i then f u else u) (users t) in
     if distinct (map u_email us) then Inr (length (filter (\<lambda>u. u_id u = i) (users t)), t\<lparr>users := us\<rparr>)
     else Inl (PgError ''23505''))"

definition opt_text_arg :: "pg_env \<Rightarrow> string option \<Rightarrow> go_error option" where
  "opt_text_arg env s = (case s of None \<Rightarrow> None | Some v \<Rightarrow> text_arg env v)"

definition ur_Update :: "pg_env \<Rightarrow> string \<Rightarrow> string option \<Rightarrow> string option \<Rightarrow> unit usop" where
  "ur_Update env userID name email =
    (if name = None \<and> email = None then throwE (JoinError ErrInvalidInput (ErrorString ''no fields to update''))
     else
     bindE (catchE (us_statement (\<lambda>w.
        case opt_text_arg env name of Some e \<Rightarrow> Inl e
        | None \<Rightarrow>
        case opt_text_arg env email of Some e \<Rightarrow> Inl e
        | None \<Rightarrow>
        case uuid_arg env userID of Inl e \<Rightarrow> Inl e
        | Inr i \<Rightarrow>
          update_users (us_tables w) i
            (\<lambda>u. u\<lparr>u_name := (case name of None \<Rightarrow> u_name u | Some v \<Rightarrow> v),
                  u_email := (case email of None \<Rightarrow> u_email u | Some v \<Rightarrow> v), u_updated := us_wall w (now w)\<rparr>)))
      (\<lambda>err. if as_pgerror err = Some ''23505'' then throwE ErrEmailAlreadyExists else throwE err)) (\<lambda>rowsAffected.
     if rowsAffected = 0 then throwE ErrUserNotFound else returnE ()))"

definition ur_UpdatePassword :: "pg_env \<Rightarrow> string \<Rightarrow> string \<Rightarrow> unit usop" where
  "ur_UpdatePassword env userID hashedPassword =
    bindE (us_statement (\<lambda>w.
        case text_arg env hashedPassword of Some e \<Rightarrow> Inl e
        | None \<Rightarrow>
        case uuid_arg env userID of Inl e \<Rightarrow> Inl e
        | Inr i \<Rightarrow> update_users (us_tables w) i (\<lambda>u. u\<lparr>u_password := hashedPassword, u_updated := us_wall w (now w)\<rparr>))) (\<lambda>rowsAffected.
    if rowsAffected = 0 then throwE ErrUserNotFound else returnE ())"

text \<open>The INSERT into the log, with its foreign key.\<close>

definition insert_log :: "user_tables \<Rightarrow> password_log \<Rightarrow> go_error + (unit \<times> user_tables)" where
  "insert_log t l =
    (if l_user_id l \<in> u_id ` set (users t) then Inr ((), t\<lparr>logs := logs t @ [l]\<rparr>) else Inl (PgError ''23503''))"

definition ur_LogPassword :: "pg_env \<Rightarrow> string \<Rightarrow> string \<Rightarrow> unit usop" where
  "ur_LogPassword env userID ip =
    us_statement (\<lambda>w.
      case uuid_arg env userID of Inl e \<Rightarrow> Inl e
      | Inr i \<Rightarrow>
      case text_arg env ip of Some e \<Rightarrow> Inl e
      | None \<Rightarrow> insert_log (us_tables w) \<lparr>l_user_id = i, l_changed_at = us_wall w (now w), l_ip = ip\<rparr>)"

end
