(* ===== verification/Users_Validate.thy ===== *)
theory Users_Validate
  imports Users_Repo
begin

text \<open>
  Input validation of the users service, \<open>services/users/internal/validator\<close> and \<open>utils\<close>.

  Package regexp is modelled by regular expressions over bytes with their derivatives; the
  expressions the sources use have only ASCII classes, so a match of the bytes is a match of the
  decoded text. \<open>lang_of\<close> is what an expression denotes and \<open>rx_matches\<close> decides it.
\<close>

section \<open>Regular expressions\<close>

datatype rx = RNone | REmpty | RClass "char \<Rightarrow> bool" | RAlt rx rx | RSeq rx rx | RStar rx

fun nullable :: "rx \<Rightarrow> bool" where
  "nullable RNone = False"
| "nullable REmpty = True"
| "nullable (RClass P) = False"
| "nullable (RAlt r s) = (nullable r \<or> nullable s)"
| "nullable (RSeq r s) = (nullable r \<and> nullable s)"
| "nullable (RStar r) = True"

fun deriv :: "char \<Rightarrow> rx \<Rightarrow> rx" where
  "deriv c RNone = RNone"
| "deriv c REmpty = RNone"
| "deriv c (RClass P) = (if P c then REmpty else RNone)"
| "deriv c (RAlt r s) = RAlt (deriv c r) (deriv c s)"
| "deriv c (RSeq r s) = (if nullable r then RAlt (RSeq (deriv c r) s) (deriv c s) else RSeq (deriv c r) s)"
| "deriv c (RStar r) = RSeq (deriv c r) (RStar r)"

fun rx_matches :: "rx \<Rightarrow> string \<Rightarrow> bool" where
  "rx_matches r [] = nullable r"
| "rx_matches r (c # s) = rx_matches (deriv c r) s"

inductive_set star_of :: "string set \<Rightarrow> string set" for A where
  star_Nil: "[] \<in> star_of A"
| star_step: "a \<in> A \<Longrightarrow> b \<in> star_of A \<Longrightarrow> a @ b \<in> star_of A"

fun lang_of :: "rx \<Rightarrow> string set" where
  "lang_of RNone = {}"
| "lang_of REmpty = {[]}"
| "lang_of (RClass P) = {[c] |c. P c}"
| "lang_of (RAlt r s) = lang_of r \<union> lang_of s"
| "lang_of (RSeq r s) = {a @ b |a b. a \<in> lang_of r \<and> b \<in> lang_of s}"
| "lang_of (RStar r) = star_of (lang_of r)"

lemma nullable_iff: "nullable r \<longleftrightarrow> [] \<in> lang_of r"
  by (induction r) (auto intro: star_of.intros)

lemma star_Cons: "c # s \<in> star_of A \<longleftrightarrow> (\<exists>a b. s = a @ b \<and> c # a \<in> A \<and> b \<in> star_of A)"
proof
  assume "c # s \<in> star_of A"
  then show "\<exists>a b. s = a @ b \<and> c # a \<in> A \<and> b \<in> star_of A"
  proof (induction "c # s" arbitrary: s rule: star_of.induct)
    case (star_step a b)
    then show ?case by (cases a) auto
  qed
next
  assume "\<exists>a b. s = a @ b \<and> c # a \<in> A \<and> b \<in> star_of A"
  then show "c # s \<in> star_of A" using star_step [of "c # _" A] by auto
qed

lemma deriv_lang: "s \<in> lang_of (deriv c r) \<longleftrightarrow> c # s \<in> lang_of r"
proof (induction r arbitrary: s)
  case (RSeq r1 r2)
  have "c # s \<in> lang_of (RSeq r1 r2) \<longleftrightarrow>
      (nullable r1 \<and> c # s \<in> lang_of r2) \<or> (\<exists>a b. s = a @ b \<and> c # a \<in> lang_of r1 \<and> b \<in> lang_of r2)"
    by (auto simp: nullable_iff Cons_eq_append_conv)
  with RSeq show ?case by auto
qed (auto simp: star_Cons)

theorem rx_matches_iff: "rx_matches r s \<longleftrightarrow> s \<in> lang_of r"
  by (induction r s rule: rx_matches.induct) (auto simp: nullable_iff deriv_lang)

definition RPlus :: "rx \<Rightarrow> rx" where
  "RPlus r = RSeq r (RStar r)"

lemma lang_class_seq:
  "c # s \<in> lang_of (RSeq (RClass P) r) \<longleftrightarrow> P c \<and> s \<in> lang_of r" "[] \<notin> lang_of (RSeq (RClass P) r)"
proof -
  have "c # s \<in> lang_of (RSeq (RClass P) r)" if "P c" "s \<in> lang_of r"
    using that by (simp, intro exI [of _ "[c]"] exI [of _ s]) simp
  then show "c # s \<in> lang_of (RSeq (RClass P) r) \<longleftrightarrow> P c \<and> s \<in> lang_of r"
    by auto
qed auto

text \<open>A repeated class denotes the strings over it.\<close>

lemma star_class: "star_of {[c] |c. P c} = {s. list_all P s}"
proof (intro set_eqI)
  show "s \<in> star_of {[c] |c. P c} \<longleftrightarrow> s \<in> {s. list_all P s}" for s
    by (induction s) (auto simp: star_Cons intro: star_Nil)
qed

lemma lang_class_star: "lang_of (RStar (RClass P)) = {s. list_all P s}"
  by (simp add: star_class)

lemma lang_class_plus: "lang_of (RPlus (RClass P)) = {s. s \<noteq> [] \<and> list_all P s}"
proof (intro set_eqI)
  show "s \<in> lang_of (RPlus (RClass P)) \<longleftrightarrow> s \<in> {s. s \<noteq> [] \<and> list_all P s}" for s
    by (cases s) (simp_all add: RPlus_def lang_class_seq lang_class_star del: lang_of.simps)
qed

section \<open>Emails\<close>

definition in_range :: "char \<Rightarrow> char \<Rightarrow> char \<Rightarrow> bool" where
  "in_range a b c = ((of_char a :: nat) \<le> of_char c \<and> (of_char c :: nat) \<le> of_char b)"

definition letter :: "char \<Rightarrow> bool" where
  "letter c = (in_range (CHR ''a'') (CHR ''z'') c \<or> in_range (CHR ''A'') (CHR ''Z'') c)"

definition local_char :: "char \<Rightarrow> bool" where
  "local_char c = (letter c \<or> in_range (CHR ''0'') (CHR ''9'') c \<or> c \<in> set ''._%+-'')"

definition domain_char :: "char \<Rightarrow> bool" where
  "domain_char c = (letter c \<or> in_range (CHR ''0'') (CHR ''9'') c \<or> c \<in> set ''.-'')"

definition RChar :: "char \<Rightarrow> rx" where
  "RChar a = RClass (\<lambda>c. c = a)"

definition emailRegex :: rx where
  "emailRegex =
    RSeq (RPlus (RClass local_char)) (RSeq (RChar (CHR ''@'')) (RSeq (RPlus (RClass domain_char))
      (RSeq (RChar (CHR ''.'')) (RSeq (RClass letter) (RPlus (RClass letter))))))"

definition IsValidEmail :: "string \<Rightarrow> bool" where
  "IsValidEmail email = rx_matches emailRegex email"

lemma two_letters: "lang_of (RSeq (RClass P) (RPlus (RClass P))) = {s. 2 \<le> length s \<and> list_all P s}"
proof (intro set_eqI)
  show "s \<in> lang_of (RSeq (RClass P) (RPlus (RClass P))) \<longleftrightarrow> s \<in> {s. 2 \<le> length s \<and> list_all P s}" for s
    by (cases s; cases "tl s") (simp_all add: lang_class_seq lang_class_plus del: lang_of.simps)
qed

lemma lang_RSeq: "s \<in> lang_of (RSeq q r) \<longleftrightarrow> (\<exists>a b. s = a @ b \<and> a \<in> lang_of q \<and> b \<in> lang_of r)"
  by auto

lemma lang_RChar: "lang_of (RChar c) = {[c]}"
  by (auto simp: RChar_def)

lemma IsValidEmail_parts:
  "IsValidEmail e \<longleftrightarrow>
    (\<exists>l d t. e = l @ ''@'' @ d @ ''.'' @ t \<and> l \<noteq> [] \<and> list_all local_char l \<and> d \<noteq> [] \<and> list_all domain_char d \<and>
       2 \<le> length t \<and> list_all letter t)"
proof -
  have "e \<in> lang_of emailRegex \<longleftrightarrow>
    (\<exists>l r. e = l @ r \<and> (l \<noteq> [] \<and> list_all local_char l) \<and>
      (\<exists>d t. r = CHR ''@'' # d @ CHR ''.'' # t \<and> (d \<noteq> [] \<and> list_all domain_char d) \<and> 2 \<le> length t \<and> list_all letter t))"
    unfolding emailRegex_def lang_RSeq [where q = "RPlus _"] lang_RSeq [where q = "RChar _"] two_letters lang_class_plus lang_RChar
    by (simp del: lang_of.simps; blast)
  then show ?thesis unfolding IsValidEmail_def rx_matches_iff by auto
qed

section \<open>Conditions\<close>

text \<open>A condition is evaluated to its error, or to none.\<close>

definition ValidateNotEmptyString :: "string \<Rightarrow> go_error \<Rightarrow> go_error option" where
  "ValidateNotEmptyString txt err = (if txt = [] then Some err else None)"

definition ValidateNotEmptyPointerToString :: "string option \<Rightarrow> go_error \<Rightarrow> go_error option" where
  "ValidateNotEmptyPointerToString txt err = (if txt \<noteq> None \<and> the txt = [] then Some err else None)"

definition ValidateEmailFromat :: "string \<Rightarrow> go_error option" where
  "ValidateEmailFromat email = (if \<not> IsValidEmail email then Some ErrInvalidEmailFormat else None)"

definition ValidateEmailFromatPointer :: "string option \<Rightarrow> go_error option" where
  "ValidateEmailFromatPointer email =
    (if email \<noteq> None \<and> \<not> IsValidEmail (the email) then Some ErrInvalidEmailFormat else None)"

definition ValidatePasswordMismatch :: "string \<Rightarrow> string \<Rightarrow> go_error option" where
  "ValidatePasswordMismatch password passwordConfirm =
    (if password \<noteq> passwordConfirm then Some ErrPasswordMismatch else None)"

definition ValidatePasswordTooShort :: "string \<Rightarrow> go_error option" where
  "ValidatePasswordTooShort password = (if length password < 5 then Some ErrPasswordTooShort else None)"

definition ValidatePassword :: "string \<Rightarrow> string \<Rightarrow> go_error option" where
  "ValidatePassword password passwordConfirm =
    Validate [ValidateNotEmptyString password ErrPasswordRequired, ValidatePasswordTooShort password,
              ValidatePasswordMismatch password passwordConfirm]"

lemmas conditions = ValidateNotEmptyString_def ValidateNotEmptyPointerToString_def ValidateEmailFromat_def
  ValidateEmailFromatPointer_def ValidatePasswordMismatch_def ValidatePasswordTooShort_def

lemma ValidatePassword_None: "ValidatePassword p q = None \<longleftrightarrow> 5 \<le> length p \<and> p = q"
  by (auto simp: ValidatePassword_def Validate_None conditions)

end
