(* ===== verification/Users_Service.thy ===== *)
theory Users_Service
  imports Users_Validate
begin

text \<open>
  The users service and its gRPC handlers, \<open>services/users/internal/service/user\<close>,
  \<open>conventer/user\<close> and \<open>handler/user\<close>.

  The package bcrypt is a parameter: hashing takes the salt it draws as an argument, and
  comparing answers the error or nil. The protobuf messages are records of their fields, a
  missing message is \<open>None\<close>. Spans and logs are left out.
\<close>

record bcrypt =
  GenerateFromPassword :: "bytes \<Rightarrow> nat \<Rightarrow> go_error + string"
  CompareHashAndPassword :: "string \<Rightarrow> bytes \<Rightarrow> go_error option"

section \<open>The service\<close>

definition hashPassword :: "bcrypt \<Rightarrow> string \<Rightarrow> string usop" where
  "hashPassword bc password = bindE (getsE now) (\<lambda>salt. liftE (GenerateFromPassword bc password salt))"

definition validateAndHashPassword :: "bcrypt \<Rightarrow> string \<Rightarrow> string \<Rightarrow> string usop" where
  "validateAndHashPassword bc password passwordConfirm =
    (case ValidatePassword password passwordConfirm of
       Some err \<Rightarrow> throwE err
     | None \<Rightarrow> hashPassword bc password)"

definition us_Create :: "pg_env \<Rightarrow> bcrypt \<Rightarrow> UserInfo \<Rightarrow> string \<Rightarrow> string \<Rightarrow> string usop" where
  "us_Create env bc userInfo password passwordConfirm =
    (case Validate [ValidateNotEmptyString (Name userInfo) ErrNameRequired,
                    ValidateNotEmptyString (Email userInfo) ErrEmailRequired,
                    ValidateEmailFromat (Email userInfo)] of
       Some err \<Rightarrow> throwE err
     | None \<Rightarrow>
        bindE (validateAndHashPassword bc password passwordConfirm) (\<lambda>hashedPassword.
        bindE (getsE (\<lambda>w. us_wall w (now w))) (\<lambda>createdAt.
        ur_Create env userInfo hashedPassword createdAt)))"

definition us_Delete :: "pg_env \<Rightarrow> string \<Rightarrow> unit usop" where
  "us_Delete env userID = ur_Delete env userID"

definition us_Get :: "pg_env \<Rightarrow> string \<Rightarrow> User usop" where
  "us_Get env userID = ur_Get env userID"

definition us_Update :: "pg_env \<Rightarrow> string \<Rightarrow> string option \<Rightarrow> string option \<Rightarrow> unit usop" where
  "us_Update env userID name email =
    (case Validate [ValidateNotEmptyPointerToString name ErrNameRequired,
                    ValidateNotEmptyPointerToString email ErrEmailRequired,
                    ValidateEmailFromatPointer email] of
       Some err \<Rightarrow> throwE err
     | None \<Rightarrow> ur_Update env userID name email)"

text \<open>The handler of the transaction in \<open>UpdatePassword\<close>.\<close>

definition updatePasswordTx :: "pg_env \<Rightarrow> string \<Rightarrow> string \<Rightarrow> ctx \<Rightarrow> unit usop" where
  "updatePasswordTx env userID hashedPassword c =
    bindE (ur_UpdatePassword env userID hashedPassword) (\<lambda>_.
    case ExtractIP c of (ip, ok) \<Rightarrow> ur_LogPassword env userID ip)"

definition us_UpdatePassword :: "pg_env \<Rightarrow> bcrypt \<Rightarrow> ctx \<Rightarrow> string \<Rightarrow> string \<Rightarrow> string \<Rightarrow> unit usop" where
  "us_UpdatePassword env bc c userID password passwordConfirm =
    bindE (validateAndHashPassword bc password passwordConfirm) (\<lambda>hashedPassword.
    ReadCommitted us_transactor c (updatePasswordTx env userID hashedPassword))"

definition us_ValidateCredentials :: "pg_env \<Rightarrow> bcrypt \<Rightarrow> string \<Rightarrow> string \<Rightarrow> (bool \<times> string) usop" where
  "us_ValidateCredentials env bc email password =
    bindE (tryE (ur_GetUserCredentials env email)) (\<lambda>row.
    case row of
      Inl err \<Rightarrow> returnE (False, [])
    | Inr (i, storedHash) \<Rightarrow>
       (case CompareHashAndPassword bc storedHash password of
          Some err \<Rightarrow> returnE (False, [])
        | None \<Rightarrow> returnE (True, i)))"

section \<open>Messages\<close>

record pb_UserInfo =
  pb_Name :: string
  pb_Email :: string

text \<open>\<open>timestamppb.Timestamp\<close>: seconds and nanoseconds.\<close>

record Timestamp =
  Seconds :: int
  Nanos :: int

definition timestamp_New :: "int \<Rightarrow> Timestamp" where
  "timestamp_New t = \<lparr>Seconds = t div 1000000, Nanos = 1000 * (t mod 1000000)\<rparr>"

definition AsTime :: "Timestamp \<Rightarrow> int" where
  "AsTime ts = 1000000 * Seconds ts + Nanos ts div 1000"

record pb_User =
  pb_Id :: string
  pb_UserInfo :: "pb_UserInfo option"
  pb_CreatedAt :: Timestamp
  pb_UpdatedAt :: Timestamp

definition FromModelToProtoUserInfo :: "UserInfo \<Rightarrow> pb_UserInfo" where
  "FromModelToProtoUserInfo m = \<lparr>pb_Name = Name m, pb_Email = Email m\<rparr>"

definition FromProtoToModelUserInfo :: "pb_UserInfo option \<Rightarrow> UserInfo" where
  "FromProtoToModelUserInfo proto =
    (case proto of Some p \<Rightarrow> \<lparr>Name = pb_Name p, Email = pb_Email p\<rparr> | None \<Rightarrow> \<lparr>Name = [], Email = []\<rparr>)"

definition FromModelToProtoUser :: "User \<Rightarrow> pb_User" where
  "FromModelToProtoUser m = \<lparr>pb_Id = user_Id m, pb_UserInfo = Some (FromModelToProtoUserInfo (User_Info m)),
     pb_CreatedAt = timestamp_New (CreatedAt m), pb_UpdatedAt = timestamp_New (UpdatedAt m)\<rparr>"

definition FromProtoToModelUser :: "pb_User \<Rightarrow> User" where
  "FromProtoToModelUser p = \<lparr>user_Id = pb_Id p, User_Info = FromProtoToModelUserInfo (pb_UserInfo p),
     CreatedAt = AsTime (pb_CreatedAt p), UpdatedAt = AsTime (pb_UpdatedAt p)\<rparr>"

lemma AsTime_New [simp]: "AsTime (timestamp_New t) = t"
  by (simp add: AsTime_def timestamp_New_def)

lemma proto_roundtrip: "FromProtoToModelUser (FromModelToProtoUser u) = u"
  by (simp add: FromProtoToModelUser_def FromModelToProtoUser_def FromProtoToModelUserInfo_def FromModelToProtoUserInfo_def)

section \<open>The handlers\<close>

definition uh_Create :: "pg_env \<Rightarrow> bcrypt \<Rightarrow> pb_UserInfo option \<Rightarrow> string \<Rightarrow> string \<Rightarrow> string usop" where
  "uh_Create env bc userInfo password passwordConfirm =
    bindE (us_Create env bc (FromProtoToModelUserInfo userInfo) password passwordConfirm) (\<lambda>userID. returnE userID)"

definition uh_Delete :: "pg_env \<Rightarrow> string \<Rightarrow> unit usop" where
  "uh_Delete env userID = us_Delete env userID"

definition uh_Get :: "pg_env \<Rightarrow> string \<Rightarrow> pb_User usop" where
  "uh_Get env i = bindE (us_Get env i) (\<lambda>user. returnE (FromModelToProtoUser user))"

definition uh_Update :: "pg_env \<Rightarrow> string \<Rightarrow> string option \<Rightarrow> string option \<Rightarrow> unit usop" where
  "uh_Update env userID name email = us_Update env userID name email"

definition uh_UpdatePassword :: "pg_env \<Rightarrow> bcrypt \<Rightarrow> ctx \<Rightarrow> string \<Rightarrow> string \<Rightarrow> string \<Rightarrow> unit usop" where
  "uh_UpdatePassword env bc c userID password passwordConfirm =
    us_UpdatePassword env bc (InjectIp c) userID password passwordConfirm"

definition uh_ValidateCredentials :: "pg_env \<Rightarrow> bcrypt \<Rightarrow> string \<Rightarrow> string \<Rightarrow> (bool \<times> string) usop" where
  "uh_ValidateCredentials env bc email password =
    bindE (us_ValidateCredentials env bc email password) (\<lambda>(valid, i). returnE (valid, i))"

end
