(* ===== verification/Users_Spec.thy ===== *)
theory Users_Spec
  imports Users_Service Metadata_Refine
begin

text \<open>
  The invariant of the users service's tables, that every call keeps it under any faults of the
  database, and the effect of each call on the tables.
\<close>

lemma handlers_forward:
  "uh_Create env bc info p q = us_Create env bc (FromProtoToModelUserInfo info) p q"
  "uh_ValidateCredentials env bc e p = us_ValidateCredentials env bc e p"
  unfolding uh_Create_def uh_ValidateCredentials_def bindE_def returnE_def
  by (simp_all add: fun_eq_iff split: prod.split sum.split)

section \<open>The invariant\<close>

definition user_ok :: "pg_env \<Rightarrow> user_row \<Rightarrow> bool" where
  "user_ok env u = (canonical env (u_id u) \<and> u_name u \<noteq> [] \<and> IsValidEmail (u_email u))"

definition user_tables_ok :: "pg_env \<Rightarrow> user_tables \<Rightarrow> bool" where
  "user_tables_ok env t =
    (distinct (map u_id (users t)) \<and> distinct (map u_email (users t)) \<and> list_all (user_ok env) (users t) \<and>
     list_all (\<lambda>l. l_user_id l \<in> u_id ` set (users t)) (logs t))"

definition us_ok :: "pg_env \<Rightarrow> us_world \<Rightarrow> bool" where
  "us_ok env w = (us_saved w = None \<and> user_tables_ok env (us_tables w) \<and> (\<forall>i. canonical env (us_uuid w i)))"

section \<open>Statements\<close>

lemma wpE_us_statement:
  assumes "\<And>x t. f w = Inr (x, t) \<Longrightarrow> Q x (w\<lparr>now := Suc (now w), us_tables := t\<rparr>)"
    and "\<And>e. f w = Inl e \<or> e \<in> range db_fault_error \<Longrightarrow> E e (w\<lparr>now := Suc (now w)\<rparr>)"
  shows "wpE (us_statement f) Q E w"
  using assms by (auto simp: wpE_def us_statement_def Let_def split: option.splits sum.splits prod.splits)

lemma wpE_us_select:
  assumes "\<And>x. f w = Inr x \<Longrightarrow> Q x (w\<lparr>now := Suc (now w)\<rparr>)"
    and "\<And>e. f w = Inl e \<or> e \<in> range db_fault_error \<Longrightarrow> E e (w\<lparr>now := Suc (now w)\<rparr>)"
  shows "wpE (us_select f) Q E w"
  unfolding us_select_def
proof (rule wpE_us_statement)
  fix x t assume "(case f w of Inl e \<Rightarrow> Inl e | Inr x \<Rightarrow> Inr (x, us_tables w)) = Inr (x, t)"
  then have "f w = Inr x" "t = us_tables w" by (auto split: sum.splits)
  with assms(1) [of x] show "Q x (w\<lparr>now := Suc (now w), us_tables := t\<rparr>)" by simp
qed (rule assms(2), auto split: sum.splits)

definition us_frame :: "(us_world \<Rightarrow> 'b) \<Rightarrow> bool" where
  "us_frame f = (\<forall>w n t. f (w\<lparr>now := n\<rparr>) = f w \<and> f (w\<lparr>now := n, us_tables := t\<rparr>) = f w)"

lemma us_frames [simp]: "us_frame us_saved" "us_frame us_uuid" "us_frame us_faults"
  by (simp_all add: us_frame_def)

lemma preserves_us_statement [frame]: "us_frame f \<Longrightarrow> preserves (us_statement g) f"
  by (auto simp: preserves_def us_statement_def Let_def us_frame_def split: option.splits sum.splits prod.splits)

lemma preserves_us_select [frame]: "us_frame f \<Longrightarrow> preserves (us_select g) f"
  unfolding us_select_def by (rule preserves_us_statement)

lemma preserves_us_select_tables [frame]: "preserves (us_select g) us_tables"
  by (auto simp: preserves_def us_select_def us_statement_def Let_def split: option.splits sum.splits prod.splits)

lemma us_ok_now [simp]: "us_ok env (now_update f w) = us_ok env w"
  by (simp add: us_ok_def)

lemma us_ok_tables: "us_ok env w \<Longrightarrow> user_tables_ok env t \<Longrightarrow> us_ok env (w\<lparr>now := n, us_tables := t\<rparr>)"
  by (simp add: us_ok_def)

section \<open>The effect on the tables\<close>

lemma insert_user_ok:
  assumes "user_tables_ok env t" "user_ok env u" "insert_user t u = Inr (i, t')"
  shows "user_tables_ok env t' \<and> i = u_id u \<and> t' = t\<lparr>users := users t @ [u]\<rparr> \<and>
    u_id u \<notin> u_id ` set (users t) \<and> u_email u \<notin> u_email ` set (users t)"
  using assms by (auto simp: insert_user_def user_tables_ok_def list_all_iff split: if_splits)

lemma delete_user_ok:
  assumes "user_tables_ok env t" "delete_user t i = (n, t')"
  shows "user_tables_ok env t' \<and> users t' = filter (\<lambda>u. u_id u \<noteq> i) (users t) \<and>
    logs t' = filter (\<lambda>l. l_user_id l \<noteq> i) (logs t) \<and> (n = 0 \<longleftrightarrow> i \<notin> u_id ` set (users t))"
proof -
  have t': "users t' = filter (\<lambda>u. u_id u \<noteq> i) (users t)" "logs t' = filter (\<lambda>l. l_user_id l \<noteq> i) (logs t)"
    "n = length (filter (\<lambda>u. u_id u = i) (users t))" using assms(2) by (auto simp: delete_user_def)
  have "l_user_id l \<in> u_id ` set (users t')" if "l \<in> set (logs t')" for l
  proof -
    have "l_user_id l \<in> u_id ` set (users t)" "l_user_id l \<noteq> i"
      using that assms(1) by (auto simp: t' user_tables_ok_def list_all_iff)
    then show ?thesis by (auto simp: t')
  qed
  then have "user_tables_ok env t'"
    using assms(1) by (auto simp: user_tables_ok_def list_all_iff t' distinct_map_filter)
  moreover have "n = 0 \<longleftrightarrow> i \<notin> u_id ` set (users t)" by (auto simp: t' filter_empty_conv)
  ultimately show ?thesis using t' by simp
qed

lemma update_users_ok:
  assumes "user_tables_ok env t" "update_users t i f = Inr (n, t')"
    and "\<And>u. u_id (f u) = u_id u" "\<And>u. user_ok env u \<Longrightarrow> user_ok env (f u)"
  shows "user_tables_ok env t' \<and> users t' = map (\<lambda>u. if u_id u = i then f u else u) (users t) \<and> logs t' = logs t \<and>
    (n = 0 \<longleftrightarrow> i \<notin> u_id ` set (users t))"
proof -
  let ?us = "map (\<lambda>u. if u_id u = i then f u else u) (users t)"
  have t': "t' = t\<lparr>users := ?us\<rparr>" "distinct (map u_email ?us)" "n = length (filter (\<lambda>u. u_id u = i) (users t))"
    using assms(2) by (auto simp: update_users_def Let_def split: if_splits)
  have ids: "map u_id ?us = map u_id (users t)" using assms(3) by simp
  then have "u_id ` set ?us = u_id ` set (users t)" by (metis set_map)
  moreover have "list_all (user_ok env) ?us" using assms(1,4) by (auto simp: user_tables_ok_def list_all_iff)
  moreover have "n = 0 \<longleftrightarrow> i \<notin> u_id ` set (users t)" using t'(3) by (auto simp: filter_empty_conv)
  ultimately show ?thesis using assms(1) t' ids by (simp add: user_tables_ok_def del: map_map)
qed

section \<open>Calls\<close>

lemma validated_name_email:
  "Validate [ValidateNotEmptyString n ErrNameRequired, ValidateNotEmptyString e ErrEmailRequired, ValidateEmailFromat e] = None \<longleftrightarrow>
    n \<noteq> [] \<and> e \<noteq> [] \<and> IsValidEmail e"
  by (auto simp: Validate_None conditions)

lemma validated_update:
  "Validate [ValidateNotEmptyPointerToString n ErrNameRequired, ValidateNotEmptyPointerToString e ErrEmailRequired,
      ValidateEmailFromatPointer e] = None \<longleftrightarrow> n \<noteq> Some [] \<and> e \<noteq> Some [] \<and> (\<forall>v. e = Some v \<longrightarrow> IsValidEmail v)"
  by (cases n; cases e) (auto simp: Validate_None conditions)

lemma validateAndHash_wp:
  "wpE (validateAndHashPassword bc p q)
    (\<lambda>h w'. w' = w \<and> p = q \<and> 5 \<le> length p \<and> GenerateFromPassword bc p (now w) = Inr h) (\<lambda>_ w'. w' = w) w"
  unfolding validateAndHashPassword_def hashPassword_def wp
  using ValidatePassword_None [of p q] by (auto simp: wp split: option.splits sum.splits)

text \<open>A created user is one new row with a fresh id and email.\<close>

lemma us_Create_wp:
  assumes "us_ok env w"
  shows "wpE (us_Create env bc info p q)
    (\<lambda>i w'. us_ok env w' \<and> i \<notin> u_id ` set (users (us_tables w)) \<and> Email info \<notin> u_email ` set (users (us_tables w)) \<and>
       logs (us_tables w') = logs (us_tables w) \<and> text_in env (Email info) \<and>
       (\<exists>u h. users (us_tables w') = users (us_tables w) @ [u] \<and> u_id u = i \<and> u_name u = Name info \<and> u_email u = Email info \<and>
          u_password u = h \<and> GenerateFromPassword bc p (now w) = Inr h \<and> p = q \<and> 5 \<le> length p \<and> IsValidEmail (Email info)))
    (\<lambda>_ w'. us_ok env w' \<and> us_tables w' = us_tables w) w"
proof (cases "Validate [ValidateNotEmptyString (Name info) ErrNameRequired, ValidateNotEmptyString (Email info) ErrEmailRequired,
    ValidateEmailFromat (Email info)]")
  case None
  then have valid: "Name info \<noteq> []" "IsValidEmail (Email info)" by (simp_all add: validated_name_email)
  show ?thesis
    unfolding us_Create_def None option.case wp
  proof (rule wpE_mono [OF validateAndHash_wp], goal_cases)
    case (1 h w0)
    then have w0: "w0 = w" and h: "p = q" "5 \<le> length p" "GenerateFromPassword bc p (now w) = Inr h" by auto
    show ?case
      unfolding w0 ur_Create_def Let_def wp
    proof (rule wpE_us_statement, goal_cases)
      case (1 i t)
      let ?u = "\<lparr>u_id = us_uuid w (now w), u_name = Name info, u_email = Email info, u_password = h,
          u_created = us_wall w (now w), u_updated = us_wall w (now w)\<rparr>"
      have "insert_user (us_tables w) ?u = Inr (i, t)"
        using 1 by (simp add: FromModelToRepoUserInfo_def split: option.splits)
      moreover have "user_ok env ?u" using valid assms by (simp add: user_ok_def us_ok_def)
      moreover have "user_tables_ok env (us_tables w)" using assms by (simp add: us_ok_def)
      ultimately have ins: "user_tables_ok env t \<and> i = u_id ?u \<and> t = us_tables w\<lparr>users := users (us_tables w) @ [?u]\<rparr> \<and>
          u_id ?u \<notin> u_id ` set (users (us_tables w)) \<and> u_email ?u \<notin> u_email ` set (users (us_tables w))"
        by (intro insert_user_ok)
      then have ok: "us_ok env (w\<lparr>now := Suc (now w), us_tables := t\<rparr>)" using us_ok_tables [OF assms] by blast
      have more: "users t = users (us_tables w) @ [?u]" "logs t = logs (us_tables w)" using ins by simp_all
      have fresh: "i \<notin> u_id ` set (users (us_tables w))" "Email info \<notin> u_email ` set (users (us_tables w))" using ins by simp_all
      have row: "\<exists>u h. users t = users (us_tables w) @ [u] \<and> u_id u = i \<and> u_name u = Name info \<and> u_email u = Email info \<and>
          u_password u = h \<and> GenerateFromPassword bc p (now w) = Inr h \<and> p = q \<and> 5 \<le> length p \<and> IsValidEmail (Email info)"
        using ins more h valid by (intro exI [of _ ?u] exI [of _ h]) simp
      have "text_in env (Email info)"
        using 1 by (simp add: FromModelToRepoUserInfo_def text_arg_def split: option.splits if_splits)
      then show ?case using ok fresh more(2) row by simp
    qed (use assms in \<open>auto simp: wp\<close>)
  qed (use assms in auto)
qed (use assms in \<open>simp add: us_Create_def wp\<close>)

text \<open>Deleting and updating.\<close>

lemma us_Delete_wp:
  assumes "us_ok env w"
  shows "wpE (us_Delete env i)
    (\<lambda>_ w'. us_ok env w' \<and> (\<exists>j. uuid_in env i = Some j \<and> j \<in> u_id ` set (users (us_tables w)) \<and>
       users (us_tables w') = filter (\<lambda>u. u_id u \<noteq> j) (users (us_tables w)) \<and>
       logs (us_tables w') = filter (\<lambda>l. l_user_id l \<noteq> j) (logs (us_tables w))))
    (\<lambda>_ w'. us_ok env w') w"
  unfolding us_Delete_def ur_Delete_def wp
proof (rule wpE_us_statement, goal_cases)
  case (1 n t)
  then obtain j where j: "uuid_in env i = Some j" "delete_user (us_tables w) j = (n, t)"
    by (auto simp: uuid_arg_def split: option.splits)
  have "user_tables_ok env (us_tables w)" using assms by (simp add: us_ok_def)
  from delete_user_ok [OF this j(2)] assms show ?case
    using j(1) by (auto simp: wp intro!: us_ok_tables)
qed (use assms in \<open>auto simp: wp\<close>)

lemma us_Update_ok:
  assumes "us_ok env w"
  shows "wpE (us_Update env i n e) (\<lambda>_ w'. us_ok env w') (\<lambda>_ w'. us_ok env w') w"
proof (cases "Validate [ValidateNotEmptyPointerToString n ErrNameRequired, ValidateNotEmptyPointerToString e ErrEmailRequired,
      ValidateEmailFromatPointer e]")
  case None
  then have valid: "n \<noteq> Some []" "e \<noteq> Some []" "\<And>v. e = Some v \<Longrightarrow> IsValidEmail v" by (simp_all add: validated_update)
  have "wpE (ur_Update env i n e) (\<lambda>_ w'. us_ok env w') (\<lambda>_ w'. us_ok env w') w"
    unfolding ur_Update_def wp
  proof (split if_split, intro conjI impI, goal_cases)
    case 2
    show ?case
  proof (rule wpE_us_statement, goal_cases)
    case (1 k t)
    then obtain j where up: "update_users (us_tables w) j
        (\<lambda>u. u\<lparr>u_name := (case n of None \<Rightarrow> u_name u | Some v \<Rightarrow> v), u_email := (case e of None \<Rightarrow> u_email u | Some v \<Rightarrow> v),
               u_updated := us_wall w (now w)\<rparr>) = Inr (k, t)"
      by (auto split: option.splits sum.splits)
    have "user_tables_ok env (us_tables w)" using assms by (simp add: us_ok_def)
    have "user_ok env u \<Longrightarrow> user_ok env (u\<lparr>u_name := (case n of None \<Rightarrow> u_name u | Some v \<Rightarrow> v),
        u_email := (case e of None \<Rightarrow> u_email u | Some v \<Rightarrow> v), u_updated := us_wall w (now w)\<rparr>)" for u
      using valid by (auto simp: user_ok_def split: option.splits)
    from update_users_ok [OF \<open>user_tables_ok env (us_tables w)\<close> up _ this] have "user_tables_ok env t" by simp
    then have "us_ok env (w\<lparr>now := Suc (now w), us_tables := t\<rparr>)" using assms by (rule us_ok_tables [rotated])
    then show ?case by (simp add: wp)
  qed (use assms in \<open>auto simp: wp\<close>)
  qed (use assms in simp)
  then show ?thesis by (simp add: us_Update_def None)
qed (use assms in \<open>simp add: us_Update_def wp\<close>)

text \<open>
  The transaction of \<open>UpdatePassword\<close>: the new hash in the row of the user, and one more entry in
  the log.
\<close>

definition password_changed :: "string \<Rightarrow> string \<Rightarrow> string \<Rightarrow> user_tables \<Rightarrow> user_tables \<Rightarrow> bool" where
  "password_changed i h ip t t' =
    (i \<in> u_id ` set (users t) \<and>
     (\<exists>upd. users t' = map (\<lambda>u. if u_id u = i then u\<lparr>u_password := h, u_updated := upd\<rparr> else u) (users t)) \<and>
     (\<exists>at. logs t' = logs t @ [\<lparr>l_user_id = i, l_changed_at = at, l_ip = ip\<rparr>]))"

lemma update_password_ok:
  assumes "user_tables_ok env t" "update_users t i (\<lambda>u. u\<lparr>u_password := h, u_updated := at\<rparr>) = Inr (n, t')"
  shows "user_tables_ok env t' \<and> users t' = map (\<lambda>u. if u_id u = i then u\<lparr>u_password := h, u_updated := at\<rparr> else u) (users t) \<and>
    logs t' = logs t \<and> (n = 0 \<longleftrightarrow> i \<notin> u_id ` set (users t))"
  by (rule update_users_ok [OF assms]) (auto simp: user_ok_def)

lemma updatePasswordTx_wp:
  assumes "user_tables_ok env (us_tables w)"
  shows "wpE (updatePasswordTx env i h c)
    (\<lambda>_ w'. user_tables_ok env (us_tables w') \<and>
       (\<exists>j. uuid_in env i = Some j \<and> password_changed j h (fst (ExtractIP c)) (us_tables w) (us_tables w')))
    (\<lambda>_ _. True) w"
  unfolding updatePasswordTx_def ur_UpdatePassword_def wp
proof (rule wpE_us_statement, goal_cases)
  case (1 n t)
  then obtain j where j: "uuid_in env i = Some j"
      "update_users (us_tables w) j (\<lambda>u. u\<lparr>u_password := h, u_updated := us_wall w (now w)\<rparr>) = Inr (n, t)"
    by (auto simp: uuid_arg_def split: option.splits)
  note up = update_password_ok [OF assms j(2)]
  show ?case
  proof (cases "n = 0")
    case False
    obtain ip ok where ip: "ExtractIP c = (ip, ok)" by fastforce
    have "wpE (ur_LogPassword env i ip)
      (\<lambda>_ w'. user_tables_ok env (us_tables w') \<and>
        (\<exists>j. uuid_in env i = Some j \<and> password_changed j h (fst (ExtractIP c)) (us_tables w) (us_tables w')))
      (\<lambda>_ _. True) (w\<lparr>now := Suc (now w), us_tables := t\<rparr>)"
      unfolding ur_LogPassword_def
    proof (rule wpE_us_statement, goal_cases)
      case (1 y t2)
      then have t2: "t2 = t\<lparr>logs := logs t @ [\<lparr>l_user_id = j, l_changed_at = us_wall w (Suc (now w)), l_ip = ip\<rparr>]\<rparr>" "j \<in> u_id ` set (users t)"
        using j(1) by (auto simp: uuid_arg_def insert_log_def split: option.splits if_splits)
      have t3: "users t2 = users t" "logs t2 = logs t @ [\<lparr>l_user_id = j, l_changed_at = us_wall w (Suc (now w)), l_ip = ip\<rparr>]"
        by (simp_all add: t2)
      have "user_tables_ok env t" using up ..
      then have "user_tables_ok env t2" using t2(2) by (simp add: user_tables_ok_def t3)
      moreover have "password_changed j h ip (us_tables w) t2"
        unfolding password_changed_def t3 using up False by auto
      ultimately show ?case using j(1) ip by auto
    qed simp
    with False ip show ?thesis by simp
  qed (simp add: wp)
qed simp

lemma us_UpdatePassword_wp:
  assumes "us_ok env w" "ExtractTx c = None"
  shows "wpE (us_UpdatePassword env bc c i p q)
    (\<lambda>_ w'. us_ok env w' \<and> p = q \<and> 5 \<le> length p \<and> (\<exists>j h. uuid_in env i = Some j \<and> GenerateFromPassword bc p (now w) = Inr h \<and>
       password_changed j h (fst (ExtractIP c)) (us_tables w) (us_tables w')))
    (\<lambda>_ w'. us_ok env w' \<and> (us_tables w' = us_tables w \<or> (\<exists>j h. uuid_in env i = Some j \<and> GenerateFromPassword bc p (now w) = Inr h \<and>
       password_changed j h (fst (ExtractIP c)) (us_tables w) (us_tables w')))) w"
proof -
  have tx: "preserves (ReadCommitted us_transactor c f) us_uuid" if "\<And>c. preserves (f c) us_uuid" for f :: "ctx \<Rightarrow> unit usop" and c
    using that
    by (intro preserves_ReadCommitted)
      (auto simp: preserves_def us_transactor_def us_Begin_def us_Commit_def us_Rollback_def Let_def split: option.splits)
  have body: "preserves (updatePasswordTx env i h c) f" if "us_frame f" for h c and f :: "us_world \<Rightarrow> 'z"
    unfolding updatePasswordTx_def ur_UpdatePassword_def ur_LogPassword_def by (intro frame that)
  have uuid: "preserves (us_UpdatePassword env bc c i p q) us_uuid"
    unfolding us_UpdatePassword_def validateAndHashPassword_def hashPassword_def
    by (intro frame tx body us_frames)
  have "wpE (us_UpdatePassword env bc c i p q)
    (\<lambda>_ w'. us_saved w' = None \<and> p = q \<and> 5 \<le> length p \<and> user_tables_ok env (us_tables w') \<and>
       (\<exists>j h. uuid_in env i = Some j \<and> GenerateFromPassword bc p (now w) = Inr h \<and>
          password_changed j h (fst (ExtractIP c)) (us_tables w) (us_tables w')))
    (\<lambda>_ w'. us_saved w' = None \<and> (us_tables w' = us_tables w \<or>
       user_tables_ok env (us_tables w') \<and> (\<exists>j h. uuid_in env i = Some j \<and> GenerateFromPassword bc p (now w) = Inr h \<and>
          password_changed j h (fst (ExtractIP c)) (us_tables w) (us_tables w')))) w"
    unfolding us_UpdatePassword_def wp
  proof (rule wpE_mono [OF validateAndHash_wp], goal_cases)
    case (1 h w0)
    then have w0: "w0 = w" and h: "p = q" "5 \<le> length p" "GenerateFromPassword bc p (now w) = Inr h" by auto
    have ok: "user_tables_ok env (us_tables w)" "us_saved w = None" using assms by (simp_all add: us_ok_def)
    show ?case
      unfolding w0
    proof (rule wpE_mono [OF users_db.ReadCommitted_wp [where f = "updatePasswordTx env i h" and
          Q = "\<lambda>_ t. user_tables_ok env t \<and> (\<exists>j. uuid_in env i = Some j \<and> password_changed j h (fst (ExtractIP c)) (us_tables w) t)",
          OF ok(2) assms(2) body [OF us_frames(1)]]], goal_cases)
      case (1 tx w1)
      with updatePasswordTx_wp [of env w1 i h "InjectTx c tx"] ok(1) show ?case
        by (simp add: Extract_Inject)
    qed (use h in auto)
  qed (use assms in \<open>auto simp: us_ok_def\<close>)
  from wpE_preserved [OF uuid this] show ?thesis
    by (rule wpE_mono) (use assms in \<open>auto simp: us_ok_def\<close>)
qed

end
