(* ===== verification/Users_Props.thy ===== *)
theory Users_Props
  imports Users_Spec Metadata_Props
begin

text \<open>
  The properties of the users service, for any implementation of bcrypt that behaves as its
  documentation says, and a concrete database and bcrypt in which their hypotheses hold.
\<close>

section \<open>Bcrypt\<close>

text \<open>
  The package refuses to hash more than 72 bytes. Its key schedule repeats the password with a
  zero byte at its end and reads 72 bytes; a hash accepts exactly the passwords with the key it was made of.
\<close>

definition bcrypt_key :: "bytes \<Rightarrow> bytes" where
  "bcrypt_key p = take 72 (concat (replicate 72 (p @ [CHR 0x00])))"

definition bcrypt_ok :: "bcrypt \<Rightarrow> bool" where
  "bcrypt_ok bc = (\<forall>p salt.
    (72 < length p \<longrightarrow> GenerateFromPassword bc p salt = Inl (ErrorString ''bcrypt: password length exceeds 72 bytes'')) \<and>
    (\<forall>h. GenerateFromPassword bc p salt = Inr h \<longrightarrow>
       (\<forall>q. CompareHashAndPassword bc h q = None \<longleftrightarrow> bcrypt_key q = bcrypt_key p)))"

definition example_bcrypt :: bcrypt where
  "example_bcrypt = \<lparr>
     GenerateFromPassword = (\<lambda>p salt. if 72 < length p then Inl (ErrorString ''bcrypt: password length exceeds 72 bytes'')
       else Inr (bcrypt_key p)),
     CompareHashAndPassword = (\<lambda>h q. if h = bcrypt_key q then None else Some (ErrorString ''bcrypt: hashedPassword is not the hash of the given password''))\<rparr>"

lemma example_bcrypt_ok: "bcrypt_ok example_bcrypt"
  by (auto simp: bcrypt_ok_def example_bcrypt_def)

lemma bcrypt_key_prefix:
  assumes "CHR 0x00 \<notin> set p"
  shows "takeWhile (\<lambda>c. c \<noteq> CHR 0x00) (bcrypt_key p) = take 72 p"
proof -
  have "replicate 72 (p @ [CHR 0x00]) = (p @ [CHR 0x00]) # replicate 71 (p @ [CHR 0x00])"
    by (simp flip: replicate_Suc)
  then have key: "bcrypt_key p = take 72 p @ take (72 - length p) (CHR 0x00 # concat (replicate 71 (p @ [CHR 0x00])))"
    unfolding bcrypt_key_def by simp
  have all: "\<forall>c \<in> set (take 72 p). c \<noteq> CHR 0x00" using assms by (metis in_set_takeD)
  show ?thesis
  proof (cases "72 - length p")
    case 0
    then show ?thesis using all by (simp add: key takeWhile_eq_all_conv)
  next
    case (Suc n)
    then show ?thesis using all by (simp add: key takeWhile_append2)
  qed
qed

text \<open>For text without zero bytes the key is the first 72 bytes.\<close>

lemma bcrypt_key_iff:
  assumes "CHR 0x00 \<notin> set p" "CHR 0x00 \<notin> set q" "length p \<le> 72"
  shows "bcrypt_key q = bcrypt_key p \<longrightarrow> take 72 q = p"
  using bcrypt_key_prefix [OF assms(1)] bcrypt_key_prefix [OF assms(2)] assms(3) by auto

section \<open>Histories\<close>

datatype us_call =
    UCreate "pb_UserInfo option" string string
  | UDelete string
  | UGet string
  | UUpdate string "string option" "string option"
  | UPassword "string option" string string string
  | UValidate string string

fun us_exec :: "pg_env \<Rightarrow> bcrypt \<Rightarrow> us_call \<Rightarrow> us_world \<Rightarrow> us_world" where
  "us_exec env bc (UCreate info p q) w = snd (uh_Create env bc info p q w)"
| "us_exec env bc (UDelete i) w = snd (uh_Delete env i w)"
| "us_exec env bc (UGet i) w = snd (uh_Get env i w)"
| "us_exec env bc (UUpdate i n e) w = snd (uh_Update env i n e w)"
| "us_exec env bc (UPassword peer i p q) w = snd (uh_UpdatePassword env bc (Background\<lparr>ctx_peer := peer\<rparr>) i p q w)"
| "us_exec env bc (UValidate e p) w = snd (uh_ValidateCredentials env bc e p w)"

lemma wpE_snd: "wpE m (\<lambda>_ w'. P w') (\<lambda>_ w'. P w') w \<Longrightarrow> P (snd (m w))"
  by (auto simp: wpE_def split: prod.splits sum.splits)

lemma us_read_ok:
  assumes "us_ok env w" "preserves m us_tables" "preserves m us_saved" "preserves m us_uuid"
  shows "us_ok env (snd (m w))"
  using assms by (simp add: preserves_def us_ok_def)

lemma InjectIp_no_tx [simp]: "ExtractTx (InjectIp c) = ExtractTx c"
  by (simp add: InjectIp_def WithValue_def ExtractTx_def ctx_key_defs split: option.splits prod.splits)

lemma peer_no_tx [simp]: "ExtractTx (c\<lparr>ctx_peer := p\<rparr>) = ExtractTx c"
  by (simp add: ExtractTx_def)

lemma us_reads:
  "preserves (us_Get env i) us_tables" "us_frame f \<Longrightarrow> preserves (us_Get env i) f"
  "preserves (us_ValidateCredentials env bc e p) us_tables" "us_frame f \<Longrightarrow> preserves (us_ValidateCredentials env bc e p) f"
  unfolding us_Get_def ur_Get_def us_ValidateCredentials_def ur_GetUserCredentials_def split_def by (intro frame; assumption?)+

lemma us_exec_ok:
  assumes "us_ok env w"
  shows "us_ok env (us_exec env bc call w)"
proof (cases call)
  case (UCreate info p q)
  have "wpE (uh_Create env bc info p q) (\<lambda>_ w'. us_ok env w') (\<lambda>_ w'. us_ok env w') w"
    unfolding uh_Create_def wp by (rule wpE_mono [OF us_Create_wp [OF assms]]) auto
  from wpE_snd [OF this] show ?thesis by (simp add: UCreate)
next
  case (UDelete i)
  have "wpE (uh_Delete env i) (\<lambda>_ w'. us_ok env w') (\<lambda>_ w'. us_ok env w') w"
    unfolding uh_Delete_def by (rule wpE_mono [OF us_Delete_wp [OF assms]]) auto
  from wpE_snd [OF this] show ?thesis by (simp add: UDelete)
next
  case (UUpdate i n e)
  from wpE_snd [OF us_Update_ok [OF assms]] show ?thesis by (simp add: UUpdate uh_Update_def)
next
  case (UPassword peer i p q)
  have "wpE (uh_UpdatePassword env bc (Background\<lparr>ctx_peer := peer\<rparr>) i p q) (\<lambda>_ w'. us_ok env w') (\<lambda>_ w'. us_ok env w') w"
    unfolding uh_UpdatePassword_def
    by (rule wpE_mono [OF us_UpdatePassword_wp [OF assms]]) auto
  from wpE_snd [OF this] show ?thesis by (simp add: UPassword)
next
  case (UGet i)
  have "preserves (uh_Get env i) us_tables" "preserves (uh_Get env i) us_saved" "preserves (uh_Get env i) us_uuid"
    unfolding uh_Get_def by (intro frame us_reads us_frames)+
  from us_read_ok [OF assms this] show ?thesis by (simp add: UGet)
next
  case (UValidate e p)
  have "preserves (uh_ValidateCredentials env bc e p) us_tables" "preserves (uh_ValidateCredentials env bc e p) us_saved"
    "preserves (uh_ValidateCredentials env bc e p) us_uuid"
    unfolding uh_ValidateCredentials_def split_def by (intro frame us_reads us_frames)+
  from us_read_ok [OF assms this] show ?thesis by (simp add: UValidate)
qed

section \<open>Logins\<close>

text \<open>The passwords the tables accept for an email, and the user they identify.\<close>

definition accepts :: "bcrypt \<Rightarrow> user_tables \<Rightarrow> string \<Rightarrow> string \<Rightarrow> string \<Rightarrow> bool" where
  "accepts bc t email password i =
    (\<exists>u \<in> set (users t). u_email u = email \<and> u_id u = i \<and> CompareHashAndPassword bc (u_password u) password = None)"

lemma filter_key_unique:
  assumes "distinct (map f xs)" "x \<in> set xs"
  shows "filter (\<lambda>y. f y = f x) xs = [x]"
  using assms by (induction xs) (auto simp: filter_empty_conv image_iff)

lemma GetUserCredentials_run:
  obtains r w' where "ur_GetUserCredentials env e w = (r, w')" "us_tables w' = us_tables w"
    "\<And>i h. r = Inr (i, h) \<Longrightarrow> \<exists>u \<in> set (users (us_tables w)). u_email u = e \<and> u_id u = i \<and> u_password u = h"
    "us_faults w (now w) = None \<Longrightarrow> text_in env e \<Longrightarrow> e \<in> u_email ` set (users (us_tables w)) \<Longrightarrow> \<exists>x. r = Inr x"
proof (cases "us_faults w (now w)")
  case (Some f)
  obtain e' t where "f = (e', t)" by fastforce
  then have "\<exists>err. ur_GetUserCredentials env e w = (Inl err, w\<lparr>now := Suc (now w)\<rparr>)"
    by (simp add: ur_GetUserCredentials_def us_select_def us_statement_def catchE_def throwE_def Let_def Some)
  with Some that show thesis by fastforce
next
  case no_fault: None
  note defs = ur_GetUserCredentials_def us_select_def us_statement_def catchE_def throwE_def Let_def no_fault text_arg_def
  show thesis
  proof (cases "text_in env e")
    case True
    show thesis
    proof (cases "filter (\<lambda>u. u_email u = e) (users (us_tables w))")
      case Nil
      have "ur_GetUserCredentials env e w = (Inl ErrUserNotFound, w\<lparr>now := Suc (now w)\<rparr>)"
        by (simp add: defs True Nil)
      moreover have "e \<notin> u_email ` set (users (us_tables w))" using Nil by (auto simp: filter_empty_conv)
      ultimately show thesis using that by fastforce
    next
      case (Cons u us)
      have "u \<in> set (users (us_tables w)) \<and> u_email u = e"
        using Cons by (metis (mono_tags, lifting) filter_eq_ConsD in_set_conv_decomp)
      moreover have "ur_GetUserCredentials env e w = (Inr (u_id u, u_password u), w\<lparr>now := Suc (now w)\<rparr>)"
        by (simp add: defs True Cons)
      ultimately show thesis using that by fastforce
    qed
  next
    case False
    have "\<exists>err. ur_GetUserCredentials env e w = (Inl err, w\<lparr>now := Suc (now w)\<rparr>)" by (simp add: defs False)
    with False that show thesis by fastforce
  qed
qed

lemma ValidateCredentials_run:
  assumes "us_ok env w"
  shows "\<exists>v j w'. uh_ValidateCredentials env bc e p w = (Inr (v, j), w') \<and> us_tables w' = us_tables w \<and>
    (v \<longrightarrow> accepts bc (us_tables w) e p j) \<and>
    (us_faults w (now w) = None \<longrightarrow> text_in env e \<longrightarrow> (v \<longleftrightarrow> (\<exists>i. accepts bc (us_tables w) e p i)))"
proof -
  obtain r w' where r: "ur_GetUserCredentials env e w = (r, w')" "us_tables w' = us_tables w"
    "\<And>i h. r = Inr (i, h) \<Longrightarrow> \<exists>u \<in> set (users (us_tables w)). u_email u = e \<and> u_id u = i \<and> u_password u = h"
    "us_faults w (now w) = None \<Longrightarrow> text_in env e \<Longrightarrow> e \<in> u_email ` set (users (us_tables w)) \<Longrightarrow> \<exists>x. r = Inr x"
    using GetUserCredentials_run [of env e w thesis] by blast
  have uniq: "inj_on u_email (set (users (us_tables w)))" using assms by (simp add: us_ok_def user_tables_ok_def distinct_map)
  show ?thesis
  proof (cases r)
    case (Inl err)
    then have "uh_ValidateCredentials env bc e p w = (Inr (False, []), w')"
      unfolding handlers_forward us_ValidateCredentials_def bindE_def tryE_def r(1) by (simp add: returnE_def)
    moreover have "\<not> accepts bc (us_tables w) e p i" if "us_faults w (now w) = None" "text_in env e" for i
      using r(4) that Inl by (auto simp: accepts_def)
    ultimately show ?thesis using r(2) by blast
  next
    case (Inr x)
    obtain i h where x: "x = (i, h)" by fastforce
    with r(3) Inr obtain u where u: "u \<in> set (users (us_tables w))" "u_email u = e" "u_id u = i" "u_password u = h" by blast
    have "v = u" if "v \<in> set (users (us_tables w))" "u_email v = e" for v
      using inj_onD [OF uniq _ that(1) u(1)] that(2) u(2) by simp
    with u have acc: "accepts bc (us_tables w) e p j \<longleftrightarrow> j = i \<and> CompareHashAndPassword bc h p = None" for j
      unfolding accepts_def by metis
    have "uh_ValidateCredentials env bc e p w =
      (Inr (if CompareHashAndPassword bc h p = None then (True, i) else (False, [])), w')"
      unfolding handlers_forward us_ValidateCredentials_def bindE_def tryE_def r(1) prod.case sum.case Inr x
      by (simp add: returnE_def split: option.split)
    then show ?thesis using r(2) acc by (cases "CompareHashAndPassword bc h p") auto
  qed
qed

section \<open>Properties\<close>

text \<open>A database with no users, no faults and room for new ids.\<close>

definition example_users :: us_world where
  "example_users = \<lparr>now = 0, us_tables = \<lparr>users = [], logs = []\<rparr>, us_saved = None, us_faults = (\<lambda>_. None),
     us_uuid = (\<lambda>i. CHR ''u'' # nat_digits i), us_wall = (\<lambda>i. 1000 * int i)\<rparr>"

lemma example_users_ok: "us_ok example_env example_users"
  by (simp add: us_ok_def user_tables_ok_def example_users_def canonical_def example_env_def)

text \<open>
  C21. The typing invariant of the users service: whatever calls are made, and whatever calls of
  the database fail or commit without an answer, no two users have the same id or email, every
  user has a name, a well-formed email and a canonical id, and every entry of the password log
  belongs to a user.
\<close>

theorem users_invariant:
  assumes "us_ok env w"
  shows "us_ok env (fold (us_exec env bc) calls w)"
  using assms by (induction calls arbitrary: w) (simp_all add: us_exec_ok)

theorem users_invariant_witness:
  "us_ok example_env (fold (us_exec example_env example_bcrypt)
     [UCreate (Some \<lparr>pb_Name = ''Ann'', pb_Email = ''ann@example.org''\<rparr>) ''secret'' ''secret'',
      UPassword (Some ''10.0.0.1:80'') ''u0'' ''secret2'' ''secret2'', UDelete ''u0''] example_users)"
  by (rule users_invariant [OF example_users_ok])

text \<open>
  C22. After a user is created with a password, a check of credentials for the email answers the id
  of the new user for exactly the passwords bcrypt cannot tell from the chosen one, the chosen one
  among them; for text without zero bytes a password of which the first 72 bytes differ is refused.
  A fault of the database makes a check answer false, never true.
\<close>

theorem create_then_validate:
  assumes "us_ok env w" "bcrypt_ok bc" "uh_Create env bc (Some \<lparr>pb_Name = n, pb_Email = e\<rparr>) p q w = (Inr i, w1)"
  shows "\<exists>v j w2. uh_ValidateCredentials env bc e p' w1 = (Inr (v, j), w2) \<and>
    (v \<longrightarrow> j = i \<and> bcrypt_key p' = bcrypt_key p) \<and>
    (us_faults w1 (now w1) = None \<longrightarrow> (v \<longleftrightarrow> bcrypt_key p' = bcrypt_key p)) \<and>
    (v \<and> CHR 0x00 \<notin> set p \<and> CHR 0x00 \<notin> set p' \<longrightarrow> take 72 p' = p)"
proof -
  have "wpE (us_Create env bc \<lparr>Name = n, Email = e\<rparr> p q) (\<lambda>i w1. us_ok env w1 \<and> text_in env e \<and>
      e \<notin> u_email ` set (users (us_tables w)) \<and>
      (\<exists>u h. users (us_tables w1) = users (us_tables w) @ [u] \<and> u_id u = i \<and> u_email u = e \<and> u_password u = h \<and>
         GenerateFromPassword bc p (now w) = Inr h)) (\<lambda>_ _. True) w"
    by (rule wpE_mono [OF us_Create_wp [OF assms(1)]]) auto
  moreover have "us_Create env bc \<lparr>Name = n, Email = e\<rparr> p q w = (Inr i, w1)"
    using assms(3) by (simp add: handlers_forward FromProtoToModelUserInfo_def)
  ultimately have "us_ok env w1 \<and> text_in env e \<and> e \<notin> u_email ` set (users (us_tables w)) \<and>
      (\<exists>u h. users (us_tables w1) = users (us_tables w) @ [u] \<and> u_id u = i \<and> u_email u = e \<and> u_password u = h \<and>
         GenerateFromPassword bc p (now w) = Inr h)" by (rule wpE_InrD)
  then obtain u where u: "us_ok env w1" "text_in env e" "e \<notin> u_email ` set (users (us_tables w))"
      "users (us_tables w1) = users (us_tables w) @ [u]" "u_id u = i" "u_email u = e"
      "GenerateFromPassword bc p (now w) = Inr (u_password u)"
    by blast
  have len: "length p \<le> 72"
  proof (rule ccontr)
    assume "\<not> length p \<le> 72"
    then have "72 < length p" by simp
    with assms(2) have "GenerateFromPassword bc p (now w) = Inl (ErrorString ''bcrypt: password length exceeds 72 bytes'')"
      unfolding bcrypt_ok_def by blast
    with u(7) show False by simp
  qed
  have acc: "accepts bc (us_tables w1) e p' j \<longleftrightarrow> j = i \<and> bcrypt_key p' = bcrypt_key p" for j
  proof -
    have "CompareHashAndPassword bc (u_password u) p' = None \<longleftrightarrow> bcrypt_key p' = bcrypt_key p"
      using assms(2) u(7) by (simp add: bcrypt_ok_def)
    moreover have "v = u" if "v \<in> set (users (us_tables w1))" "u_email v = e" for v
      using that u(3,4) by auto
    moreover have "u \<in> set (users (us_tables w1))" by (simp add: u(4))
    ultimately show ?thesis using u(5,6) unfolding accepts_def by metis
  qed
  from ValidateCredentials_run [OF u(1), of bc e p'] obtain v j w2 where
    "uh_ValidateCredentials env bc e p' w1 = (Inr (v, j), w2)" "v \<longrightarrow> accepts bc (us_tables w1) e p' j"
    "us_faults w1 (now w1) = None \<longrightarrow> text_in env e \<longrightarrow> (v \<longleftrightarrow> (\<exists>i. accepts bc (us_tables w1) e p' i))"
    by (elim exE conjE)
  with u(2) acc bcrypt_key_iff [OF _ _ len] show ?thesis by (intro exI [of _ v] exI [of _ j] exI [of _ w2]) auto
qed

definition example_users1 :: us_world where
  "example_users1 = example_users\<lparr>now := 1, us_tables := \<lparr>users = [\<lparr>u_id = ''u0'', u_name = ''Ann'', u_email = ''ann@example.org'',
     u_password = bcrypt_key ''secret'', u_created = 0, u_updated = 0\<rparr>], logs = []\<rparr>\<rparr>"

lemma example_create_user:
  "uh_Create example_env example_bcrypt (Some \<lparr>pb_Name = ''Ann'', pb_Email = ''ann@example.org''\<rparr>) ''secret'' ''secret'' example_users =
     (Inr ''u0'', example_users1)"
proof -
  have "IsValidEmail ''ann@example.org''" by code_simp
  moreover have "nat_digits 0 = ''0''" by code_simp
  ultimately show ?thesis
    by (simp add: handlers_forward us_Create_def FromProtoToModelUserInfo_def Validate_def conditions validateAndHashPassword_def
      ValidatePassword_def hashPassword_def ur_Create_def us_statement_def insert_user_def FromModelToRepoUserInfo_def
      example_users1_def example_users_def example_env_def example_bcrypt_def text_arg_def opE_defs Let_def)
qed

lemma example_users1_ok: "us_ok example_env example_users1"
  using us_exec_ok [OF example_users_ok, of example_bcrypt "UCreate (Some \<lparr>pb_Name = ''Ann'', pb_Email = ''ann@example.org''\<rparr>) ''secret'' ''secret''"]
  by (simp add: example_create_user)

theorem create_then_validate_witness:
  "fst (uh_ValidateCredentials example_env example_bcrypt ''ann@example.org'' ''secret'' example_users1) = Inr (True, ''u0'') \<and>
   (\<exists>j. fst (uh_ValidateCredentials example_env example_bcrypt ''ann@example.org'' ''secreT'' example_users1) = Inr (False, j))"
proof -
  note check = create_then_validate [OF example_users_ok example_bcrypt_ok example_create_user]
  have calm: "us_faults example_users1 t = None" for t by (simp add: example_users1_def example_users_def)
  have "bcrypt_key ''secreT'' \<noteq> bcrypt_key ''secret''" by code_simp
  with check [of "''secret''"] check [of "''secreT''"] calm show ?thesis by auto
qed

text \<open>
  C23. A password change is atomic with its entry in the log, under any faults: when it is
  acknowledged, the user accepts exactly the new password, every other login is as before, and the
  log has one more entry with the user's id and the caller's address. When it is refused, nothing
  changed, or all of it did because the server committed without an answer.
\<close>

definition password_replaced :: "bcrypt \<Rightarrow> string \<Rightarrow> string \<Rightarrow> string \<Rightarrow> user_tables \<Rightarrow> user_tables \<Rightarrow> bool" where
  "password_replaced bc j p ip t t' =
    ((\<forall>e p' i. accepts bc t' e p' i \<longleftrightarrow>
       (if i = j then (\<exists>u \<in> set (users t). u_id u = j \<and> u_email u = e) \<and> bcrypt_key p' = bcrypt_key p else accepts bc t e p' i)) \<and>
     (\<exists>at. logs t' = logs t @ [\<lparr>l_user_id = j, l_changed_at = at, l_ip = ip\<rparr>]))"

lemma password_changed_replaced:
  assumes "password_changed j h ip t t'" "bcrypt_ok bc" "GenerateFromPassword bc p s = Inr h"
  shows "password_replaced bc j p ip t t'"
proof -
  obtain upd where us: "users t' = map (\<lambda>u. if u_id u = j then u\<lparr>u_password := h, u_updated := upd\<rparr> else u) (users t)"
    and log: "\<exists>at. logs t' = logs t @ [\<lparr>l_user_id = j, l_changed_at = at, l_ip = ip\<rparr>]"
    using assms(1) by (auto simp: password_changed_def)
  have key: "CompareHashAndPassword bc h p' = None \<longleftrightarrow> bcrypt_key p' = bcrypt_key p" for p'
    using assms(2,3) by (simp add: bcrypt_ok_def)
  have acc: "accepts bc t' e p' i \<longleftrightarrow> (\<exists>u \<in> set (users t). u_email u = e \<and> u_id u = i \<and>
      CompareHashAndPassword bc (if u_id u = j then h else u_password u) p' = None)" for e p' i
    unfolding accepts_def us set_map bex_simps(7) by (rule bex_cong) (simp_all split: if_split)
  have "accepts bc t' e p' i \<longleftrightarrow>
    (if i = j then (\<exists>u \<in> set (users t). u_id u = j \<and> u_email u = e) \<and> bcrypt_key p' = bcrypt_key p else accepts bc t e p' i)" for e p' i
  proof (cases "i = j")
    case True
    then show ?thesis unfolding acc key [symmetric] by auto
  next
    case False
    then show ?thesis unfolding acc by (auto simp: accepts_def)
  qed
  with log show ?thesis by (simp add: password_replaced_def)
qed

theorem UpdatePassword_atomic:
  assumes "us_ok env w" "bcrypt_ok bc" "ExtractTx c = None" "uh_UpdatePassword env bc c i p q w = (r, w')"
  shows "(us_tables w' = us_tables w \<and> r \<noteq> Inr ()) \<or>
    (\<exists>j. uuid_in env i = Some j \<and> password_replaced bc j p (fst (ExtractIP (InjectIp c))) (us_tables w) (us_tables w'))"
proof -
  have no_tx: "ExtractTx (InjectIp c) = None"
    using assms(3) by simp
  have "wpE (us_UpdatePassword env bc (InjectIp c) i p q)
    (\<lambda>x w'. \<exists>j. uuid_in env i = Some j \<and> password_replaced bc j p (fst (ExtractIP (InjectIp c))) (us_tables w) (us_tables w'))
    (\<lambda>e w'. us_tables w' = us_tables w \<or>
       (\<exists>j. uuid_in env i = Some j \<and> password_replaced bc j p (fst (ExtractIP (InjectIp c))) (us_tables w) (us_tables w'))) w"
    by (rule wpE_mono [OF us_UpdatePassword_wp [OF assms(1) no_tx]]) (auto dest: password_changed_replaced [OF _ assms(2)])
  with assms(4) show ?thesis
    unfolding uh_UpdatePassword_def by (auto simp: wpE_def split: sum.splits)
qed

theorem UpdatePassword_atomic_witness:
  "\<exists>w'. uh_UpdatePassword example_env example_bcrypt (Background\<lparr>ctx_peer := Some ''10.0.0.1:80''\<rparr>) ''u0'' ''secret2'' ''secret2'' example_users1 = (Inr (), w') \<and>
     password_replaced example_bcrypt ''u0'' ''secret2'' ''10.0.0.1'' (us_tables example_users1) (us_tables w')"
proof -
  let ?c = "Background\<lparr>ctx_peer := Some ''10.0.0.1:80''\<rparr>"
  have ip: "ExtractIP (InjectIp ?c) = (''10.0.0.1'', True)" by code_simp
  obtain r w' where run: "uh_UpdatePassword example_env example_bcrypt ?c ''u0'' ''secret2'' ''secret2'' example_users1 = (r, w')"
    by fastforce
  have "ExtractTx ?c = None" by simp
  note atomic = UpdatePassword_atomic [OF example_users1_ok example_bcrypt_ok this run]
  have no_tx: "ExtractTx (InjectIp ?c) = None" by simp
  have "r = Inr ()"
    using run no_tx ip
    by (simp add: uh_UpdatePassword_def us_UpdatePassword_def validateAndHashPassword_def ValidatePassword_def Validate_def conditions
        hashPassword_def ReadCommitted_def transaction_def tx_deferred_def us_transactor_def us_Begin_def us_Commit_def
        updatePasswordTx_def ur_UpdatePassword_def ur_LogPassword_def us_statement_def update_users_def insert_log_def Extract_Inject
        example_users1_def example_users_def example_env_def example_bcrypt_def text_arg_def uuid_arg_def opE_defs Let_def)
  with atomic run ip show ?thesis by (auto simp: example_env_def)
qed

text \<open>
  C24. How a refused user creation is answered: bad input is InvalidArgument and changes nothing, a
  taken email is AlreadyExists, and a password of more than 72 bytes, which no check of the input
  looks for, is reported as an internal error of the service.
\<close>

theorem Create_refusals:
  assumes "bcrypt_ok bc"
  shows "case ErrorCodesUnaryInterceptor (uh_Create env bc (Some \<lparr>pb_Name = n, pb_Email = e\<rparr>) p q) w of (err, res, w') \<Rightarrow>
    (if n = [] \<or> \<not> IsValidEmail e \<or> length p < 5 \<or> p \<noteq> q then (\<exists>m. err = Some (StatusError G_InvalidArgument m)) \<and> w' = w
     else if 72 < length p then err = Some (StatusError G_Internal ''internal error'') \<and> w' = w
     else \<forall>h. GenerateFromPassword bc p (now w) = Inr h \<and> us_faults w (now w) = None \<and>
         text_in env n \<and> text_in env e \<and> text_in env h \<and> e \<in> u_email ` set (users (us_tables w)) \<longrightarrow>
         err = Some (StatusError G_AlreadyExists ''email already exists'') \<and> us_tables w' = us_tables w)"
proof -
  have val: "IsValidEmail [] = False" by code_simp
  have bad: "\<exists>ms. Validate cs = Some (ValidationErrors ms)" if "Validate cs \<noteq> None" "\<And>c. Some c \<in> set cs \<Longrightarrow> IsValidationError c" for cs
    using that validate_loop_all_validation [of cs "[]"] by (auto simp: Validate_def split: if_splits)
  let ?cs = "[ValidateNotEmptyString n ErrNameRequired, ValidateNotEmptyString e ErrEmailRequired, ValidateEmailFromat e]"
  let ?ps = "[ValidateNotEmptyString p ErrPasswordRequired, ValidatePasswordTooShort p, ValidatePasswordMismatch p q]"
  have kind: "IsValidationError c" if "Some c \<in> set ?cs \<or> Some c \<in> set ?ps" for c
    using that by (auto simp: conditions user_errors IsValidationError_def split: if_splits)
  note run = ErrorCodesUnaryInterceptor_def handlers_forward us_Create_def FromProtoToModelUserInfo_def validateAndHashPassword_def
    ValidatePassword_def hashPassword_def opE_defs handleError_def IsCommonError_def IsValidationError_def GetCommonError_def status_Err_def
  show ?thesis
  proof (cases "Validate ?cs")
    case (Some x)
    moreover obtain ms where "x = ValidationErrors ms" using bad [of ?cs] kind Some by auto
    moreover have "n = [] \<or> \<not> IsValidEmail e" using Some validated_name_email [of n e] val by auto
    ultimately show ?thesis by (auto simp: run)
  next
    case name: None
    then have ne: "n \<noteq> []" "IsValidEmail e" using validated_name_email [of n e] by auto
    show ?thesis
    proof (cases "Validate ?ps")
      case (Some x)
      moreover obtain ms where "x = ValidationErrors ms" using bad [of ?ps] kind Some by auto
      moreover have "length p < 5 \<or> p \<noteq> q" using Some ValidatePassword_None [of p q] by (auto simp: ValidatePassword_def)
      ultimately show ?thesis using name by (auto simp: run)
    next
      case None
      then have pq: "5 \<le> length p" "p = q" using ValidatePassword_None [of p q] by (auto simp: ValidatePassword_def)
      show ?thesis
      proof (cases "72 < length p")
        case True
        then have "GenerateFromPassword bc p (now w) = Inl (ErrorString ''bcrypt: password length exceeds 72 bytes'')"
          using assms by (simp add: bcrypt_ok_def)
        then show ?thesis using name None ne pq True by (simp add: run)
      next
        case False
        have "\<exists>res. ErrorCodesUnaryInterceptor (uh_Create env bc (Some \<lparr>pb_Name = n, pb_Email = e\<rparr>) p q) w =
            (Some (StatusError G_AlreadyExists ''email already exists''), res, w\<lparr>now := Suc (now w)\<rparr>)"
          if "GenerateFromPassword bc p (now w) = Inr h" "us_faults w (now w) = None" "text_in env n" "text_in env e" "text_in env h"
            "e \<in> u_email ` set (users (us_tables w))" for h
          using that name None
          by (simp add: run ur_Create_def us_statement_def insert_user_def FromModelToRepoUserInfo_def text_arg_def user_errors
              toGRPCCode_def Code_defs Let_def)
        then show ?thesis using ne pq False by (auto split: prod.splits)
      qed
    qed
  qed
qed

theorem Create_refusals_witness:
  "fst (ErrorCodesUnaryInterceptor (uh_Create example_env example_bcrypt (Some \<lparr>pb_Name = ''Ann'', pb_Email = ''ann@example.org''\<rparr>)
      (replicate 80 (CHR ''x'')) (replicate 80 (CHR ''x''))) example_users) = Some (StatusError G_Internal ''internal error'')"
proof -
  have "IsValidEmail ''ann@example.org''" by code_simp
  then show ?thesis
    using Create_refusals [OF example_bcrypt_ok, where env = example_env and n = "''Ann''" and e = "''ann@example.org''" and
        p = "replicate 80 (CHR ''x'')" and q = "replicate 80 (CHR ''x'')" and w = example_users]
    by (simp split: prod.splits)
qed

text \<open>
  C25. The email pattern, read off: a nonempty local part, an at sign, a nonempty domain, a dot and
  at least two letters, over the listed characters; there is exactly one at sign.
\<close>

theorem IsValidEmail_iff:
  "IsValidEmail email \<longleftrightarrow>
    (\<exists>l d t. email = l @ ''@'' @ d @ ''.'' @ t \<and> l \<noteq> [] \<and> list_all local_char l \<and> d \<noteq> [] \<and> list_all domain_char d \<and>
       2 \<le> length t \<and> list_all letter t \<and> count_list email (CHR ''@'') = 1)"
proof -
  have at: "\<not> local_char (CHR ''@'')" "\<not> domain_char (CHR ''@'')" "\<not> letter (CHR ''@'')" by code_simp+
  have "count_list l (CHR ''@'') = 0" if "list_all P l" "\<not> P (CHR ''@'')" for P l
    using that by (induction l) auto
  with at show ?thesis unfolding IsValidEmail_parts by fastforce
qed

end
