(* ===== verification/Tokens.thy ===== *)
theory Tokens
  imports Contextx
begin

text \<open>
  The tokens of go-kit, \<open>shared/pkg/go-kit/tokens\<close> and \<open>tokens/jwt\<close>.

  The package golang-jwt is a parameter: \<open>SignedString\<close> signs claims with HS256, and
  \<open>ParseWithClaims\<close> parses a token at a time, asking a function of the signing method for the
  key. Times and durations are in nanoseconds. The claims are parsed into the type the caller
  passes, so the type assertion on them does not fail. Logs are left out.
\<close>

section \<open>Claims\<close>

record UserClaims =
  ExpiresAt :: "int option"
  IssuedAt :: "int option"
  NotBefore :: "int option"
  c_UserId :: string
  c_Email :: string
  TokenType :: string

record auth_UserInfo =
  UserId :: string
  UserEmail :: string

datatype signing_method = SigningMethodHMAC string | OtherMethod string

record jwt_token =
  Valid :: bool
  Claims :: UserClaims

record jwt_lib =
  SignedString :: "UserClaims \<Rightarrow> bytes \<Rightarrow> go_error + string"
  ParseWithClaims :: "string \<Rightarrow> (signing_method \<Rightarrow> go_error + bytes) \<Rightarrow> int \<Rightarrow> go_error + jwt_token"

definition AccessToken :: string where "AccessToken = ''access''"
definition RefreshToken :: string where "RefreshToken = ''refresh''"

record jwt_config =
  RefreshSecret :: bytes
  AccessSecret :: bytes
  RefreshTTL :: int
  AccessTTL :: int

text \<open>\<open>jwt.NewNumericDate\<close> truncates to seconds.\<close>

definition NewNumericDate :: "int \<Rightarrow> int" where
  "NewNumericDate t = t - t mod 1000000000"

lemma NewNumericDate_bounds: "NewNumericDate t \<le> t \<and> t < NewNumericDate t + 1000000000"
  by (simp add: NewNumericDate_def)

section \<open>The generator\<close>

definition generateToken ::
  "jwt_lib \<Rightarrow> auth_UserInfo \<Rightarrow> int \<Rightarrow> string \<Rightarrow> bytes \<Rightarrow> int \<Rightarrow> go_error + string" where
  "generateToken lib info duration tokenType secretKey t =
    (if length secretKey = 0 then Inl (ErrorString (tokenType @ '' secret key is empty''))
     else
       (let claims = \<lparr>ExpiresAt = Some (NewNumericDate (t + duration)), IssuedAt = Some (NewNumericDate t),
              NotBefore = Some (NewNumericDate t), c_UserId = UserId info, c_Email = UserEmail info,
              TokenType = tokenType\<rparr> in
        case SignedString lib claims secretKey of
          Inl err \<Rightarrow> Inl (WrapError (''failed to sign '' @ tokenType @ '' token'') err)
        | Inr signedToken \<Rightarrow> Inr signedToken))"

definition GenerateAccessToken :: "jwt_lib \<Rightarrow> jwt_config \<Rightarrow> auth_UserInfo \<Rightarrow> int \<Rightarrow> go_error + string" where
  "GenerateAccessToken lib cfg info t = generateToken lib info (AccessTTL cfg) AccessToken (AccessSecret cfg) t"

definition GenerateRefreshToken :: "jwt_lib \<Rightarrow> jwt_config \<Rightarrow> auth_UserInfo \<Rightarrow> int \<Rightarrow> go_error + string" where
  "GenerateRefreshToken lib cfg info t = generateToken lib info (RefreshTTL cfg) RefreshToken (RefreshSecret cfg) t"

section \<open>The verifier\<close>

definition ErrTokenExpired :: go_error where
  "ErrTokenExpired = ErrorString ''token is expired''"
definition ErrTokenNotValidYet :: go_error where
  "ErrTokenNotValidYet = ErrorString ''token is not valid yet''"
definition ErrTokenMalformed :: go_error where
  "ErrTokenMalformed = ErrorString ''token is malformed''"

text \<open>The function handed to the parser: only HMAC methods get the key.\<close>

definition hmac_key :: "bytes \<Rightarrow> signing_method \<Rightarrow> go_error + bytes" where
  "hmac_key secretKey method =
    (case method of
       SigningMethodHMAC _ \<Rightarrow> Inr secretKey
     | OtherMethod alg \<Rightarrow> Inl (ErrorString (''unexpected signing method: '' @ alg)))"

text \<open>\<open>t\<close> is the time of the parse and \<open>t2\<close> that of the test after it.\<close>

definition verifyToken ::
  "jwt_lib \<Rightarrow> string \<Rightarrow> bytes \<Rightarrow> string \<Rightarrow> int \<Rightarrow> int \<Rightarrow> go_error + UserClaims" where
  "verifyToken lib tokenStr secretKey expectedType t t2 =
    (if tokenStr = [] then Inl (ErrorString ''token string is empty'')
     else
      (case ParseWithClaims lib tokenStr (hmac_key secretKey) t of
         Inl err \<Rightarrow>
           if err = ErrTokenExpired then Inl (ErrorString ''token has expired'')
           else if err = ErrTokenNotValidYet then Inl (ErrorString ''token is not valid yet'')
           else if err = ErrTokenMalformed then Inl (ErrorString ''token is malformed'')
           else Inl (WrapError ''invalid token'' err)
       | Inr token \<Rightarrow>
           if \<not> Valid token then Inl (ErrorString ''token is not valid'')
           else
             (let claims = Claims token in
              if TokenType claims \<noteq> expectedType
              then Inl (ErrorString (''invalid token type: expected '' @ expectedType @ '', got '' @ TokenType claims))
              else if (case ExpiresAt claims of Some e \<Rightarrow> t2 > e | None \<Rightarrow> False)
              then Inl (ErrorString ''token has expired'')
              else Inr claims)))"

definition VerifyAccessToken :: "jwt_lib \<Rightarrow> jwt_config \<Rightarrow> string \<Rightarrow> int \<Rightarrow> int \<Rightarrow> go_error + UserClaims" where
  "VerifyAccessToken lib cfg tokenStr t t2 =
    (case verifyToken lib tokenStr (AccessSecret cfg) AccessToken t t2 of
       Inl err \<Rightarrow> Inl (WrapError ''access token verification failed'' err)
     | Inr claims \<Rightarrow> Inr claims)"

definition VerifyRefreshToken :: "jwt_lib \<Rightarrow> jwt_config \<Rightarrow> string \<Rightarrow> int \<Rightarrow> int \<Rightarrow> go_error + UserClaims" where
  "VerifyRefreshToken lib cfg tokenStr t t2 =
    (case verifyToken lib tokenStr (RefreshSecret cfg) RefreshToken t t2 of
       Inl err \<Rightarrow> Inl (WrapError ''refresh token verification failed'' err)
     | Inr claims \<Rightarrow> Inr claims)"

section \<open>What the library promises\<close>

text \<open>The validator of golang-jwt: before the expiry, not before the start.\<close>

definition claims_valid :: "UserClaims \<Rightarrow> int \<Rightarrow> bool" where
  "claims_valid c t = ((case ExpiresAt c of Some e \<Rightarrow> t < e | None \<Rightarrow> True) \<and>
     (case NotBefore c of Some n \<Rightarrow> n \<le> t | None \<Rightarrow> True))"

text \<open>
  A signed token is not empty and carries its claims; it parses with its own key while the claims
  are valid, and with no other key (signatures are taken to be ideal). A parse that succeeds has
  checked the claims and marked the token valid.
\<close>

definition jwt_ok :: "jwt_lib \<Rightarrow> bool" where
  "jwt_ok lib =
    ((\<forall>c k tok kf t. SignedString lib c k = Inr tok \<longrightarrow> tok \<noteq> [] \<and>
        (kf (SigningMethodHMAC ''HS256'') = Inr k \<and> claims_valid c t \<longrightarrow>
           ParseWithClaims lib tok kf t = Inr \<lparr>Valid = True, Claims = c\<rparr>) \<and>
        (\<forall>tk. ParseWithClaims lib tok kf t = Inr tk \<longrightarrow> Claims tk = c \<and> kf (SigningMethodHMAC ''HS256'') = Inr k)) \<and>
     (\<forall>tok kf t tk. ParseWithClaims lib tok kf t = Inr tk \<longrightarrow> Valid tk \<and> claims_valid (Claims tk) t))"

lemma jwt_okD:
  assumes "jwt_ok lib" "SignedString lib c k = Inr tok"
  shows "tok \<noteq> []" "claims_valid c t \<Longrightarrow> ParseWithClaims lib tok (hmac_key k) t = Inr \<lparr>Valid = True, Claims = c\<rparr>"
    "ParseWithClaims lib tok (hmac_key k') t = Inr tk \<Longrightarrow> Claims tk = c \<and> k' = k"
proof -
  note laws = assms(1) [unfolded jwt_ok_def, THEN conjunct1, rule_format, OF assms(2)]
  show "tok \<noteq> []" using laws by blast
  show "ParseWithClaims lib tok (hmac_key k) t = Inr \<lparr>Valid = True, Claims = c\<rparr>" if "claims_valid c t"
    using laws [of "hmac_key k" t] that by (simp add: hmac_key_def)
  show "Claims tk = c \<and> k' = k" if "ParseWithClaims lib tok (hmac_key k') t = Inr tk"
    using laws [of "hmac_key k'" t] that by (simp add: hmac_key_def)
qed

lemma jwt_ok_parse:
  "jwt_ok lib \<Longrightarrow> ParseWithClaims lib tok kf t = Inr tk \<Longrightarrow> Valid tk \<and> claims_valid (Claims tk) t"
  unfolding jwt_ok_def by blast

section \<open>Issued tokens\<close>

text \<open>\<open>issued\<close>: the token was made for this user, type, key and time span.\<close>

definition issued :: "jwt_lib \<Rightarrow> string \<Rightarrow> UserClaims \<Rightarrow> bytes \<Rightarrow> bool" where
  "issued lib tok c k = (k \<noteq> [] \<and> SignedString lib c k = Inr tok)"

lemma generateToken_issued:
  assumes "generateToken lib info d ty k t = Inr tok"
  shows "issued lib tok \<lparr>ExpiresAt = Some (NewNumericDate (t + d)), IssuedAt = Some (NewNumericDate t),
     NotBefore = Some (NewNumericDate t), c_UserId = UserId info, c_Email = UserEmail info, TokenType = ty\<rparr> k"
  using assms by (auto simp: generateToken_def issued_def Let_def split: if_splits sum.splits)

text \<open>An issued token is accepted exactly with its key, as its type, while it is valid.\<close>

lemma verifyToken_issued:
  assumes "jwt_ok lib" "issued lib tok c k"
  shows "verifyToken lib tok k' ty t t2 = Inr c' \<longleftrightarrow>
    c' = c \<and> k' = k \<and> ty = TokenType c \<and> claims_valid c t \<and> (case ExpiresAt c of Some e \<Rightarrow> t2 \<le> e | None \<Rightarrow> True)"
proof -
  have sig: "SignedString lib c k = Inr tok" using assms(2) by (simp add: issued_def)
  note laws = jwt_okD [OF assms(1) sig]
  show ?thesis
  proof (cases "ParseWithClaims lib tok (hmac_key k') t")
    case (Inl err)
    then have "\<not> (k' = k \<and> claims_valid c t)" using laws(2) [of t] by auto
    with Inl laws(1) show ?thesis by (auto simp: verifyToken_def)
  next
    case (Inr tk)
    with laws(3) [OF Inr] jwt_ok_parse [OF assms(1) Inr] laws(1) show ?thesis
      by (auto simp: verifyToken_def Let_def split: option.splits)
  qed
qed

text \<open>Whatever is accepted has the expected type and has not expired.\<close>

lemma verifyToken_sound:
  assumes "jwt_ok lib" "verifyToken lib tok k ty t t2 = Inr c"
  shows "TokenType c = ty \<and> claims_valid c t \<and> tok \<noteq> []"
  using assms jwt_ok_parse [OF assms(1)]
  by (auto simp: verifyToken_def Let_def split: if_splits sum.splits option.splits)

end
