(* ===== verification/Auth_Redis.thy ===== *)
theory Auth_Redis
  imports Tokens
begin

text \<open>
  The auth service's Redis client and login counter,
  \<open>services/auth/internal/client/cache/redis\<close> and \<open>internal/repository/auth\<close>.

  Redis is not part of the repository: its commands are modelled from their documentation on a
  map from keys to values with an optional expiry. Taking a connection and every command each
  take one tick and fail as \<open>redis_faults\<close> says; a command that fails may have been applied or
  not. The clock is in nanoseconds. Returning a connection to the pool has no effect on results.
\<close>

section \<open>Redis\<close>

datatype redis_value = RStr bytes | RHash "(bytes \<times> bytes) list"

datatype reply = RNil | RInt int | RBulk bytes | RValues "bytes list"

record redis_entry =
  re_value :: redis_value
  re_expires :: "int option"

type_synonym redis_db = "string \<Rightarrow> redis_entry option"

record au_world = clocked +
  redis :: redis_db
  redis_faults :: "nat \<Rightarrow> (go_error \<times> bool) option"
  clock :: "nat \<Rightarrow> int"

type_synonym ('x, 'a) auop = "('x au_world_scheme, go_error, 'a) op"

text \<open>The entry of a key at a time: expired keys are gone.\<close>

definition live :: "redis_db \<Rightarrow> int \<Rightarrow> string \<Rightarrow> redis_entry option" where
  "live db t k = (case db k of
     Some r \<Rightarrow> (case re_expires r of Some e \<Rightarrow> if e \<le> t then None else Some r | None \<Rightarrow> Some r)
   | None \<Rightarrow> None)"

text \<open>\<open>strconv.ParseInt(s, 10, 64)\<close> of the numerals Redis prints.\<close>

definition parse_int64 :: "bytes \<Rightarrow> int option" where
  "parse_int64 s =
    (let (neg, ds) = (if take 1 s = ''-'' then (True, drop 1 s) else (False, s));
         n = (if neg then - int (digits_value ds) else int (digits_value ds)) in
     if ds = [] \<or> \<not> list_all (\<lambda>c. (48::nat) \<le> of_char c \<and> (of_char c :: nat) \<le> 57) ds \<or> n < - (2 ^ 63) \<or> maxInt64 < n
     then None else Some n)"

definition ErrWrongType :: go_error where
  "ErrWrongType = ErrorString ''WRONGTYPE Operation against a key holding the wrong kind of value''"

text \<open>The commands of the client, at a time: the reply and the new contents, or an error.\<close>

definition cmd_GET :: "string \<Rightarrow> int \<Rightarrow> redis_db \<Rightarrow> go_error + (reply \<times> redis_db)" where
  "cmd_GET k t db = (case live db t k of
     None \<Rightarrow> Inr (RNil, db)
   | Some r \<Rightarrow> (case re_value r of RStr s \<Rightarrow> Inr (RBulk s, db) | RHash _ \<Rightarrow> Inl ErrWrongType))"

definition cmd_SET :: "string \<Rightarrow> bytes \<Rightarrow> int \<Rightarrow> redis_db \<Rightarrow> go_error + (reply \<times> redis_db)" where
  "cmd_SET k v t db = Inr (RBulk ''OK'', db(k \<mapsto> \<lparr>re_value = RStr v, re_expires = None\<rparr>))"

definition cmd_HSET :: "string \<Rightarrow> (bytes \<times> bytes) list \<Rightarrow> int \<Rightarrow> redis_db \<Rightarrow> go_error + (reply \<times> redis_db)" where
  "cmd_HSET k fs t db = (case live db t k of
     None \<Rightarrow> Inr (RInt (int (length fs)), db(k \<mapsto> \<lparr>re_value = RHash fs, re_expires = None\<rparr>))
   | Some r \<Rightarrow> (case re_value r of RStr _ \<Rightarrow> Inl ErrWrongType
      | RHash gs \<Rightarrow> Inr (RInt (int (length (filter (\<lambda>(f, _). f \<notin> fst ` set gs) fs))),
          db(k \<mapsto> r\<lparr>re_value := RHash (fs @ filter (\<lambda>(f, _). f \<notin> fst ` set fs) gs)\<rparr>))))"

definition cmd_HGETALL :: "string \<Rightarrow> int \<Rightarrow> redis_db \<Rightarrow> go_error + (reply \<times> redis_db)" where
  "cmd_HGETALL k t db = (case live db t k of
     None \<Rightarrow> Inr (RValues [], db)
   | Some r \<Rightarrow> (case re_value r of RStr _ \<Rightarrow> Inl ErrWrongType
      | RHash fs \<Rightarrow> Inr (RValues (concat (map (\<lambda>(f, v). [f, v]) fs)), db)))"

definition cmd_INCR :: "string \<Rightarrow> int \<Rightarrow> redis_db \<Rightarrow> go_error + (reply \<times> redis_db)" where
  "cmd_INCR k t db = (case live db t k of
     None \<Rightarrow> Inr (RInt 1, db(k \<mapsto> \<lparr>re_value = RStr (itoa 1), re_expires = None\<rparr>))
   | Some r \<Rightarrow> (case re_value r of RHash _ \<Rightarrow> Inl ErrWrongType
      | RStr s \<Rightarrow> (case parse_int64 s of
          None \<Rightarrow> Inl (ErrorString ''ERR value is not an integer or out of range'')
        | Some n \<Rightarrow> if n = maxInt64 then Inl (ErrorString ''ERR increment or decrement would overflow'')
            else Inr (RInt (n + 1), db(k \<mapsto> r\<lparr>re_value := RStr (itoa (n + 1))\<rparr>)))))"

definition cmd_EXPIRE :: "string \<Rightarrow> int \<Rightarrow> int \<Rightarrow> redis_db \<Rightarrow> go_error + (reply \<times> redis_db)" where
  "cmd_EXPIRE k secs t db = (case live db t k of
     None \<Rightarrow> Inr (RInt 0, db)
   | Some r \<Rightarrow> Inr (RInt 1, if secs \<le> 0 then db(k := None) else db(k \<mapsto> r\<lparr>re_expires := Some (t + secs * 1000000000)\<rparr>)))"

definition cmd_DEL :: "string \<Rightarrow> int \<Rightarrow> redis_db \<Rightarrow> go_error + (reply \<times> redis_db)" where
  "cmd_DEL k t db = Inr (RInt (if live db t k = None then 0 else 1), db(k := None))"

definition cmd_PING :: "int \<Rightarrow> redis_db \<Rightarrow> go_error + (reply \<times> redis_db)" where
  "cmd_PING t db = Inr (RBulk ''PONG'', db)"

text \<open>\<open>conn.Do\<close>.\<close>

definition conn_Do :: "(int \<Rightarrow> redis_db \<Rightarrow> go_error + (reply \<times> redis_db)) \<Rightarrow> ('x, reply) auop" where
  "conn_Do cmd = (\<lambda>w. let w' = w\<lparr>now := Suc (now w)\<rparr>; r = cmd (clock w (now w)) (redis w) in
     case redis_faults w (now w) of
       Some (e, applied) \<Rightarrow>
         (Inl e, (case r of Inr (_, db) \<Rightarrow> if applied then w'\<lparr>redis := db\<rparr> else w' | Inl _ \<Rightarrow> w'))
     | None \<Rightarrow> (case r of Inl e \<Rightarrow> (Inl e, w') | Inr (x, db) \<Rightarrow> (Inr x, w'\<lparr>redis := db\<rparr>)))"

section \<open>The client\<close>

definition getConnect :: "('x, unit) auop" where
  "getConnect = (\<lambda>w. let w' = w\<lparr>now := Suc (now w)\<rparr> in
     case redis_faults w (now w) of Some (e, _) \<Rightarrow> (Inl e, w') | None \<Rightarrow> (Inr (), w'))"

definition redis_execute :: "('x, 'a) auop \<Rightarrow> ('x, 'a) auop" where
  "redis_execute handler = bindE getConnect (\<lambda>_. handler)"

definition redis_HashSet :: "string \<Rightarrow> (bytes \<times> bytes) list \<Rightarrow> ('x, unit) auop" where
  "redis_HashSet key values = redis_execute (bindE (conn_Do (cmd_HSET key values)) (\<lambda>_. returnE ()))"

definition redis_Set :: "string \<Rightarrow> bytes \<Rightarrow> ('x, unit) auop" where
  "redis_Set key value = redis_execute (bindE (conn_Do (cmd_SET key value)) (\<lambda>_. returnE ()))"

text \<open>\<open>redis.Values\<close> of a reply.\<close>

definition reply_Values :: "reply \<Rightarrow> go_error + bytes list" where
  "reply_Values r = (case r of RValues vs \<Rightarrow> Inr vs | RNil \<Rightarrow> Inl (ErrorString ''redigo: nil returned'')
     | _ \<Rightarrow> Inl (ErrorString ''redigo: unexpected type for Values''))"

definition redis_HGetAll :: "string \<Rightarrow> ('x, bytes list) auop" where
  "redis_HGetAll key = redis_execute (bindE (conn_Do (cmd_HGETALL key)) (\<lambda>r. liftE (reply_Values r)))"

definition redis_Get :: "string \<Rightarrow> ('x, reply) auop" where
  "redis_Get key = redis_execute (conn_Do (cmd_GET key))"

text \<open>\<open>int(expiration.Seconds())\<close> drops the fraction of a second.\<close>

definition whole_seconds :: "int \<Rightarrow> int" where
  "whole_seconds d = (if d < 0 then - ((- d) div 1000000000) else d div 1000000000)"

definition redis_Expire :: "string \<Rightarrow> int \<Rightarrow> ('x, unit) auop" where
  "redis_Expire key expiration =
    redis_execute (bindE (conn_Do (cmd_EXPIRE key (whole_seconds expiration))) (\<lambda>_. returnE ()))"

definition redis_Incr :: "string \<Rightarrow> ('x, reply) auop" where
  "redis_Incr key = redis_execute (conn_Do (cmd_INCR key))"

definition redis_Del :: "string \<Rightarrow> ('x, unit) auop" where
  "redis_Del key = redis_execute (bindE (conn_Do (cmd_DEL key)) (\<lambda>_. returnE ()))"

definition redis_Ping :: "('x, unit) auop" where
  "redis_Ping = redis_execute (bindE (conn_Do cmd_PING) (\<lambda>_. returnE ()))"

section \<open>The login counter\<close>

record security_config =
  raw_MaxLoginAttempts :: int
  raw_LoginAttemptsWindow :: int

text \<open>The configured limit is converted to an \<open>int8\<close>.\<close>

definition MaxLoginAttempts :: "security_config \<Rightarrow> int" where
  "MaxLoginAttempts c = int8_of (raw_MaxLoginAttempts c)"

definition LoginAttemptsWindow :: "security_config \<Rightarrow> int" where
  "LoginAttemptsWindow c = raw_LoginAttemptsWindow c"

definition prefixKey :: string where
  "prefixKey = ''login_attempts''"

definition maxLoginAttemptLimit :: int where
  "maxLoginAttemptLimit = 127"

definition getKey :: "string \<Rightarrow> string" where
  "getKey txt = prefixKey @ '':'' @ txt"

lemma getKey_inj [simp]: "getKey a = getKey b \<longleftrightarrow> a = b"
  by (simp add: getKey_def)

text \<open>\<open>redis.Int64\<close> of a reply.\<close>

definition reply_Int64 :: "reply \<Rightarrow> go_error + int" where
  "reply_Int64 r = (case r of
     RInt n \<Rightarrow> Inr n
   | RBulk s \<Rightarrow> (case parse_int64 s of Some n \<Rightarrow> Inr n | None \<Rightarrow> Inl (ErrorString ''strconv.ParseInt: invalid syntax''))
   | RNil \<Rightarrow> Inl (ErrorString ''redigo: nil returned'')
   | RValues _ \<Rightarrow> Inl (ErrorString ''redigo: unexpected type for Int64''))"

definition replyToInt8 :: "reply \<Rightarrow> go_error + int" where
  "replyToInt8 r =
    (case reply_Int64 r of
       Inl err \<Rightarrow> Inl err
     | Inr count64 \<Rightarrow> Inr (int8_of (if count64 > maxLoginAttemptLimit then maxLoginAttemptLimit else count64)))"

definition IncrementLoginAttempts :: "security_config \<Rightarrow> string \<Rightarrow> ('x, int) auop" where
  "IncrementLoginAttempts sec email =
    bindE (wrapE (WrapError ''failed to increment login attempts'') (redis_Incr (getKey email))) (\<lambda>r.
    bindE (liftE (replyToInt8 r)) (\<lambda>count.
    bindE (if count = 1 then ignoreE (redis_Expire (getKey email) (LoginAttemptsWindow sec)) else returnE ()) (\<lambda>_.
    returnE count)))"

definition ResetLoginAttempts :: "string \<Rightarrow> ('x, unit) auop" where
  "ResetLoginAttempts email = wrapE (WrapError ''failed to reset login attempts'') (redis_Del (getKey email))"

definition GetLoginAttempts :: "string \<Rightarrow> ('x, int) auop" where
  "GetLoginAttempts email =
    bindE (wrapE (WrapError ''failed to get login attempts'') (redis_Get (getKey email))) (\<lambda>r.
    if r = RNil then returnE 0 else liftE (replyToInt8 r))"

section \<open>Counters\<close>

text \<open>Numerals print and parse back.\<close>

lemma digit_char_range: "d < 10 \<Longrightarrow> (48::nat) \<le> of_char (digit_char d) \<and> (of_char (digit_char d) :: nat) \<le> 57"
  by (simp add: of_char_digit_char)

lemma nat_digits_nonempty [simp]: "nat_digits n \<noteq> []"
  by (simp add: nat_digits.simps [of n])

lemma nat_digits_no_minus: "take 1 (nat_digits n) \<noteq> ''-''"
proof
  assume "take 1 (nat_digits n) = ''-''"
  then have "CHR ''-'' \<in> set (nat_digits n)" by (cases "nat_digits n") auto
  then obtain d where "d < 10" "CHR ''-'' = digit_char d" using nat_digits_chars by blast
  with digit_char_not_special [of d] show False by auto
qed

lemma parse_int64_itoa:
  assumes "0 \<le> n" "n \<le> maxInt64"
  shows "parse_int64 (itoa n) = Some n"
proof -
  have "list_all (\<lambda>c. (48::nat) \<le> of_char c \<and> (of_char c :: nat) \<le> 57) (nat_digits (nat n))"
    unfolding list_all_iff using nat_digits_chars digit_char_range by metis
  with assms nat_digits_no_minus [of "nat n"] show ?thesis
    by (simp add: parse_int64_def itoa_def digits_value_nat_digits)
qed

text \<open>The counter of an email at a time, as the repository reads it.\<close>

definition counter :: "redis_db \<Rightarrow> int \<Rightarrow> string \<Rightarrow> int \<Rightarrow> int option \<Rightarrow> bool" where
  "counter db t email n ex =
    (if n = 0 then live db t (getKey email) = None
     else 0 < n \<and> n < maxInt64 \<and> live db t (getKey email) = Some \<lparr>re_value = RStr (itoa n), re_expires = ex\<rparr>)"

lemma counter_expires: "counter db t email n ex \<Longrightarrow> 0 < n \<Longrightarrow> ex = Some e \<Longrightarrow> t < e"
  by (auto simp: counter_def live_def split: option.splits if_splits)

lemma counter_later:
  assumes "counter db t email n ex" "t \<le> t'" "0 < n \<Longrightarrow> (\<And>e. ex = Some e \<Longrightarrow> t' < e)"
  shows "counter db t' email n ex"
  using assms by (auto simp: counter_def live_def split: option.splits if_splits)

lemma replyToInt8_count: "0 \<le> n \<Longrightarrow> replyToInt8 (RInt n) = Inr (min n 127)"
  by (auto simp: replyToInt8_def reply_Int64_def maxLoginAttemptLimit_def int8_of_small)

lemma replyToInt8_bulk: "0 \<le> n \<Longrightarrow> n \<le> maxInt64 \<Longrightarrow> replyToInt8 (RBulk (itoa n)) = Inr (min n 127)"
  by (auto simp: replyToInt8_def reply_Int64_def maxLoginAttemptLimit_def int8_of_small parse_int64_itoa)

end
