(* ===== verification/Auth_Service.thy ===== *)
theory Auth_Service
  imports Auth_Redis
begin

text \<open>
  The auth service and its gRPC handlers, \<open>services/auth/internal/service/auth\<close>,
  \<open>internal/handler/auth\<close> and \<open>internal/client/grpc/user\<close>.

  The generated stub of the users service is a parameter: \<open>rpc\<close> is its call
  ValidateCredentials, with the flag and the user id of the response. Spans and logs are left out.
\<close>

record ValidateCredentialsResult =
  vc_Valid :: bool
  vc_UserID :: string

type_synonym 'x user_rpc = "ctx \<Rightarrow> string \<Rightarrow> string \<Rightarrow> ('x, bool \<times> string) auop"

definition client_ValidateCredentials :: "'x user_rpc \<Rightarrow> ctx \<Rightarrow> string \<Rightarrow> string \<Rightarrow> ('x, ValidateCredentialsResult) auop" where
  "client_ValidateCredentials rpc c email password =
    bindE (rpc c email password) (\<lambda>(valid, userId). returnE \<lparr>vc_Valid = valid, vc_UserID = userId\<rparr>)"

section \<open>Errors and conditions\<close>

definition ErrInvalidRefreshToken :: go_error where
  "ErrInvalidRefreshToken = NewCommonError ''invalid refresh token'' Unauthenticated"
definition ErrInvalidEmailOrPassword :: go_error where
  "ErrInvalidEmailOrPassword = NewCommonError ''invalid email or password'' Unauthenticated"
definition ErrTooManyAttempts :: go_error where
  "ErrTooManyAttempts = NewCommonError ''too many attempts'' ResourceExhausted"

definition ValidateNotEmptyEmailAndPassword :: "string \<Rightarrow> string \<Rightarrow> go_error option" where
  "ValidateNotEmptyEmailAndPassword email password =
    (if email = [] \<or> password = [] then Some (NewValidationErrors [''empty credentials'']) else None)"

section \<open>The service\<close>

text \<open>A call of the token service at the current time.\<close>

definition at_clock :: "(int \<Rightarrow> go_error + 'a) \<Rightarrow> ('x, 'a) auop" where
  "at_clock f = bindE (getsE (\<lambda>w. clock w (now w))) (\<lambda>t. liftE (f t))"

definition Login ::
  "jwt_lib \<Rightarrow> jwt_config \<Rightarrow> security_config \<Rightarrow> 'x user_rpc \<Rightarrow> ctx \<Rightarrow> string \<Rightarrow> string \<Rightarrow> ('x, string) auop" where
  "Login lib cfg sec rpc c email password =
    (let c' = InjectUserEmail c email in
     case Validate [ValidateNotEmptyEmailAndPassword email password] of
       Some err \<Rightarrow> throwE err
     | None \<Rightarrow>
        bindE (GetLoginAttempts email) (\<lambda>attempts.
        if attempts \<ge> MaxLoginAttempts sec then throwE ErrTooManyAttempts
        else
        bindE (tryE (client_ValidateCredentials rpc c' email password)) (\<lambda>r.
        case r of
          Inl err \<Rightarrow> bindE (ignoreE (IncrementLoginAttempts sec email)) (\<lambda>_. throwE err)
        | Inr res \<Rightarrow>
           if \<not> vc_Valid res then
             bindE (ignoreE (IncrementLoginAttempts sec email)) (\<lambda>_. throwE ErrInvalidEmailOrPassword)
           else
             bindE (ignoreE (ResetLoginAttempts email)) (\<lambda>_.
             at_clock (GenerateRefreshToken lib cfg \<lparr>UserId = vc_UserID res, UserEmail = email\<rparr>)))))"

definition GetAccessToken :: "jwt_lib \<Rightarrow> jwt_config \<Rightarrow> string \<Rightarrow> ('x, string) auop" where
  "GetAccessToken lib cfg refresh_token =
    bindE (wrapE (\<lambda>_. ErrInvalidRefreshToken) (at_clock (\<lambda>t. VerifyRefreshToken lib cfg refresh_token t t))) (\<lambda>claims.
    at_clock (GenerateAccessToken lib cfg \<lparr>UserId = c_UserId claims, UserEmail = c_Email claims\<rparr>))"

definition GetRefreshToken :: "jwt_lib \<Rightarrow> jwt_config \<Rightarrow> string \<Rightarrow> ('x, string) auop" where
  "GetRefreshToken lib cfg old_refresh_token =
    bindE (wrapE (\<lambda>_. NewCommonError ''ivalid refresh token'' Unauthenticated)
        (at_clock (\<lambda>t. VerifyRefreshToken lib cfg old_refresh_token t t))) (\<lambda>claims.
    at_clock (GenerateRefreshToken lib cfg \<lparr>UserId = c_UserId claims, UserEmail = c_Email claims\<rparr>))"

definition auth_ValidateToken :: "jwt_lib \<Rightarrow> jwt_config \<Rightarrow> string \<Rightarrow> ('x, unit) auop" where
  "auth_ValidateToken lib cfg token =
    bindE (at_clock (\<lambda>t. VerifyAccessToken lib cfg token t t)) (\<lambda>_. returnE ())"

section \<open>The handlers\<close>

definition ah_Login ::
  "jwt_lib \<Rightarrow> jwt_config \<Rightarrow> security_config \<Rightarrow> 'x user_rpc \<Rightarrow> ctx \<Rightarrow> string \<Rightarrow> string \<Rightarrow> ('x, string) auop" where
  "ah_Login lib cfg sec rpc c email password = Login lib cfg sec rpc c email password"

definition ah_GetAccessToken :: "jwt_lib \<Rightarrow> jwt_config \<Rightarrow> string \<Rightarrow> ('x, string) auop" where
  "ah_GetAccessToken lib cfg token = GetAccessToken lib cfg token"

definition ah_GetRefreshToken :: "jwt_lib \<Rightarrow> jwt_config \<Rightarrow> string \<Rightarrow> ('x, string) auop" where
  "ah_GetRefreshToken lib cfg token = GetRefreshToken lib cfg token"

text \<open>\<open>md\<close> is the metadata of the call, from lower-case names to values.\<close>

definition ah_ValidateToken ::
  "jwt_lib \<Rightarrow> jwt_config \<Rightarrow> (string \<Rightarrow> string list option) option \<Rightarrow> ('x, unit) auop" where
  "ah_ValidateToken lib cfg md =
    (case md of
       None \<Rightarrow> throwE (NewCommonError ''metadata not provided'' Unauthenticated)
     | Some m \<Rightarrow>
        (case m ''authorization'' of
           None \<Rightarrow> throwE (NewCommonError ''authorization header not provided'' Unauthenticated)
         | Some [] \<Rightarrow> throwE (NewCommonError ''authorization header not provided'' Unauthenticated)
         | Some (h # hs) \<Rightarrow>
            (let token = TrimPrefix h ''Bearer '' in
             catchE (auth_ValidateToken lib cfg token) (\<lambda>err. throwE (NewCommonError ''invalid token'' Unauthenticated)))))"

end
