(* ===== verification/Auth_Spec.thy ===== *)
theory Auth_Spec
  imports Auth_Service Users_Props
begin

text \<open>
  What the auth service promises over any users service with the contract \<open>user_service\<close>, and
  that the users service of this repository, behind its gRPC interceptor and an unreliable
  transport, keeps the contract.
\<close>

section \<open>Time\<close>

text \<open>An operation advances the tick and leaves the clock and the faults alone.\<close>

definition later :: "'x au_world_scheme \<Rightarrow> 'x au_world_scheme \<Rightarrow> bool" where
  "later w w' = (clock w' = clock w \<and> redis_faults w' = redis_faults w \<and> now w \<le> now w')"

definition advances :: "('x, 'a) auop \<Rightarrow> bool" where
  "advances m = (\<forall>w. later w (snd (m w)))"

named_theorems advancing \<open>rules that an operation advances the tick\<close>

lemma later_refl [simp]: "later w w"
  by (simp add: later_def)

lemma later_trans: "later u v \<Longrightarrow> later v w \<Longrightarrow> later u w"
  by (auto simp: later_def)

lemma advancesD: "advances m \<Longrightarrow> m w = (r, w') \<Longrightarrow> later w w'"
  by (metis advances_def snd_conv)

lemma advances_bindE [advancing]: "advances m \<Longrightarrow> (\<And>x. advances (k x)) \<Longrightarrow> advances (bindE m k)"
  unfolding advances_def bindE_def
  by (simp split: prod.splits sum.splits) (metis later_trans snd_conv)

lemma advances_catchE [advancing]: "advances m \<Longrightarrow> (\<And>e. advances (h e)) \<Longrightarrow> advances (catchE m h)"
  unfolding advances_def catchE_def
  by (simp split: prod.splits sum.splits) (metis later_trans snd_conv)

lemma advances_basic [advancing, intro!]:
  "advances (returnE x)" "advances (throwE e)" "advances (liftE r)" "advances (getsE f)"
  by (simp_all add: advances_def returnE_def throwE_def liftE_def getsE_def)

lemma advances_tryE [advancing]: "advances m \<Longrightarrow> advances (tryE m)"
  by (simp add: advances_def tryE_def split_beta)

lemma advances_ignoreE [advancing]: "advances m \<Longrightarrow> advances (ignoreE m)"
  unfolding ignoreE_def by (intro advancing)

lemma advances_wrapE [advancing]: "advances m \<Longrightarrow> advances (wrapE f m)"
  unfolding wrapE_def by (intro advancing)

lemma advances_if [advancing]: "advances m \<Longrightarrow> advances n \<Longrightarrow> advances (if b then m else n)"
  by simp

lemma advances_case_sum [advancing]:
  "(\<And>e. advances (h e)) \<Longrightarrow> (\<And>x. advances (k x)) \<Longrightarrow> advances (case z of Inl e \<Rightarrow> h e | Inr x \<Rightarrow> k x)"
  by (simp split: sum.splits)

lemma advances_conn_Do [advancing]: "advances (conn_Do cmd)" "advances getConnect"
  by (auto simp: advances_def later_def conn_Do_def getConnect_def Let_def split: option.splits sum.splits prod.splits)

lemma advances_counter [advancing]:
  "advances (GetLoginAttempts email)" "advances (IncrementLoginAttempts sec email)" "advances (ResetLoginAttempts email)"
  unfolding GetLoginAttempts_def IncrementLoginAttempts_def ResetLoginAttempts_def
    redis_Get_def redis_Incr_def redis_Expire_def redis_Del_def redis_execute_def
  by (intro advancing)+

section \<open>The counter without faults\<close>

lemma conn_Do_calm:
  "redis_faults w = (\<lambda>_. None) \<Longrightarrow> conn_Do cmd w =
    (case cmd (clock w (now w)) (redis w) of
       Inl e \<Rightarrow> (Inl e, w\<lparr>now := Suc (now w)\<rparr>) | Inr (x, db) \<Rightarrow> (Inr x, w\<lparr>now := Suc (now w), redis := db\<rparr>))"
  by (simp add: conn_Do_def Let_def)

lemma getConnect_calm: "redis_faults w = (\<lambda>_. None) \<Longrightarrow> getConnect w = (Inr (), w\<lparr>now := Suc (now w)\<rparr>)"
  by (simp add: getConnect_def Let_def)

lemma itoa_0: "itoa 0 = ''0''"
  by code_simp

lemma GetLoginAttempts_calm:
  assumes "redis_faults w = (\<lambda>_. None)" "counter (redis w) (clock w (Suc (now w))) email n ex"
  shows "GetLoginAttempts email w = (Inr (min n 127), w\<lparr>now := Suc (Suc (now w))\<rparr>)"
proof (cases "n = 0")
  case True
  with assms show ?thesis
    by (simp add: GetLoginAttempts_def redis_Get_def redis_execute_def opE_defs getConnect_calm conn_Do_calm cmd_GET_def counter_def)
next
  case False
  with assms(2) have live: "live (redis w) (clock w (Suc (now w))) (getKey email) = Some \<lparr>re_value = RStr (itoa n), re_expires = ex\<rparr>"
    and n: "0 < n" "n < maxInt64" by (auto simp: counter_def split: if_splits)
  then have "replyToInt8 (RBulk (itoa n)) = Inr (min n 127)" by (intro replyToInt8_bulk) simp_all
  with live assms(1) show ?thesis
    by (simp add: GetLoginAttempts_def redis_Get_def redis_execute_def opE_defs getConnect_calm conn_Do_calm cmd_GET_def)
qed

text \<open>A failed login of an email with \<open>n\<close> failures in its window makes it \<open>n + 1\<close>.\<close>

definition window_end :: "security_config \<Rightarrow> int \<Rightarrow> int" where
  "window_end sec t = t + whole_seconds (LoginAttemptsWindow sec) * 1000000000"

lemma IncrementLoginAttempts_calm:
  assumes "redis_faults w = (\<lambda>_. None)" "counter (redis w) (clock w (Suc (now w))) email n ex" "0 \<le> n" "n < 1000"
    and "0 < whole_seconds (LoginAttemptsWindow sec)"
  shows "\<exists>w'. IncrementLoginAttempts sec email w = (Inr (min (n + 1) 127), w') \<and>
    redis w' (getKey email) = Some \<lparr>re_value = RStr (itoa (n + 1)),
       re_expires = (if n = 0 then Some (window_end sec (clock w (now w + 3))) else ex)\<rparr>"
proof -
  note defs = IncrementLoginAttempts_def redis_Incr_def redis_Expire_def redis_execute_def opE_defs getConnect_calm conn_Do_calm
    cmd_INCR_def cmd_EXPIRE_def window_end_def assms(1) replyToInt8_count
  show ?thesis
  proof (cases "n = 0")
    case True
    with assms(2) have "live (redis w) (clock w (Suc (now w))) (getKey email) = None" by (simp add: counter_def)
    then show ?thesis using assms(5) True by (simp add: defs live_def [of "_(_ \<mapsto> _)"] numeral_3_eq_3)
  next
    case False
    with assms(2) have "live (redis w) (clock w (Suc (now w))) (getKey email) = Some \<lparr>re_value = RStr (itoa n), re_expires = ex\<rparr>"
      and n: "0 < n" "n < maxInt64" by (auto simp: counter_def split: if_splits)
    moreover have "min (n + 1) 127 \<noteq> 1" using n by auto
    moreover have "parse_int64 (itoa n) = Some n" using n by (intro parse_int64_itoa) simp_all
    ultimately show ?thesis using n False by (simp add: defs)
  qed
qed

text \<open>
  \<open>n\<close> failures of an email are counted, and the count does not expire before \<open>E\<close>; Redis has no faults.
\<close>

definition failures :: "'x au_world_scheme \<Rightarrow> string \<Rightarrow> int \<Rightarrow> int \<Rightarrow> bool" where
  "failures w email E n =
    (redis_faults w = (\<lambda>_. None) \<and> mono (clock w) \<and>
     (\<exists>ex. counter (redis w) (clock w (now w)) email n ex \<and> (0 < n \<longrightarrow> (\<exists>e. ex = Some e \<and> E \<le> e))))"

lemma failures_counter:
  assumes "failures w email E n" "now w \<le> i" "clock w i < E"
  shows "\<exists>ex. counter (redis w) (clock w i) email n ex \<and> (0 < n \<longrightarrow> (\<exists>e. ex = Some e \<and> E \<le> e))"
proof -
  obtain ex where ex: "counter (redis w) (clock w (now w)) email n ex" "0 < n \<longrightarrow> (\<exists>e. ex = Some e \<and> E \<le> e)"
    using assms(1) by (auto simp: failures_def)
  have "clock w (now w) \<le> clock w i" using assms(1,2) by (auto simp: failures_def mono_def)
  from counter_later [OF ex(1) this] ex(2) assms(3) show ?thesis by fastforce
qed

lemma failures_later:
  assumes "failures w email E n" "later w w'" "redis w' = redis w" "clock w (now w') < E"
  shows "failures w' email E n"
  using failures_counter [OF assms(1) _ assms(4)] assms by (auto simp: failures_def later_def)

lemma GetLoginAttempts_failures:
  assumes "failures w email E n" "0 \<le> n"
  shows "\<exists>n'. GetLoginAttempts email w = (Inr n', w\<lparr>now := Suc (Suc (now w))\<rparr>) \<and> (n' = min n 127 \<or> n' = 0) \<and>
    (clock w (Suc (now w)) < E \<longrightarrow> n' = min n 127)"
proof -
  have calm: "redis_faults w = (\<lambda>_. None)" using assms(1) by (simp add: failures_def)
  obtain ex where ex: "counter (redis w) (clock w (now w)) email n ex" using assms(1) by (auto simp: failures_def)
  then have "counter (redis w) (clock w (Suc (now w))) email n ex \<or> counter (redis w) (clock w (Suc (now w))) email 0 ex"
    using monoD [of "clock w" "now w" "Suc (now w)"] assms(1)
    by (auto simp: failures_def counter_def live_def split: option.splits if_splits)
  then obtain m where m: "m = n \<or> m = 0" "counter (redis w) (clock w (Suc (now w))) email m ex" by auto
  have "m = n" if "clock w (Suc (now w)) < E"
  proof -
    obtain ex' where "counter (redis w) (clock w (Suc (now w))) email n ex'"
      using failures_counter [OF assms(1), of "Suc (now w)"] \<open>clock w (Suc (now w)) < E\<close> by auto
    with m show ?thesis by (auto simp: counter_def split: if_splits)
  qed
  with GetLoginAttempts_calm [OF calm m(2)] m(1) show ?thesis by auto
qed

lemma later_bindE: "m w = (r, w1) \<Longrightarrow> (\<And>x. advances (k x)) \<Longrightarrow> later w1 (snd (bindE m k w))"
  by (auto simp: bindE_def advances_def split: sum.splits)

lemma IncrementLoginAttempts_ticks:
  assumes "redis_faults w = (\<lambda>_. None)"
  shows "Suc (Suc (now w)) \<le> now (snd (IncrementLoginAttempts sec email w))"
proof -
  obtain r w1 where "wrapE (WrapError ''failed to increment login attempts'') (redis_Incr (getKey email)) w = (r, w1)"
    "now w1 = Suc (Suc (now w))"
    by (cases "cmd_INCR (getKey email) (clock w (Suc (now w))) (redis w)")
      (auto simp: assms redis_Incr_def redis_execute_def wrapE_def bindE_def catchE_def throwE_def getConnect_calm conn_Do_calm)
  note w1 = this
  have "later w1 (snd (IncrementLoginAttempts sec email w))"
    unfolding IncrementLoginAttempts_def redis_Expire_def redis_execute_def
    by (rule later_bindE [where m = "wrapE _ _", OF w1(1)]) (intro advancing)
  with w1(2) show ?thesis by (simp add: later_def)
qed

lemma bindE_tryE: "bindE (tryE m) k w = (case m w of (r, w') \<Rightarrow> k r w')"
  by (simp add: bindE_def tryE_def split: prod.split)

lemma bindE_ignoreE: "bindE (ignoreE m) k w = k () (snd (m w))"
  by (simp add: ignoreE_def bindE_def tryE_def returnE_def split: prod.split)

lemma Login_unfold:
  assumes "email \<noteq> []" "p \<noteq> []" "GetLoginAttempts email w = (Inr n, w1)"
  shows "Login lib cfg sec rpc c email p w =
    (if n \<ge> MaxLoginAttempts sec then (Inl ErrTooManyAttempts, w1)
     else case client_ValidateCredentials rpc (InjectUserEmail c email) email p w1 of
       (Inl err, w2) \<Rightarrow> (Inl err, snd (IncrementLoginAttempts sec email w2))
     | (Inr res, w2) \<Rightarrow>
        if \<not> vc_Valid res then (Inl ErrInvalidEmailOrPassword, snd (IncrementLoginAttempts sec email w2))
        else at_clock (GenerateRefreshToken lib cfg \<lparr>UserId = vc_UserID res, UserEmail = email\<rparr>) (snd (ResetLoginAttempts email w2)))"
proof -
  have valid: "Validate [ValidateNotEmptyEmailAndPassword email p] = None"
    using assms(1,2) by (simp add: Validate_None ValidateNotEmptyEmailAndPassword_def)
  show ?thesis
  proof (cases "client_ValidateCredentials rpc (InjectUserEmail c email) email p w1")
    case (Pair r w2)
    then show ?thesis
      unfolding Login_def valid Let_def option.case bindE_def [of "GetLoginAttempts _"] assms(3) prod.case sum.case
      by (cases r) (simp_all add: bindE_tryE bindE_ignoreE throwE_def)
  qed
qed

lemma clock_before:
  assumes "mono (clock w)" "i \<le> j" "clock w j < E"
  shows "clock w i < E"
  using monoD [OF assms(1,2)] assms(3) by simp

section \<open>The contract of the users service\<close>

text \<open>The users service keeps its invariant and its accounts while time goes on.\<close>

definition stays :: "('x au_world_scheme \<Rightarrow> bool) \<Rightarrow> ('x au_world_scheme \<Rightarrow> 'k) \<Rightarrow> 'x au_world_scheme \<Rightarrow> 'x au_world_scheme \<Rightarrow> bool" where
  "stays I K w w' = (I w' \<and> K w' = K w \<and> later w w')"

text \<open>Logins of one email, one after the other.\<close>

fun logins :: "(string \<Rightarrow> ('x, string) auop) \<Rightarrow> string list \<Rightarrow> 'x au_world_scheme \<Rightarrow> (go_error + string) list \<times> 'x au_world_scheme" where
  "logins login [] w = ([], w)"
| "logins login (p # ps) w = (case login p w of (r, w1) \<Rightarrow> case logins login ps w1 of (rs, w2) \<Rightarrow> (r # rs, w2))"

text \<open>
  \<open>knows w email password uid\<close>: in this world the password opens the account \<open>uid\<close> of the
  email. A call says yes only then, changes no accounts and does not touch Redis; the errors it
  returns are status errors of the transport.
\<close>

locale user_service =
  fixes rpc :: "'x user_rpc" and inv :: "'x au_world_scheme \<Rightarrow> bool"
    and knows :: "'x au_world_scheme \<Rightarrow> string \<Rightarrow> string \<Rightarrow> string \<Rightarrow> bool"
  assumes rpc_law: "inv w \<Longrightarrow> wpE (rpc c email p)
      (\<lambda>(v, uid) w'. inv w' \<and> knows w' = knows w \<and> redis w' = redis w \<and> later w w' \<and> (v \<longrightarrow> knows w email p uid))
      (\<lambda>err w'. inv w' \<and> knows w' = knows w \<and> redis w' = redis w \<and> later w w' \<and> (\<exists>code m. err = StatusError code m)) w"
    and local_now: "inv (now_update f w) = inv w" "knows (now_update f w) = knows w"
    and local_redis: "inv (redis_update g w) = inv w" "knows (redis_update g w) = knows w"
begin

text \<open>The counter's operations leave the users service alone.\<close>

lemma conn_frame: "inv (snd (conn_Do cmd w)) = inv w" "knows (snd (conn_Do cmd w)) = knows w"
  "inv (snd (getConnect w)) = inv w" "knows (snd (getConnect w)) = knows w"
  by (simp_all add: conn_Do_def getConnect_def Let_def local_now local_redis split: option.splits sum.splits prod.splits)

lemma counter_frame:
  "preserves (GetLoginAttempts email) inv" "preserves (GetLoginAttempts email) knows"
  "preserves (IncrementLoginAttempts sec email) inv" "preserves (IncrementLoginAttempts sec email) knows"
  "preserves (ResetLoginAttempts email) inv" "preserves (ResetLoginAttempts email) knows"
proof -
  have conn: "preserves (conn_Do cmd) inv" "preserves (conn_Do cmd) knows" "preserves getConnect inv" "preserves getConnect knows" for cmd
    by (simp_all add: preserves_def conn_frame)
  show "preserves (GetLoginAttempts email) inv" "preserves (GetLoginAttempts email) knows"
    "preserves (IncrementLoginAttempts sec email) inv" "preserves (IncrementLoginAttempts sec email) knows"
    "preserves (ResetLoginAttempts email) inv" "preserves (ResetLoginAttempts email) knows"
    unfolding GetLoginAttempts_def IncrementLoginAttempts_def ResetLoginAttempts_def
      redis_Get_def redis_Incr_def redis_Expire_def redis_Del_def redis_execute_def
    by (intro frame conn)+
qed

lemma client_wp:
  assumes "inv w"
  shows "wpE (client_ValidateCredentials rpc c email p)
    (\<lambda>res w'. inv w' \<and> knows w' = knows w \<and> redis w' = redis w \<and> later w w' \<and> (vc_Valid res \<longrightarrow> knows w email p (vc_UserID res)))
    (\<lambda>err w'. inv w' \<and> knows w' = knows w \<and> redis w' = redis w \<and> later w w' \<and> (\<exists>code m. err = StatusError code m)) w"
  unfolding client_ValidateCredentials_def wp by (rule wpE_mono [OF rpc_law [OF assms]]) (auto simp: wp)

lemma stays_trans: "stays inv knows u v \<Longrightarrow> stays inv knows v w \<Longrightarrow> stays inv knows u w"
  by (auto simp: stays_def intro: later_trans)

lemma counter_stays:
  assumes "preserves m inv" "preserves m knows" "advances m" "stays inv knows u w"
  shows "wpE m (\<lambda>_. stays inv knows u) (\<lambda>_. stays inv knows u) w"
proof -
  obtain r w' where run: "m w = (r, w')" by fastforce
  have "stays inv knows w w'"
    using preservesD [OF assms(1) run] preservesD [OF assms(2) run] advancesD [OF assms(3) run] assms(4) by (simp add: stays_def)
  with stays_trans [OF assms(4)] run show ?thesis by (auto simp: wpE_def split: sum.splits)
qed

lemmas get_stays = counter_stays [OF counter_frame(1,2) advances_counter(1)]
  and increment_stays = counter_stays [OF counter_frame(3,4) advances_counter(2)]
  and reset_stays = counter_stays [OF counter_frame(5,6) advances_counter(3)]

lemma client_stays:
  assumes "stays inv knows u w"
  shows "wpE (client_ValidateCredentials rpc c email p) (\<lambda>res w'. stays inv knows u w' \<and> (vc_Valid res \<longrightarrow> knows u email p (vc_UserID res)))
    (\<lambda>_. stays inv knows u) w"
proof -
  have "inv w" "knows w = knows u" using assms by (simp_all add: stays_def)
  then show ?thesis
    by (intro wpE_mono [OF client_wp [OF \<open>inv w\<close>]]) (use assms in \<open>auto simp: stays_def intro: later_trans\<close>)
qed

text \<open>A refresh token is issued only for an account the password opens.\<close>

lemma Login_sound:
  assumes "inv u"
  shows "wpE (Login lib cfg sec rpc c email p)
    (\<lambda>tok w'. stays inv knows u w' \<and> (\<exists>uid t. knows u email p uid \<and>
       GenerateRefreshToken lib cfg \<lparr>UserId = uid, UserEmail = email\<rparr> t = Inr tok))
    (\<lambda>_. stays inv knows u) u"
proof -
  have u: "stays inv knows u u" using assms by (simp add: stays_def)
  let ?Q = "\<lambda>tok w'. stays inv knows u w' \<and> (\<exists>uid t. knows u email p uid \<and>
       GenerateRefreshToken lib cfg \<lparr>UserId = uid, UserEmail = email\<rparr> t = Inr tok)"
  have fail: "wpE (IncrementLoginAttempts sec email) (\<lambda>_. stays inv knows u) (\<lambda>_. stays inv knows u) w" if "stays inv knows u w" for w
    by (rule increment_stays [OF that])
  have ok: "wpE (ResetLoginAttempts email) (\<lambda>_ w'. wpE (at_clock (GenerateRefreshToken lib cfg \<lparr>UserId = uid, UserEmail = email\<rparr>)) ?Q (\<lambda>_. stays inv knows u) w')
      (\<lambda>_ w'. wpE (at_clock (GenerateRefreshToken lib cfg \<lparr>UserId = uid, UserEmail = email\<rparr>)) ?Q (\<lambda>_. stays inv knows u) w') w"
    if "stays inv knows u w" "knows u email p uid" for w uid
    by (rule wpE_mono [OF reset_stays [OF that(1)]]) (use that(2) in \<open>auto simp: at_clock_def wp split: sum.split\<close>)
  have called: "wpE (client_ValidateCredentials rpc (InjectUserEmail c email) email p)
      (\<lambda>res w'. wpE (if \<not> vc_Valid res then bindE (ignoreE (IncrementLoginAttempts sec email)) (\<lambda>_. throwE ErrInvalidEmailOrPassword)
         else bindE (ignoreE (ResetLoginAttempts email)) (\<lambda>_. at_clock (GenerateRefreshToken lib cfg \<lparr>UserId = vc_UserID res, UserEmail = email\<rparr>))) ?Q (\<lambda>_. stays inv knows u) w')
      (\<lambda>err w'. wpE (bindE (ignoreE (IncrementLoginAttempts sec email)) (\<lambda>_. throwE err)) ?Q (\<lambda>_. stays inv knows u) w') w" if "stays inv knows u w" for w
    by (rule wpE_mono [OF client_stays [OF that]]) (use fail ok in \<open>auto simp: wp\<close>)
  show ?thesis
  proof (cases "Validate [ValidateNotEmptyEmailAndPassword email p]")
    case None
    have "wpE (GetLoginAttempts email) (\<lambda>n w. wpE (if n \<ge> MaxLoginAttempts sec then throwE ErrTooManyAttempts else
        bindE (tryE (client_ValidateCredentials rpc (InjectUserEmail c email) email p)) (\<lambda>r. case r of
          Inl err \<Rightarrow> bindE (ignoreE (IncrementLoginAttempts sec email)) (\<lambda>_. throwE err)
        | Inr res \<Rightarrow> if \<not> vc_Valid res then bindE (ignoreE (IncrementLoginAttempts sec email)) (\<lambda>_. throwE ErrInvalidEmailOrPassword)
           else bindE (ignoreE (ResetLoginAttempts email)) (\<lambda>_. at_clock (GenerateRefreshToken lib cfg \<lparr>UserId = vc_UserID res, UserEmail = email\<rparr>))))
        ?Q (\<lambda>_. stays inv knows u) w) (\<lambda>_. stays inv knows u) u"
      by (rule wpE_mono [OF get_stays [OF u]]) (use called in \<open>auto simp: wpE_bindE [of "tryE _"] wpE_tryE wpE_throwE\<close>)
    then show ?thesis by (simp add: Login_def None wpE_bindE [of "GetLoginAttempts _"])
  qed (simp add: Login_def wp u)
qed

text \<open>One failed login below the limit, and one at the limit.\<close>

lemma Login_counts:
  assumes "inv w" "failures w email E n" "0 \<le> n" "n < MaxLoginAttempts sec"
    and "email \<noteq> []" "p \<noteq> []" "\<And>uid. \<not> knows w email p uid"
    and "E \<le> window_end sec (clock w (now w))" "0 < whole_seconds (LoginAttemptsWindow sec)"
    and run: "Login lib cfg sec rpc c email p w = (r, w')" and "clock w (now w') < E"
  shows "(\<exists>err. r = Inl err \<and> err \<noteq> ErrTooManyAttempts) \<and> failures w' email E (n + 1) \<and> stays inv knows w w'"
proof -
  have stay: "stays inv knows w w'"
    using wpE_snd [where P = "stays inv knows w", OF wpE_mono [OF Login_sound [OF assms(1), of lib cfg sec c email p]]] run by simp
  have calm: "redis_faults w = (\<lambda>_. None)" "mono (clock w)" using assms(2) by (simp_all add: failures_def)
  have n127: "n < 127" using assms(4) int8_of_range [of "raw_MaxLoginAttempts sec"] by (simp add: MaxLoginAttempts_def)
  let ?w1 = "w\<lparr>now := Suc (Suc (now w))\<rparr>"
  obtain n' where get: "GetLoginAttempts email w = (Inr n', ?w1)" "n' = n \<or> n' = 0"
    using GetLoginAttempts_failures [OF assms(2,3)] n127 by auto
  obtain rr w2 where call: "client_ValidateCredentials rpc (InjectUserEmail c email) email p ?w1 = (rr, w2)" by fastforce
  have "inv ?w1" "knows ?w1 = knows w" using assms(1) by (simp_all add: local_now)
  with client_wp [OF \<open>inv ?w1\<close>, of "InjectUserEmail c email" email p] call
  have w2: "redis w2 = redis w" "later ?w1 w2" and
    rr: "\<And>res. rr = Inr res \<Longrightarrow> \<not> vc_Valid res" "\<And>err. rr = Inl err \<Longrightarrow> \<exists>code m. err = StatusError code m"
    using assms(7) by (auto simp: wpE_def split: sum.splits)
  obtain r3 w3 where inc: "IncrementLoginAttempts sec email w2 = (r3, w3)" by fastforce
  have later3: "later w2 w3" using advancesD [OF advances_counter(2) inc] .
  have "n' < MaxLoginAttempts sec" using get(2) assms(3,4) by auto
  then have res: "w' = w3" "\<exists>err. r = Inl err \<and> err \<noteq> ErrTooManyAttempts"
    using run [unfolded Login_unfold [OF assms(5,6) get(1)] call] rr inc
    by (auto simp: ErrInvalidEmailOrPassword_def ErrTooManyAttempts_def NewCommonError_def Code_defs split: sum.splits)
  have lt: "later w w2" using w2(2) by (auto simp: later_def)
  have before: "clock w i < E" if "i \<le> now w3" for i
    using clock_before [OF calm(2) that] assms(11) res(1) by simp
  have clocks: "clock w2 = clock w" "redis_faults w2 = (\<lambda>_. None)" "now w \<le> now w2"
    using lt calm by (auto simp: later_def)
  have ticks: "Suc (Suc (now w2)) \<le> now w3" using IncrementLoginAttempts_ticks [OF clocks(2), of sec email] inc by simp
  obtain ex where ex: "counter (redis w2) (clock w2 (Suc (now w2))) email n ex" "0 < n \<longrightarrow> (\<exists>e. ex = Some e \<and> E \<le> e)"
    using failures_counter [OF assms(2), of "Suc (now w2)"] before [of "Suc (now w2)"] ticks clocks w2(1) by auto
  from IncrementLoginAttempts_calm [OF clocks(2) ex(1) assms(3) _ assms(9)] n127 inc
  have entry: "redis w3 (getKey email) = Some \<lparr>re_value = RStr (itoa (n + 1)),
      re_expires = (if n = 0 then Some (window_end sec (clock w2 (now w2 + 3))) else ex)\<rparr>" by auto
  have "clock w (now w) \<le> clock w (now w2 + 3)" using calm(2) clocks(3) by (simp add: mono_def)
  then have "E \<le> window_end sec (clock w2 (now w2 + 3))" using assms(8) clocks(1) by (simp add: window_end_def)
  then obtain e where e: "redis w3 (getKey email) = Some \<lparr>re_value = RStr (itoa (n + 1)), re_expires = Some e\<rparr>" "E \<le> e"
    using entry ex(2) assms(3) by (cases "n = 0") auto
  have "clock w3 (now w3) < e" using before [of "now w3"] later3 clocks(1) e(2) by (simp add: later_def)
  with e assms(3) n127 have "counter (redis w3) (clock w3 (now w3)) email (n + 1) (Some e)"
    by (simp add: counter_def live_def maxInt64_def)
  moreover have "redis_faults w3 = (\<lambda>_. None)" "mono (clock w3)" using later3 clocks calm(2) by (simp_all add: later_def)
  ultimately have "failures w3 email E (n + 1)" using e(2) by (auto simp: failures_def)
  with res stay show ?thesis by simp
qed

lemma Login_after_get:
  assumes "inv w1" "email \<noteq> []" "p \<noteq> []" "GetLoginAttempts email w = (Inr n, w1)"
    and run: "Login lib cfg sec rpc c email p w = (r, w')"
  shows "later w1 w'"
proof -
  obtain rr w2 where call: "client_ValidateCredentials rpc (InjectUserEmail c email) email p w1 = (rr, w2)" by fastforce
  with client_wp [OF assms(1), of "InjectUserEmail c email" email p] have w2: "later w1 w2" by (auto simp: wpE_def split: sum.splits)
  have adv: "later w1 (snd (m w2))" if "advances m" for m :: "('x, 'b) auop"
    using that w2 later_trans unfolding advances_def by blast
  have "advances (bindE (ignoreE (ResetLoginAttempts email)) (\<lambda>_. at_clock f))" for f :: "int \<Rightarrow> go_error + string"
    unfolding at_clock_def by (intro advancing)
  note login = adv [OF this, unfolded bindE_ignoreE]
  show ?thesis
    using run [unfolded Login_unfold [OF assms(2-4)] call] adv [OF advances_counter(2)] login
    by (auto split: sum.splits if_splits dest: arg_cong [where f = snd]) (metis snd_conv)+
qed

lemma Login_blocked:
  assumes "inv w" "failures w email E n" "0 \<le> n" "n = MaxLoginAttempts sec" "email \<noteq> []" "p \<noteq> []"
    and run: "Login lib cfg sec rpc c email p w = (r, w')" and "clock w (now w') < E"
  shows "r = Inl ErrTooManyAttempts \<and> failures w' email E n \<and> stays inv knows w w' \<and> w' = w\<lparr>now := Suc (Suc (now w))\<rparr>"
proof -
  let ?w1 = "w\<lparr>now := Suc (Suc (now w))\<rparr>"
  have "n < 128" using assms(4) int8_of_range [of "raw_MaxLoginAttempts sec"] by (simp add: MaxLoginAttempts_def)
  then obtain n' where get: "GetLoginAttempts email w = (Inr n', ?w1)" "clock w (Suc (now w)) < E \<longrightarrow> n' = n"
    using GetLoginAttempts_failures [OF assms(2,3)] by (auto simp: min_def split: if_splits)
  have "inv ?w1" using assms(1) by (simp add: local_now)
  from Login_after_get [OF this assms(5,6) get(1) run] have "Suc (now w) \<le> now w'" by (simp add: later_def)
  moreover have "mono (clock w)" using assms(2) by (simp add: failures_def)
  ultimately have "n' = n" using get(2) clock_before assms(8) by blast
  then have res: "r = Inl ErrTooManyAttempts" "w' = ?w1"
    using run Login_unfold [OF assms(5,6) get(1)] assms(4) by auto
  have "later w ?w1" by (simp add: later_def)
  with res failures_later [OF assms(2) this] assms(1,8) show ?thesis by (simp add: stays_def local_now)
qed

lemma logins_stays:
  "inv w \<Longrightarrow> logins (Login lib cfg sec rpc c email) ps w = (rs, w') \<Longrightarrow> stays inv knows w w'"
proof (induction ps arbitrary: w rs)
  case (Cons p ps)
  obtain r w1 rs' where step: "Login lib cfg sec rpc c email p w = (r, w1)" "logins (Login lib cfg sec rpc c email) ps w1 = (rs', w')"
    using Cons.prems(2) by (auto split: prod.splits)
  have "stays inv knows w w1"
    using wpE_snd [where P = "stays inv knows w", OF wpE_mono [OF Login_sound [OF Cons.prems(1), of lib cfg sec c email p]]] step(1) by simp
  moreover have "inv w1" using calculation by (simp add: stays_def)
  ultimately show ?case using Cons.IH [OF _ step(2)] stays_trans by blast
qed (simp add: stays_def)

end

text \<open>
  The same contract with an audit: \<open>asked\<close> lists the emails and passwords the service has checked. A
  call checks its own and no other; a transport that loses no call, \<open>lossless\<close>, lets it check them.
\<close>

definition asks ::
  "('x au_world_scheme \<Rightarrow> (string \<times> string) list) \<Rightarrow> ('x au_world_scheme \<Rightarrow> bool) \<Rightarrow> string \<Rightarrow> string
    \<Rightarrow> 'x au_world_scheme \<Rightarrow> 'x au_world_scheme \<Rightarrow> bool" where
  "asks asked lossless email p w w' = (lossless w' = lossless w \<and>
     (asked w' = asked w @ [(email, p)] \<or> \<not> lossless w \<and> asked w' = asked w))"

locale audited_user_service = user_service rpc inv knows
  for rpc :: "'x user_rpc" and inv :: "'x au_world_scheme \<Rightarrow> bool"
    and knows :: "'x au_world_scheme \<Rightarrow> string \<Rightarrow> string \<Rightarrow> string \<Rightarrow> bool" +
  fixes asked :: "'x au_world_scheme \<Rightarrow> (string \<times> string) list" and lossless :: "'x au_world_scheme \<Rightarrow> bool"
  assumes asks_law: "wpE (rpc c email p) (\<lambda>_. asks asked lossless email p w) (\<lambda>_. asks asked lossless email p w) w"
    and audit_now: "asked (now_update f w) = asked w" "lossless (now_update f w) = lossless w"
    and audit_redis: "asked (redis_update g w) = asked w" "lossless (redis_update g w) = lossless w"
begin

lemma audit_frame:
  "preserves (IncrementLoginAttempts sec email) asked" "preserves (IncrementLoginAttempts sec email) lossless"
proof -
  have conn: "preserves (conn_Do cmd) asked" "preserves (conn_Do cmd) lossless" "preserves getConnect asked" "preserves getConnect lossless" for cmd
    by (simp_all add: preserves_def conn_Do_def getConnect_def Let_def audit_now audit_redis split: option.splits sum.splits prod.splits)
  show "preserves (IncrementLoginAttempts sec email) asked" "preserves (IncrementLoginAttempts sec email) lossless"
    unfolding IncrementLoginAttempts_def redis_Incr_def redis_Expire_def redis_execute_def
    by (intro frame conn)+
qed

text \<open>A failed login below the limit has its password checked, once.\<close>

lemma Login_counts_asks:
  assumes "inv w" "failures w email E n" "0 \<le> n" "n < MaxLoginAttempts sec" "email \<noteq> []" "p \<noteq> []" "\<And>uid. \<not> knows w email p uid"
    and run: "Login lib cfg sec rpc c email p w = (r, w')"
  shows "asks asked lossless email p w w'"
proof -
  let ?w1 = "w\<lparr>now := Suc (Suc (now w))\<rparr>"
  have "n < 127" using assms(4) int8_of_range [of "raw_MaxLoginAttempts sec"] by (simp add: MaxLoginAttempts_def)
  then obtain n' where get: "GetLoginAttempts email w = (Inr n', ?w1)" "n' < MaxLoginAttempts sec"
    using GetLoginAttempts_failures [OF assms(2,3)] assms(3,4) by auto
  obtain rr w2 where call: "client_ValidateCredentials rpc (InjectUserEmail c email) email p ?w1 = (rr, w2)" by fastforce
  have "wpE (client_ValidateCredentials rpc (InjectUserEmail c email) email p)
      (\<lambda>_. asks asked lossless email p ?w1) (\<lambda>_. asks asked lossless email p ?w1) ?w1"
    unfolding client_ValidateCredentials_def wp by (rule wpE_mono [OF asks_law]) (auto simp: wp)
  then have asks2: "asks asked lossless email p ?w1 w2" using call by (auto simp: wpE_def split: sum.splits)
  have "inv ?w1" "knows ?w1 = knows w" using assms(1) by (simp_all add: local_now)
  with client_wp [OF \<open>inv ?w1\<close>, of "InjectUserEmail c email" email p] call assms(7)
  have "\<And>res. rr = Inr res \<Longrightarrow> \<not> vc_Valid res" by (auto simp: wpE_def split: sum.splits)
  then have "w' = snd (IncrementLoginAttempts sec email w2)"
    using run [unfolded Login_unfold [OF assms(5,6) get(1)] call] get(2) by (auto split: sum.splits)
  moreover have "asked ?w1 = asked w" "lossless ?w1 = lossless w" by (simp_all add: audit_now)
  ultimately show ?thesis using asks2 audit_frame by (simp add: asks_def preserves_def)
qed

text \<open>
  In a row of logins in which those below the limit fail, these are checked; all others are
  refused without asking the users service, whatever their password.
\<close>

lemma logins_lockout:
  assumes "inv w" "failures w email E n" "0 \<le> n" "n \<le> MaxLoginAttempts sec" "email \<noteq> []"
    and "\<And>p. p \<in> set ps \<Longrightarrow> p \<noteq> []" "\<And>p uid. p \<in> set (take (nat (MaxLoginAttempts sec - n)) ps) \<Longrightarrow> \<not> knows w email p uid"
    and "E \<le> window_end sec (clock w (now w))" "0 < whole_seconds (LoginAttemptsWindow sec)"
    and "logins (Login lib cfg sec rpc c email) ps w = (rs, w')" "clock w (now w') < E"
  shows "length rs = length ps \<and>
    (\<forall>i < length ps. (\<exists>err. rs ! i = Inl err) \<and> (rs ! i = Inl ErrTooManyAttempts \<longleftrightarrow> MaxLoginAttempts sec - n \<le> int i)) \<and>
    (\<exists>qs. asked w' = asked w @ map (Pair email) qs \<and> subseq qs (take (nat (MaxLoginAttempts sec - n)) ps) \<and>
       (lossless w \<longrightarrow> qs = take (nat (MaxLoginAttempts sec - n)) ps))"
  using assms
proof (induction ps arbitrary: w n rs)
  case (Cons p ps)
  let ?M = "MaxLoginAttempts sec"
  obtain r w1 rs' where step: "Login lib cfg sec rpc c email p w = (r, w1)" "logins (Login lib cfg sec rpc c email) ps w1 = (rs', w')"
    and rs: "rs = r # rs'" using Cons.prems(10) by (auto split: prod.splits)
  have one: "stays inv knows w w1"
    using wpE_snd [where P = "stays inv knows w", OF wpE_mono [OF Login_sound [OF Cons.prems(1), of lib cfg sec c email p]]] step(1) by simp
  then have w1: "inv w1" "knows w1 = knows w" "clock w1 = clock w" "now w \<le> now w1" by (auto simp: stays_def later_def)
  from logins_stays [OF w1(1) step(2)] have "now w1 \<le> now w'" by (simp add: stays_def later_def)
  moreover have mono: "mono (clock w)" using Cons.prems(2) by (simp add: failures_def)
  ultimately have t1: "clock w (now w1) < E" using clock_before Cons.prems(11) by blast
  have p: "p \<noteq> []" and ps: "\<And>q. q \<in> set ps \<Longrightarrow> q \<noteq> []" using Cons.prems(6) by auto
  have E1: "E \<le> window_end sec (clock w1 (now w1))"
    using Cons.prems(8) monoD [OF mono w1(4)] w1(3) by (simp add: window_end_def)
  have tE: "clock w1 (now w') < E" using Cons.prems(11) w1(3) by simp
  show ?case
  proof (cases "n < ?M")
    case True
    have left: "nat (?M - n) = Suc (nat (?M - (n + 1)))" using True by simp
    have wrong: "\<And>uid. \<not> knows w email p uid" "\<And>q uid. q \<in> set (take (nat (?M - (n + 1))) ps) \<Longrightarrow> \<not> knows w1 email q uid"
      using Cons.prems(7) w1(2) by (simp_all add: left)
    from Login_counts [OF Cons.prems(1,2,3) True Cons.prems(5) p wrong(1) Cons.prems(8,9) step(1) t1]
    have r: "\<exists>err. r = Inl err \<and> err \<noteq> ErrTooManyAttempts" and f1: "failures w1 email E (n + 1)" by auto
    have asks: "asks asked lossless email p w w1"
      by (rule Login_counts_asks [OF Cons.prems(1,2,3) True Cons.prems(5) p wrong(1) step(1)])
    from Cons.IH [OF w1(1) f1 _ _ Cons.prems(5) ps wrong(2) E1 Cons.prems(9) step(2) tE] Cons.prems(3) True obtain qs where
      IH: "length rs' = length ps" "\<forall>i<length ps. (\<exists>err. rs' ! i = Inl err) \<and> (rs' ! i = Inl ErrTooManyAttempts \<longleftrightarrow> ?M - (n + 1) \<le> int i)"
      and qs: "asked w' = asked w1 @ map (Pair email) qs" "subseq qs (take (nat (?M - (n + 1))) ps)"
        "lossless w1 \<longrightarrow> qs = take (nat (?M - (n + 1))) ps" by auto
    have "(\<exists>err. rs ! i = Inl err) \<and> (rs ! i = Inl ErrTooManyAttempts \<longleftrightarrow> ?M - n \<le> int i)" if "i < length (p # ps)" for i
      using IH(2) that r True rs by (cases i) auto
    moreover have "\<exists>qs. asked w' = asked w @ map (Pair email) qs \<and> subseq qs (take (nat (?M - n)) (p # ps)) \<and>
       (lossless w \<longrightarrow> qs = take (nat (?M - n)) (p # ps))"
    proof (cases "asked w1 = asked w @ [(email, p)]")
      case True
      with qs asks show ?thesis by (intro exI [of _ "p # qs"]) (simp add: left asks_def)
    next
      case False
      with asks have "\<not> lossless w" "asked w1 = asked w" by (auto simp: asks_def)
      with qs show ?thesis by (intro exI [of _ qs]) (auto simp: left intro: list_emb_Cons)
    qed
    ultimately show ?thesis using IH(1) rs by simp
  next
    case False
    then have n: "n = ?M" using Cons.prems(4) by simp
    from Login_blocked [OF Cons.prems(1,2,3) n Cons.prems(5) p(1) step(1) t1]
    have r: "r = Inl ErrTooManyAttempts" and f1: "failures w1 email E n" and w1': "w1 = w\<lparr>now := Suc (Suc (now w))\<rparr>" by auto
    from w1' have same: "asked w1 = asked w" by (simp add: audit_now)
    from Cons.IH [OF w1(1) f1 Cons.prems(3,4,5) ps _ E1 Cons.prems(9) step(2) tE] n
    have IH: "length rs' = length ps" "\<forall>i<length ps. (\<exists>err. rs' ! i = Inl err) \<and> (rs' ! i = Inl ErrTooManyAttempts \<longleftrightarrow> ?M - n \<le> int i)"
      and asked: "asked w' = asked w" by (auto simp: same)
    have "(\<exists>err. rs ! i = Inl err) \<and> (rs ! i = Inl ErrTooManyAttempts \<longleftrightarrow> ?M - n \<le> int i)" if "i < length (p # ps)" for i
      using IH(2) that rs r n by (cases i) auto
    with IH(1) rs n asked show ?thesis by simp
  qed
qed (auto intro: exI [of _ "[]"])

end

section \<open>The users service behind its transport\<close>

record sys_auth = au_world +
  users_w :: us_world
  users_net :: "nat \<Rightarrow> (grpc_code \<times> bool) option"
  checked :: "(string \<times> string) list"

lemma sys_auth_select [simp]:
  "users_w (now_update f w) = users_w w" "users_w (redis_update g w) = users_w w" "users_w (users_w_update h w) = h (users_w w)"
  "now (users_w_update h w) = now w" "redis (users_w_update h w) = redis w"
  "checked (now_update f w) = checked w" "checked (redis_update g w) = checked w"
  "users_net (now_update f w) = users_net w" "users_net (redis_update g w) = users_net w"
  by (cases w; simp)+

text \<open>
  The call runs the handler behind the error interceptor, unless the transport fails it; \<open>checked\<close>
  keeps the emails and passwords of the calls that have reached the handler.
\<close>

definition users_rpc :: "pg_env \<Rightarrow> bcrypt \<Rightarrow> unit sys_auth_ext user_rpc" where
  "users_rpc env bc c email password w =
    (let w' = w\<lparr>now := Suc (now w)\<rparr> in
     case uh_ValidateCredentials env bc email password (users_w w) of (r, s') \<Rightarrow>
       let w'' = w'\<lparr>users_w := s', checked := checked w @ [(email, password)]\<rparr> in
       (case users_net w (now w) of
          Some (code, delivered) \<Rightarrow> (Inl (StatusError code ''transport''), if delivered then w'' else w')
        | None \<Rightarrow> (handleError_result r, w'')))"

definition sys_users_ok :: "pg_env \<Rightarrow> sys_auth \<Rightarrow> bool" where
  "sys_users_ok env w = us_ok env (users_w w)"

definition opens :: "bcrypt \<Rightarrow> sys_auth \<Rightarrow> string \<Rightarrow> string \<Rightarrow> string \<Rightarrow> bool" where
  "opens bc w email password uid = accepts bc (us_tables (users_w w)) email password uid"

interpretation auth_users: user_service "users_rpc env bc" "sys_users_ok env" "opens bc" for env bc
proof (unfold_locales, goal_cases)
  case (1 w c email p)
  then have ok: "us_ok env (users_w w)" by (simp add: sys_users_ok_def)
  from ValidateCredentials_run [OF ok, of bc email p] obtain v j s' where
    run: "uh_ValidateCredentials env bc email p (users_w w) = (Inr (v, j), s')" and s': "us_tables s' = us_tables (users_w w)"
    and acc: "v \<longrightarrow> accepts bc (us_tables (users_w w)) email p j" by (elim exE conjE)
  have "us_ok env s'" using us_exec_ok [OF ok, of bc "UValidate email p"] run by simp
  with ok s' acc show ?case
    by (auto simp: wpE_def users_rpc_def run Let_def sys_users_ok_def opens_def fun_eq_iff later_def handleError_result_def
        split: option.split)
qed (simp_all add: sys_users_ok_def opens_def fun_eq_iff)

text \<open>The audited contract, for a transport that loses calls and one that does not.\<close>

interpretation audited_users: audited_user_service "users_rpc env bc" "sys_users_ok env" "opens bc" checked "\<lambda>w. users_net w = (\<lambda>_. None)" for env bc
proof (unfold_locales, goal_cases)
  case (1 c email p w)
  show ?case
    by (auto simp: wpE_def users_rpc_def Let_def asks_def split: prod.splits sum.splits option.splits)
qed simp_all

end
