(* ===== verification/Auth_Props.thy ===== *)
theory Auth_Props
  imports Auth_Spec
begin

text \<open>
  The properties of the tokens and of the auth service over the users service, and concrete
  libraries and worlds in which their hypotheses hold.
\<close>

section \<open>A concrete token library\<close>

text \<open>A table of the tokens a library can issue: token, key and claims.\<close>

definition table_jwt :: "(string \<times> bytes \<times> UserClaims) list \<Rightarrow> jwt_lib" where
  "table_jwt es = \<lparr>
     SignedString = (\<lambda>c k. case filter (\<lambda>(tok, k', c'). k' = k \<and> c' = c) es of
        (tok, _, _) # _ \<Rightarrow> Inr tok | [] \<Rightarrow> Inl (ErrorString ''cannot sign'')),
     ParseWithClaims = (\<lambda>tok kf t. case filter (\<lambda>(tok', _, _). tok' = tok) es of
        (_, k, c) # _ \<Rightarrow> if kf (SigningMethodHMAC ''HS256'') = Inr k \<and> claims_valid c t then Inr \<lparr>Valid = True, Claims = c\<rparr>
          else Inl (ErrorString ''token signature is invalid'')
      | [] \<Rightarrow> Inl (ErrorString ''token is malformed''))\<rparr>"

lemma table_jwt_ok:
  assumes "distinct (map fst es)" "[] \<notin> set (map fst es)"
  shows "jwt_ok (table_jwt es)"
proof -
  have sign: "(tok, k, c) \<in> set es" if "SignedString (table_jwt es) c k = Inr tok" for c k tok
  proof (cases "filter (\<lambda>(tok, k', c'). k' = k \<and> c' = c) es")
    case (Cons e xs)
    then have "e \<in> set (filter (\<lambda>(tok, k', c'). k' = k \<and> c' = c) es)" by simp
    then have "e \<in> set es" "snd e = (k, c)" by auto
    with that Cons show ?thesis by (cases e) (auto simp: table_jwt_def)
  qed (use that in \<open>simp add: table_jwt_def\<close>)
  have row: "filter (\<lambda>(tok', _, _). tok' = tok) es = [(tok, k, c)]" if "(tok, k, c) \<in> set es" for tok k c
    using filter_key_unique [OF assms(1) that] by (simp add: case_prod_unfold)
  have parse: "ParseWithClaims (table_jwt es) tok kf t =
      (if kf (SigningMethodHMAC ''HS256'') = Inr k \<and> claims_valid c t then Inr \<lparr>Valid = True, Claims = c\<rparr>
       else Inl (ErrorString ''token signature is invalid''))" if "(tok, k, c) \<in> set es" for tok k c kf t
    by (simp add: table_jwt_def row [OF that])
  have "Valid tk \<and> claims_valid (Claims tk) t" if "ParseWithClaims (table_jwt es) tok kf t = Inr tk" for tok kf t tk
    using that by (auto simp: table_jwt_def split: list.splits if_splits)
  moreover have "tok \<noteq> []" if "SignedString (table_jwt es) c k = Inr tok" for tok k c using sign [OF that] assms(2) by force
  ultimately show ?thesis
    unfolding jwt_ok_def using parse [OF sign] by (intro conjI allI impI) (auto dest: sign split: if_splits)
qed

definition example_config :: jwt_config where
  "example_config = \<lparr>RefreshSecret = ''s3cret'', AccessSecret = ''s3cret'', RefreshTTL = 3600000000000, AccessTTL = 900000000000\<rparr>"

definition example_claims :: "string \<Rightarrow> int \<Rightarrow> UserClaims" where
  "example_claims ty ttl = \<lparr>ExpiresAt = Some (5000000000 + ttl), IssuedAt = Some 5000000000, NotBefore = Some 5000000000,
     c_UserId = ''u0'', c_Email = ''ann@example.org'', TokenType = ty\<rparr>"

definition example_jwt :: jwt_lib where
  "example_jwt = table_jwt
    [(''R'', ''s3cret'', example_claims RefreshToken 3600000000000), (''A'', ''s3cret'', example_claims AccessToken 900000000000)]"

lemma example_jwt_ok: "jwt_ok example_jwt"
  unfolding example_jwt_def by (rule table_jwt_ok) simp_all

lemma example_tokens:
  "GenerateRefreshToken example_jwt example_config \<lparr>UserId = ''u0'', UserEmail = ''ann@example.org''\<rparr> 5250000000 = Inr ''R''"
  "GenerateAccessToken example_jwt example_config \<lparr>UserId = ''u0'', UserEmail = ''ann@example.org''\<rparr> 5250000000 = Inr ''A''"
  by code_simp+

section \<open>Tokens\<close>

text \<open>
  C30. An issued access token is accepted exactly from the second it was issued in until its
  expiry, the lifetime after that moment truncated to seconds, and yields the user it was issued for.
\<close>

theorem access_token_lifetime:
  assumes "jwt_ok lib" "GenerateAccessToken lib cfg info t0 = Inr tok"
  shows "case VerifyAccessToken lib cfg tok t t of
      Inr c \<Rightarrow> NewNumericDate t0 \<le> t \<and> t < NewNumericDate (t0 + AccessTTL cfg) \<and> c_UserId c = UserId info \<and> c_Email c = UserEmail info
    | Inl _ \<Rightarrow> t < NewNumericDate t0 \<or> NewNumericDate (t0 + AccessTTL cfg) \<le> t"
proof -
  have gen: "generateToken lib info (AccessTTL cfg) AccessToken (AccessSecret cfg) t0 = Inr tok"
    using assms(2) by (simp add: GenerateAccessToken_def)
  note ver = verifyToken_issued [OF assms(1) generateToken_issued [OF gen]]
  show ?thesis
  proof (cases "verifyToken lib tok (AccessSecret cfg) AccessToken t t")
    case (Inl e)
    then have "\<not> (NewNumericDate t0 \<le> t \<and> t < NewNumericDate (t0 + AccessTTL cfg))"
      using ver [of "AccessSecret cfg" AccessToken t t] by (auto simp: claims_valid_def)
    with Inl show ?thesis by (auto simp: VerifyAccessToken_def)
  next
    case (Inr c)
    with ver [of "AccessSecret cfg" AccessToken t t c] show ?thesis by (simp add: VerifyAccessToken_def claims_valid_def)
  qed
qed

theorem access_token_lifetime_witness:
  "(\<exists>c. VerifyAccessToken example_jwt example_config ''A'' 904999999999 904999999999 = Inr c \<and> c_UserId c = ''u0'') \<and>
   (\<exists>e. VerifyAccessToken example_jwt example_config ''A'' 905000000000 905000000000 = Inl e)"
  using access_token_lifetime [OF example_jwt_ok example_tokens(2), of 904999999999]
    access_token_lifetime [OF example_jwt_ok example_tokens(2), of 905000000000]
  by (auto simp: NewNumericDate_def example_config_def split: sum.splits)

text \<open>
  C31. Token types are not confused: an access token is never accepted as a refresh token nor the
  other way round, at any time, even where both secrets are the same.
\<close>

theorem token_types_separate:
  assumes "jwt_ok lib"
  shows "\<not> (GenerateAccessToken lib cfg info t0 = Inr tok \<and> VerifyRefreshToken lib cfg tok t t2 = Inr c) \<and>
    \<not> (GenerateRefreshToken lib cfg info t0 = Inr tok \<and> VerifyAccessToken lib cfg tok t t2 = Inr c)"
proof -
  have sep: "ty' = ty" if "generateToken lib info d ty k t0 = Inr tok" "verifyToken lib tok k' ty' t t2 = Inr c" for d ty k k' ty'
    using verifyToken_issued [OF assms generateToken_issued [OF that(1)]] that(2) by auto
  show ?thesis
    using sep [of _ AccessToken _ _ RefreshToken] sep [of _ RefreshToken _ _ AccessToken]
    by (auto simp: GenerateAccessToken_def GenerateRefreshToken_def VerifyAccessToken_def VerifyRefreshToken_def
        AccessToken_def RefreshToken_def split: sum.splits)
qed

theorem token_types_separate_witness:
  "GenerateAccessToken example_jwt example_config \<lparr>UserId = ''u0'', UserEmail = ''ann@example.org''\<rparr> 5250000000 = Inr ''A'' \<and>
   \<not> (\<exists>c. VerifyRefreshToken example_jwt example_config ''A'' 6000000000 6000000000 = Inr c)"
  using token_types_separate [OF example_jwt_ok, of example_config "\<lparr>UserId = ''u0'', UserEmail = ''ann@example.org''\<rparr>" 5250000000 "''A''"]
    example_tokens by blast


section \<open>A running system\<close>

definition example_security :: security_config where
  "example_security = \<lparr>raw_MaxLoginAttempts = 5, raw_LoginAttemptsWindow = 900000000000\<rparr>"

definition example_auth :: sys_auth where
  "example_auth = \<lparr>now = 0, redis = (\<lambda>_. None), redis_faults = (\<lambda>_. None), clock = (\<lambda>_. 5250000000),
     users_w = example_users1, users_net = (\<lambda>_. None), checked = []\<rparr>"

lemma example_auth_ok: "us_ok example_env (users_w example_auth)" "redis_faults example_auth = (\<lambda>_. None)" "mono (clock example_auth)"
  "live (redis example_auth) t k = None" "now example_auth = 0" "clock example_auth i = 5250000000"
  using example_users1_ok by (simp_all add: example_auth_def live_def mono_def)

lemma MaxLoginAttempts_small: "- 128 \<le> raw_MaxLoginAttempts sec \<Longrightarrow> raw_MaxLoginAttempts sec < 128 \<Longrightarrow>
    MaxLoginAttempts sec = raw_MaxLoginAttempts sec"
  by (simp add: MaxLoginAttempts_def int8_of_small)

section \<open>Logins\<close>

text \<open>
  C27. Guessing is bounded. Take any row of logins to an email without recorded failures that ends
  within the window, and let the passwords below the limit be wrong. These logins fail, and the users
  service has checked exactly their passwords, or fewer when the transport loses calls; every further
  login is refused with ErrTooManyAttempts and its password is not checked, though it be the right
  one. The transport to the users service may fail as it likes; Redis is up.
\<close>

theorem login_lockout:
  assumes "us_ok env (users_w w)" "redis_faults w = (\<lambda>_. None)" "mono (clock w)"
    "live (redis w) (clock w (now w)) (getKey email) = None" "0 \<le> MaxLoginAttempts sec"
    "0 < whole_seconds (LoginAttemptsWindow sec)" "email \<noteq> []" "[] \<notin> set ps"
    "\<And>p uid. p \<in> set (take (nat (MaxLoginAttempts sec)) ps) \<Longrightarrow> \<not> accepts bc (us_tables (users_w w)) email p uid"
    "logins (ah_Login lib cfg sec (users_rpc env bc) c email) ps w = (rs, w')"
    "clock w (now w') < window_end sec (clock w (now w))"
  shows "length rs = length ps \<and>
    (\<forall>i < length ps. (\<exists>err. rs ! i = Inl err) \<and> (rs ! i = Inl ErrTooManyAttempts \<longleftrightarrow> MaxLoginAttempts sec \<le> int i)) \<and>
    (\<exists>qs. checked w' = checked w @ map (Pair email) qs \<and> subseq qs (take (nat (MaxLoginAttempts sec)) ps) \<and>
       (users_net w = (\<lambda>_. None) \<longrightarrow> qs = take (nat (MaxLoginAttempts sec)) ps))"
proof -
  have start: "failures w email (window_end sec (clock w (now w))) 0"
    using assms(2-4) by (simp add: failures_def counter_def)
  have handler: "ah_Login lib cfg sec (users_rpc env bc) c email = Login lib cfg sec (users_rpc env bc) c email"
    by (simp add: ah_Login_def fun_eq_iff)
  have inv: "sys_users_ok env w" using assms(1) by (simp add: sys_users_ok_def)
  have ne: "p \<noteq> []" if "p \<in> set ps" for p using assms(8) that by auto
  have wrong: "\<not> opens bc w email p uid" if "p \<in> set (take (nat (MaxLoginAttempts sec - 0)) ps)" for p uid
    using assms(9) that by (simp add: opens_def)
  from audited_users.logins_lockout [OF inv start _ assms(5,7) ne wrong _ assms(6) assms(10) [unfolded handler] assms(11)]
  show ?thesis by simp
qed

lemma example_wrong: "\<not> accepts example_bcrypt (us_tables (users_w example_auth)) e ''12345'' uid"
proof -
  have "bcrypt_key ''12345'' \<noteq> bcrypt_key ''secret''" by code_simp
  then show ?thesis
    by (auto simp: accepts_def example_auth_def example_users1_def example_bcrypt_def)
qed

theorem login_lockout_witness:
  "\<exists>e w'. logins (ah_Login example_jwt example_config (example_security\<lparr>raw_MaxLoginAttempts := 1\<rparr>)
       (users_rpc example_env example_bcrypt) Background ''ann@example.org'') [''12345'', ''secret''] example_auth =
     ([Inl e, Inl ErrTooManyAttempts], w') \<and> e \<noteq> ErrTooManyAttempts \<and> checked w' = [(''ann@example.org'', ''12345'')]"
proof -
  let ?sec = "example_security\<lparr>raw_MaxLoginAttempts := 1\<rparr>"
  have lim: "MaxLoginAttempts ?sec = 1" "whole_seconds (LoginAttemptsWindow ?sec) = 900"
    by (simp_all add: MaxLoginAttempts_small example_security_def LoginAttemptsWindow_def whole_seconds_def)
  obtain rs w' where run: "logins (ah_Login example_jwt example_config ?sec (users_rpc example_env example_bcrypt) Background ''ann@example.org'')
      [''12345'', ''secret''] example_auth = (rs, w')" by fastforce
  have ok: "0 \<le> MaxLoginAttempts ?sec" "0 < whole_seconds (LoginAttemptsWindow ?sec)" "''ann@example.org'' \<noteq> []"
    "[] \<notin> set [''12345'', ''secret'']" "clock example_auth (now w') < window_end ?sec (clock example_auth (now example_auth))"
    "\<And>p uid. p \<in> set (take (nat (MaxLoginAttempts ?sec)) [''12345'', ''secret'']) \<Longrightarrow>
       \<not> accepts example_bcrypt (us_tables (users_w example_auth)) ''ann@example.org'' p uid"
    using lim example_wrong by (auto simp: window_end_def example_auth_ok)
  have net: "users_net example_auth = (\<lambda>_. None)" "checked example_auth = []" by (simp_all add: example_auth_def)
  from login_lockout [OF example_auth_ok(1,2,3,4) ok(1,2,3,4,6) run ok(5)] lim net
  have "length rs = 2" "rs ! 0 \<noteq> Inl ErrTooManyAttempts" "\<exists>e. rs ! 0 = Inl e" "rs ! 1 = Inl ErrTooManyAttempts"
    "checked w' = [(''ann@example.org'', ''12345'')]" by simp_all
  moreover obtain a b where "rs = [a, b]" using \<open>length rs = 2\<close> by (auto simp: length_Suc_conv numeral_2_eq_2)
  ultimately show ?thesis using run by auto
qed

text \<open>
  C29. The configured limit is converted to an int8: a limit from 128 to 255 becomes negative, and
  then the very first login of every account is refused, whatever its password.
\<close>

theorem login_limit_wraps:
  assumes "128 \<le> raw_MaxLoginAttempts sec" "raw_MaxLoginAttempts sec < 256" "redis_faults w = (\<lambda>_. None)"
    "live (redis w) (clock w (Suc (now w))) (getKey email) = None" "email \<noteq> []" "p \<noteq> []"
  shows "ah_Login lib cfg sec rpc c email p w = (Inl ErrTooManyAttempts, w\<lparr>now := Suc (Suc (now w))\<rparr>)"
proof -
  have "int8_of (raw_MaxLoginAttempts sec) = int8_of (raw_MaxLoginAttempts sec - 256)"
  proof -
    have "(word_of_int (raw_MaxLoginAttempts sec) :: 8 word) = word_of_int (raw_MaxLoginAttempts sec - 256)"
      unfolding word_of_int_eq_iff by (simp add: take_bit_eq_mod)
    then show ?thesis by (simp only: int8_of_def)
  qed
  also have "\<dots> = raw_MaxLoginAttempts sec - 256" using assms(1,2) by (intro int8_of_small) simp_all
  finally have "MaxLoginAttempts sec \<le> 0" using assms(2) by (simp add: MaxLoginAttempts_def)
  moreover have get: "GetLoginAttempts email w = (Inr 0, w\<lparr>now := Suc (Suc (now w))\<rparr>)"
    using GetLoginAttempts_calm [OF assms(3), of email 0 None] assms(4) by (simp add: counter_def)
  ultimately show ?thesis using Login_unfold [OF assms(5,6) get] by (simp add: ah_Login_def)
qed

theorem login_limit_wraps_witness:
  "fst (ah_Login example_jwt example_config (example_security\<lparr>raw_MaxLoginAttempts := 200\<rparr>) (users_rpc example_env example_bcrypt) Background
     ''ann@example.org'' ''secret'' example_auth) = Inl ErrTooManyAttempts"
  using login_limit_wraps [of "example_security\<lparr>raw_MaxLoginAttempts := 200\<rparr>" example_auth "''ann@example.org''" "''secret''"
      example_jwt example_config "users_rpc example_env example_bcrypt" Background] example_auth_ok
  by simp

text \<open>
  C28. The error of EXPIRE is dropped. When it fails, the counter stays without an expiry though
  the increment reports success; once such a counter reaches the limit, every later login of the
  account is refused, at any time and with any password, and none of them changes the counter.
\<close>

lemma lost_expiry:
  assumes "redis_faults w = (\<lambda>i. if i = now w + 2 then Some (err, b) else None)"
    "live (redis w) (clock w (Suc (now w))) (getKey email) = None"
  shows "\<exists>w'. IncrementLoginAttempts sec email w = (Inr 1, w') \<and>
    redis w' (getKey email) = Some \<lparr>re_value = RStr ''1'', re_expires = None\<rparr>"
proof -
  have "itoa 1 = ''1''" by code_simp
  then show ?thesis
    using assms
    by (simp add: IncrementLoginAttempts_def redis_Incr_def redis_Expire_def redis_execute_def opE_defs getConnect_def conn_Do_def
        cmd_INCR_def Let_def replyToInt8_count)
qed

theorem lost_expiry_locks_out:
  assumes "redis_faults w = (\<lambda>_. None)" "redis w (getKey email) = Some \<lparr>re_value = RStr (itoa n), re_expires = None\<rparr>"
    "MaxLoginAttempts sec \<le> n" "0 < n" "n < maxInt64" "email \<noteq> []" "[] \<notin> set ps"
  shows "\<exists>w'. logins (ah_Login lib cfg sec rpc c email) ps w = (replicate (length ps) (Inl ErrTooManyAttempts), w') \<and> redis w' = redis w"
  using assms(1,2,7)
proof (induction ps arbitrary: w)
  case (Cons p ps)
  let ?w1 = "w\<lparr>now := Suc (Suc (now w))\<rparr>"
  have "counter (redis w) (clock w (Suc (now w))) email n None"
    using Cons.prems(2) assms(4,5) by (simp add: counter_def live_def)
  from GetLoginAttempts_calm [OF Cons.prems(1) this]
  have get: "GetLoginAttempts email w = (Inr (min n 127), ?w1)" .
  have "MaxLoginAttempts sec \<le> min n 127"
    using assms(3) int8_of_range [of "raw_MaxLoginAttempts sec"] by (simp add: MaxLoginAttempts_def)
  moreover have "p \<noteq> []" using Cons.prems(3) by auto
  ultimately have step: "ah_Login lib cfg sec rpc c email p w = (Inl ErrTooManyAttempts, ?w1)"
    using Login_unfold [OF assms(6) _ get] by (simp add: ah_Login_def)
  have "redis_faults ?w1 = (\<lambda>_. None)" "redis ?w1 (getKey email) = Some \<lparr>re_value = RStr (itoa n), re_expires = None\<rparr>"
    using Cons.prems by simp_all
  with Cons.IH [of ?w1] Cons.prems(3) show ?case by (auto simp: step)
qed simp

theorem lost_expiry_locks_out_witness:
  "fst (logins (ah_Login example_jwt example_config example_security (users_rpc example_env example_bcrypt) Background ''ann@example.org'')
     [''secret''] (example_auth\<lparr>redis := [getKey ''ann@example.org'' \<mapsto> \<lparr>re_value = RStr ''5'', re_expires = None\<rparr>]\<rparr>)) =
   [Inl ErrTooManyAttempts]"
proof -
  let ?w = "example_auth\<lparr>redis := [getKey ''ann@example.org'' \<mapsto> \<lparr>re_value = RStr ''5'', re_expires = None\<rparr>]\<rparr>"
  have "itoa 5 = ''5''" by code_simp
  then have entry: "redis ?w (getKey ''ann@example.org'') = Some \<lparr>re_value = RStr (itoa 5), re_expires = None\<rparr>" by simp
  have calm: "redis_faults ?w = (\<lambda>_. None)" by (simp add: example_auth_def)
  have "MaxLoginAttempts example_security \<le> 5" by (simp add: MaxLoginAttempts_small example_security_def)
  from lost_expiry_locks_out [OF calm entry this, of "[''secret'']" example_jwt example_config "users_rpc example_env example_bcrypt" Background]
  show ?thesis by (auto simp: maxInt64_def)
qed

text \<open>
  C26. Who a token speaks for, over the auth and users services: a refresh token is issued only
  when the users service's tables accept the password for the email, and wherever it verifies it
  names the user accepted.
\<close>

theorem login_identity:
  assumes "jwt_ok lib" "us_ok env (users_w w)" "ah_Login lib cfg sec (users_rpc env bc) c email p w = (Inr tok, w')"
  shows "\<exists>uid. accepts bc (us_tables (users_w w)) email p uid \<and>
    (\<forall>t t2 cl. VerifyRefreshToken lib cfg tok t t2 = Inr cl \<longrightarrow> c_UserId cl = uid \<and> c_Email cl = email)"
proof -
  have "sys_users_ok env w" using assms(2) by (simp add: sys_users_ok_def)
  from wpE_InrD [OF auth_users.Login_sound [OF this] assms(3) [unfolded ah_Login_def]]
  obtain uid t0 where acc: "opens bc w email p uid" and gen: "GenerateRefreshToken lib cfg \<lparr>UserId = uid, UserEmail = email\<rparr> t0 = Inr tok"
    by blast
  note issued = generateToken_issued [OF gen [unfolded GenerateRefreshToken_def]]
  have "c_UserId cl = uid \<and> c_Email cl = email" if "VerifyRefreshToken lib cfg tok t t2 = Inr cl" for t t2 cl
    using that verifyToken_issued [OF assms(1) issued, of "RefreshSecret cfg" RefreshToken t t2 cl]
    by (auto simp: VerifyRefreshToken_def split: sum.splits)
  with acc show ?thesis by (auto simp: opens_def)
qed

lemma example_login:
  "\<exists>w'. ah_Login example_jwt example_config example_security (users_rpc example_env example_bcrypt) Background
     ''ann@example.org'' ''secret'' example_auth = (Inr ''R'', w')"
proof -
  let ?w1 = "example_auth\<lparr>now := Suc (Suc (now example_auth))\<rparr>"
  have get: "GetLoginAttempts ''ann@example.org'' example_auth = (Inr 0, ?w1)"
    using GetLoginAttempts_calm [OF example_auth_ok(2), of "''ann@example.org''" 0 None] by (simp add: counter_def example_auth_ok)
  obtain v j s where val: "uh_ValidateCredentials example_env example_bcrypt ''ann@example.org'' ''secret'' example_users1 = (Inr (v, j), s)"
      "us_faults example_users1 (now example_users1) = None \<longrightarrow> text_in example_env ''ann@example.org'' \<longrightarrow>
        (v \<longleftrightarrow> (\<exists>i. accepts example_bcrypt (us_tables example_users1) ''ann@example.org'' ''secret'' i))"
      "v \<longrightarrow> accepts example_bcrypt (us_tables example_users1) ''ann@example.org'' ''secret'' j"
    using ValidateCredentials_run [OF example_users1_ok, of example_bcrypt "''ann@example.org''" "''secret''"] by (elim exE conjE)
  have "accepts example_bcrypt (us_tables example_users1) ''ann@example.org'' ''secret'' i \<longleftrightarrow> i = ''u0''" for i
    by (auto simp: accepts_def example_users1_def example_bcrypt_def)
  with val have run: "uh_ValidateCredentials example_env example_bcrypt ''ann@example.org'' ''secret'' example_users1 = (Inr (True, ''u0''), s)"
    by (auto simp: example_users1_def example_users_def example_env_def)
  obtain w2 where call: "client_ValidateCredentials (users_rpc example_env example_bcrypt) (InjectUserEmail Background ''ann@example.org'')
      ''ann@example.org'' ''secret'' ?w1 = (Inr \<lparr>vc_Valid = True, vc_UserID = ''u0''\<rparr>, w2)" and w2: "clock w2 = clock example_auth"
    using run by (auto simp: client_ValidateCredentials_def users_rpc_def bindE_def returnE_def Let_def example_auth_def handleError_result_def)
  have "clock (snd (ResetLoginAttempts ''ann@example.org'' w2)) = clock w2"
    using advances_counter(3) unfolding advances_def later_def by blast
  then have "at_clock (GenerateRefreshToken example_jwt example_config \<lparr>UserId = ''u0'', UserEmail = ''ann@example.org''\<rparr>)
      (snd (ResetLoginAttempts ''ann@example.org'' w2)) = (Inr ''R'', snd (ResetLoginAttempts ''ann@example.org'' w2))"
    using example_tokens(1) w2 by (simp add: at_clock_def bindE_def getsE_def liftE_def example_auth_ok)
  moreover have "MaxLoginAttempts example_security = 5" by (simp add: MaxLoginAttempts_small example_security_def)
  ultimately show ?thesis
    unfolding ah_Login_def Login_unfold [OF _ _ get, of "''secret''", simplified] call by simp
qed

theorem login_identity_witness:
  "\<exists>w' uid. ah_Login example_jwt example_config example_security (users_rpc example_env example_bcrypt) Background
     ''ann@example.org'' ''secret'' example_auth = (Inr ''R'', w') \<and>
   accepts example_bcrypt (us_tables (users_w example_auth)) ''ann@example.org'' ''secret'' uid \<and>
   (\<exists>cl. VerifyRefreshToken example_jwt example_config ''R'' 6000000000 6000000000 = Inr cl \<and> c_UserId cl = uid)"
proof -
  obtain w' where run: "ah_Login example_jwt example_config example_security (users_rpc example_env example_bcrypt) Background
     ''ann@example.org'' ''secret'' example_auth = (Inr ''R'', w')" using example_login by blast
  have "VerifyRefreshToken example_jwt example_config ''R'' 6000000000 6000000000 = Inr (example_claims RefreshToken 3600000000000)"
    by code_simp
  with login_identity [OF example_jwt_ok example_auth_ok(1) run] run show ?thesis by blast
qed

text \<open>
  C32. Access tokens are issued for valid refresh tokens only, and for the same user: when the
  refresh token does not verify the answer is Unauthenticated, and any verification of the new
  access token yields the user and email of the refresh token.
\<close>

theorem GetAccessToken_identity:
  assumes "jwt_ok lib"
  shows "case VerifyRefreshToken lib cfg rt (clock w (now w)) (clock w (now w)) of
      Inl _ \<Rightarrow> ah_GetAccessToken lib cfg rt w = (Inl ErrInvalidRefreshToken, w)
    | Inr cl \<Rightarrow> \<forall>tok w' t t2 cl'. ah_GetAccessToken lib cfg rt w = (Inr tok, w') \<and> VerifyAccessToken lib cfg tok t t2 = Inr cl' \<longrightarrow>
        c_UserId cl' = c_UserId cl \<and> c_Email cl' = c_Email cl"
proof (cases "VerifyRefreshToken lib cfg rt (clock w (now w)) (clock w (now w))")
  case (Inl e)
  then show ?thesis
    by (simp add: ah_GetAccessToken_def GetAccessToken_def at_clock_def opE_defs)
next
  case (Inr cl)
  have "c_UserId cl' = c_UserId cl \<and> c_Email cl' = c_Email cl"
    if "ah_GetAccessToken lib cfg rt w = (Inr tok, w')" "VerifyAccessToken lib cfg tok t t2 = Inr cl'" for tok w' t t2 cl'
  proof -
    have gen: "generateToken lib \<lparr>UserId = c_UserId cl, UserEmail = c_Email cl\<rparr> (AccessTTL cfg) AccessToken (AccessSecret cfg) (clock w (now w)) = Inr tok"
      using that(1) Inr by (auto simp: ah_GetAccessToken_def GetAccessToken_def at_clock_def opE_defs GenerateAccessToken_def)
    from that(2) verifyToken_issued [OF assms generateToken_issued [OF gen], of "AccessSecret cfg" AccessToken t t2 cl'] show ?thesis
      by (auto simp: VerifyAccessToken_def split: sum.splits)
  qed
  with Inr show ?thesis by auto
qed

theorem GetAccessToken_identity_witness:
  "fst (ah_GetAccessToken example_jwt example_config ''R'' example_auth) = Inr ''A'' \<and>
   (\<exists>cl. VerifyAccessToken example_jwt example_config ''A'' 6000000000 6000000000 = Inr cl \<and> c_UserId cl = ''u0'' \<and> c_Email cl = ''ann@example.org'')"
proof -
  let ?t = "clock example_auth (now example_auth)"
  have r: "VerifyRefreshToken example_jwt example_config ''R'' ?t ?t = Inr (example_claims RefreshToken 3600000000000)"
    unfolding example_auth_ok by code_simp
  have run: "ah_GetAccessToken example_jwt example_config ''R'' example_auth = (Inr ''A'', example_auth)"
    using r example_tokens(2) by (simp add: ah_GetAccessToken_def GetAccessToken_def at_clock_def opE_defs example_auth_ok example_claims_def)
  have v: "VerifyAccessToken example_jwt example_config ''A'' 6000000000 6000000000 = Inr (example_claims AccessToken 900000000000)"
    by code_simp
  from GetAccessToken_identity [OF example_jwt_ok, of example_config "''R''" example_auth] r run v show ?thesis
    by (auto simp: example_claims_def)
qed

text \<open>The token check on the first authorization header, and the status of a refusal.\<close>

lemma ValidateToken_header:
  "ah_ValidateToken lib cfg (Some (md(''authorization'' \<mapsto> h # hs))) w =
    (case VerifyAccessToken lib cfg (TrimPrefix h ''Bearer '') (clock w (now w)) (clock w (now w)) of
       Inl _ \<Rightarrow> (Inl (NewCommonError ''invalid token'' Unauthenticated), w) | Inr _ \<Rightarrow> (Inr (), w))"
  by (simp add: ah_ValidateToken_def auth_ValidateToken_def at_clock_def opE_defs Let_def split: sum.split)

lemma Unauthenticated_status: "handleError (Some (NewCommonError m Unauthenticated)) = Some (StatusError G_Unauthenticated m)"
  by (simp add: NewCommonError_def handleError_def IsCommonError_def GetCommonError_def status_Err_def toGRPCCode_def Code_defs)

text \<open>A header with the scheme, as the README documents it, and one without carry the same token.\<close>

lemma Trim_Bearer: "\<not> HasPrefix tok ''Bearer '' \<Longrightarrow> h \<in> {''Bearer '' @ tok, tok} \<Longrightarrow> TrimPrefix h ''Bearer '' = tok"
  by (auto simp: TrimPrefix_def HasPrefix_iff)

text \<open>
  C33. A session from login to gate. Let a login answer a refresh token and let that be exchanged
  for an access token at time \<open>t0\<close>. The token check lets a call with the access token through
  exactly from the second of \<open>t0\<close> until its lifetime after \<open>t0\<close> is over, whether the header has the
  scheme Bearer or not, and the token names the user whose password the login accepted. A call with
  the refresh token is refused at any time, also where both secrets are the same; the client sees
  Unauthenticated. Further values of the header count for nothing.
\<close>

theorem ValidateToken_gate:
  assumes "jwt_ok lib" "us_ok env (users_w w0)"
    and login: "ah_Login lib cfg sec (users_rpc env bc) c email p w0 = (Inr rt, w0')"
    and exchange: "ah_GetAccessToken lib cfg rt w1 = (Inr tok, w1')"
    and headers: "h \<in> {''Bearer '' @ tok, tok}" "h' \<in> {''Bearer '' @ rt, rt}"
      "\<not> HasPrefix tok ''Bearer ''" "\<not> HasPrefix rt ''Bearer ''"
  shows "let t0 = clock w1 (now w1); t = clock w (now w) in
    (if NewNumericDate t0 \<le> t \<and> t < NewNumericDate (t0 + AccessTTL cfg)
     then ah_ValidateToken lib cfg (Some (md(''authorization'' \<mapsto> h # hs))) w = (Inr (), w) \<and>
       (\<exists>uid cl. accepts bc (us_tables (users_w w0)) email p uid \<and>
          VerifyAccessToken lib cfg tok t t = Inr cl \<and> c_UserId cl = uid \<and> c_Email cl = email)
     else \<exists>e. ah_ValidateToken lib cfg (Some (md(''authorization'' \<mapsto> h # hs))) w = (Inl e, w) \<and>
       handleError (Some e) = Some (StatusError G_Unauthenticated ''invalid token'')) \<and>
    (\<exists>e. ah_ValidateToken lib cfg (Some (md(''authorization'' \<mapsto> h' # hs))) w = (Inl e, w) \<and>
       handleError (Some e) = Some (StatusError G_Unauthenticated ''invalid token''))"
proof -
  let ?start = "clock w1 (now w1)" and ?t = "clock w (now w)"
  have "sys_users_ok env w0" using assms(2) by (simp add: sys_users_ok_def)
  from wpE_InrD [OF auth_users.Login_sound [OF this] login [unfolded ah_Login_def]]
  obtain uid tl where acc: "accepts bc (us_tables (users_w w0)) email p uid"
    and gen: "GenerateRefreshToken lib cfg \<lparr>UserId = uid, UserEmail = email\<rparr> tl = Inr rt"
    by (auto simp: opens_def)
  note issued_rt = generateToken_issued [OF gen [unfolded GenerateRefreshToken_def]]
  obtain cl where cl: "verifyToken lib rt (RefreshSecret cfg) RefreshToken ?start ?start = Inr cl"
    and gen': "generateToken lib \<lparr>UserId = c_UserId cl, UserEmail = c_Email cl\<rparr> (AccessTTL cfg) AccessToken (AccessSecret cfg) ?start = Inr tok"
    using exchange by (auto simp: ah_GetAccessToken_def GetAccessToken_def at_clock_def opE_defs VerifyRefreshToken_def
        GenerateAccessToken_def split: sum.splits)
  have user: "c_UserId cl = uid" "c_Email cl = email"
    using cl verifyToken_issued [OF assms(1) issued_rt] by auto
  have access: "VerifyAccessToken lib cfg tok ?t ?t = Inr cl' \<longleftrightarrow>
      NewNumericDate ?start \<le> ?t \<and> ?t < NewNumericDate (?start + AccessTTL cfg) \<and>
      cl' = \<lparr>ExpiresAt = Some (NewNumericDate (?start + AccessTTL cfg)), IssuedAt = Some (NewNumericDate ?start),
        NotBefore = Some (NewNumericDate ?start), c_UserId = uid, c_Email = email, TokenType = AccessToken\<rparr>" for cl'
    using verifyToken_issued [OF assms(1) generateToken_issued [OF gen'], of "AccessSecret cfg" AccessToken ?t ?t cl'] user
    by (auto simp: VerifyAccessToken_def claims_valid_def split: sum.splits)
  have "\<nexists>cl'. VerifyAccessToken lib cfg rt ?t ?t = Inr cl'"
    using verifyToken_issued [OF assms(1) issued_rt, of "AccessSecret cfg" AccessToken ?t ?t]
    by (auto simp: VerifyAccessToken_def AccessToken_def RefreshToken_def split: sum.splits)
  then obtain e where refresh: "VerifyAccessToken lib cfg rt ?t ?t = Inl e" by (cases "VerifyAccessToken lib cfg rt ?t ?t") auto
  show ?thesis
  proof (cases "VerifyAccessToken lib cfg tok ?t ?t")
    case (Inl err)
    with access have "\<not> (NewNumericDate ?start \<le> ?t \<and> ?t < NewNumericDate (?start + AccessTTL cfg))" by auto
    with Inl refresh show ?thesis
      unfolding Let_def ValidateToken_header Trim_Bearer [OF headers(3,1)] Trim_Bearer [OF headers(4,2)]
      by (auto simp: Unauthenticated_status)
  next
    case (Inr cl')
    with access [of cl'] acc refresh show ?thesis
      unfolding Let_def ValidateToken_header Trim_Bearer [OF headers(3,1)] Trim_Bearer [OF headers(4,2)]
      by (auto simp: Unauthenticated_status)
  qed
qed

theorem ValidateToken_gate_witness:
  "let md = (\<lambda>_. None); late = example_auth\<lparr>clock := \<lambda>_. 905000000000\<rparr> in
   fst (ah_ValidateToken example_jwt example_config (Some (md(''authorization'' \<mapsto> [''Bearer A'']))) example_auth) = Inr () \<and>
   fst (ah_ValidateToken example_jwt example_config (Some (md(''authorization'' \<mapsto> [''A'']))) example_auth) = Inr () \<and>
   fst (ah_ValidateToken example_jwt example_config (Some (md(''authorization'' \<mapsto> [''Bearer A'']))) late) \<noteq> Inr () \<and>
   fst (ah_ValidateToken example_jwt example_config (Some (md(''authorization'' \<mapsto> [''Bearer R'', ''Bearer A'']))) example_auth) \<noteq> Inr ()"
proof -
  let ?t = "clock example_auth (now example_auth)" and ?late = "example_auth\<lparr>clock := \<lambda>_. 905000000000\<rparr>"
  obtain w' where run: "ah_Login example_jwt example_config example_security (users_rpc example_env example_bcrypt) Background
     ''ann@example.org'' ''secret'' example_auth = (Inr ''R'', w')" using example_login by blast
  have "VerifyRefreshToken example_jwt example_config ''R'' ?t ?t = Inr (example_claims RefreshToken 3600000000000)"
    unfolding example_auth_ok by code_simp
  then have ex: "ah_GetAccessToken example_jwt example_config ''R'' example_auth = (Inr ''A'', example_auth)"
    using example_tokens(2) by (simp add: ah_GetAccessToken_def GetAccessToken_def at_clock_def opE_defs example_auth_ok example_claims_def)
  have pre: "\<not> HasPrefix ''A'' ''Bearer ''" "\<not> HasPrefix ''R'' ''Bearer ''" by code_simp+
  note gate = ValidateToken_gate [OF example_jwt_ok example_auth_ok(1) run ex _ _ pre, unfolded Let_def, of _ _ _ "\<lambda>_. None"]
  from gate [of "''Bearer A''" "''R''" example_auth "[]"] gate [of "''A''" "''R''" example_auth "[]"]
    gate [of "''Bearer A''" "''R''" ?late "[]"] gate [of "''A''" "''Bearer R''" example_auth "[''Bearer A'']"]
  show ?thesis
    by (auto simp: Let_def example_auth_ok NewNumericDate_def example_config_def)
qed

end
