(* ===== verification/Machine.thy ===== *)
theory Machine
  imports Contextx
begin

text \<open>
  Runs of labelled step relations, for the parts of the go-kit that are concurrent: goroutines
  and channels are steps of one relation, and a schedule is the list of the labels of a run.
\<close>

section \<open>Runs\<close>

inductive runs :: "('s \<Rightarrow> 'l \<Rightarrow> 's \<Rightarrow> bool) \<Rightarrow> 's \<Rightarrow> 'l list \<Rightarrow> 's \<Rightarrow> bool"
  for step :: "'s \<Rightarrow> 'l \<Rightarrow> 's \<Rightarrow> bool" where
  stop: "runs step s [] s"
| go: "step s l t \<Longrightarrow> runs step t ls u \<Longrightarrow> runs step s (l # ls) u"

inductive_simps runs_Nil [simp]: "runs step s [] t"
inductive_simps runs_Cons: "runs step s (l # ls) t"

lemma runs_append:
  "runs step s (ls @ ls') u \<longleftrightarrow> (\<exists>t. runs step s ls t \<and> runs step t ls' u)"
  by (induction ls arbitrary: s) (auto simp: runs_Cons)

lemma runs_snoc: "runs step s (ls @ [l]) u \<longleftrightarrow> (\<exists>t. runs step s ls t \<and> step t l u)"
  by (auto simp: runs_append runs_Cons)

text \<open>
  What the steps of a machine promise to whoever runs it: an invariant, which every step keeps,
  and in \<open>paying_machine\<close> a credit that pays for all that is spent.
\<close>

locale safe_machine =
  fixes step :: "'s \<Rightarrow> 'l \<Rightarrow> 's \<Rightarrow> bool" and inv :: "'s \<Rightarrow> bool"
  assumes step_inv: "step s l t \<Longrightarrow> inv s \<Longrightarrow> inv t"
begin

lemma runs_inv: "runs step s ls t \<Longrightarrow> inv s \<Longrightarrow> inv t"
  by (induction rule: runs.induct) (auto intro: step_inv)

end

locale paying_machine = safe_machine +
  fixes spent :: "'a \<Rightarrow> int" and credit :: "'a \<Rightarrow> int"
  assumes step_pays: "step s l t \<Longrightarrow> inv s \<Longrightarrow> spent t + credit t \<le> spent s + credit s"
begin

lemma runs_pay: "runs step s ls t \<Longrightarrow> inv s \<Longrightarrow> spent t + credit t \<le> spent s + credit s"
proof (induction rule: runs.induct)
  case (go s l t ls u)
  with step_inv [OF go.hyps(1)] step_pays [OF go.hyps(1)] show ?case by force
qed simp

end

section \<open>Panics\<close>

text \<open>
  A call that may panic: its result, or the text of the panic. The functions of the services
  that cannot panic keep their plain types.
\<close>

datatype 'a go_run = Done 'a | Panic string

definition nil_dereference :: string where
  "nil_dereference = ''invalid memory address or nil pointer dereference''"

end
