(* ===== verification/Ratelimiter.thy ===== *)
theory Ratelimiter
  imports Machine
begin

text \<open>
  The token bucket of \<open>go-kit/ratelimiter\<close>, its gRPC interceptor
  (\<open>middleware/ratelimiter\<close>) and the settings the services build it from
  (\<open>internal/config/env/rate_limiter.go\<close>). The channel of empty structs is the number of its
  elements; the replenishing goroutine, its ticker and the requests are steps of one relation.
\<close>

section \<open>Settings\<close>

record rate_limiter_config =
  Limit :: int
  Period :: int

text \<open>\<open>parse\<close> is the result of \<open>env.Parse\<close>; durations are counted in nanoseconds.\<close>

definition NewRateLimiterConfig :: "go_error + rate_limiter_config \<Rightarrow> go_error + rate_limiter_config" where
  "NewRateLimiterConfig parse =
    (case parse of Inl err \<Rightarrow> Inl err
     | Inr raw \<Rightarrow>
        if Limit raw < 1 \<or> Period raw < 1 then Inl (ErrorString ''invalid rate limiter settings'')
        else Inr raw)"

section \<open>The bucket\<close>

record limiter =
  tokenBucketCh :: nat
  bucket_cap :: nat
  interval :: int

text \<open>Integer division of Go truncates toward zero, and int64 wraps around.\<close>

definition int64_of :: "int \<Rightarrow> int" where
  "int64_of x = (x + 2 ^ 63) mod 2 ^ 64 - 2 ^ 63"

definition int64_div :: "int \<Rightarrow> int \<Rightarrow> int" where
  "int64_div a b = int64_of (sgn a * sgn b * (\<bar>a\<bar> div \<bar>b\<bar>))"

text \<open>A send that does not block, on a channel of capacity \<open>c\<close> with \<open>n\<close> elements.\<close>

definition try_send :: "limiter \<Rightarrow> limiter option" where
  "try_send l = (if tokenBucketCh l < bucket_cap l
     then Some (l\<lparr>tokenBucketCh := Suc (tokenBucketCh l)\<rparr>) else None)"

text \<open>The filling loop; a send on a full channel would block it for good.\<close>

primrec fill_bucket :: "nat \<Rightarrow> limiter \<Rightarrow> limiter option" where
  "fill_bucket 0 l = Some l"
| "fill_bucket (Suc n) l = (case try_send l of None \<Rightarrow> None | Some l' \<Rightarrow> fill_bucket n l')"

text \<open>
  The constructor: a zero limit panics in the division, a limit below zero in
  \<open>make\<close>, and an interval below one nanosecond gives a nil limiter. \<open>None\<close> is a constructor
  that never returns.
\<close>

definition NewTokenBucketLimiter :: "rate_limiter_config \<Rightarrow> limiter option go_run option" where
  "NewTokenBucketLimiter cfg =
    (if Limit cfg = 0 then Some (Panic ''integer divide by zero'')
     else
     let replenishmentInterval = int64_div (Period cfg) (Limit cfg) in
     if replenishmentInterval < 1 then Some (Done None)
     else if Limit cfg < 0 then Some (Panic ''makechan: size out of range'')
     else
      (case fill_bucket (nat (Limit cfg))
              \<lparr>tokenBucketCh = 0, bucket_cap = nat (Limit cfg), interval = replenishmentInterval\<rparr> of
         None \<Rightarrow> None
       | Some l \<Rightarrow> Some (Done (Some l))))"

text \<open>The inner select of the replenishing goroutine: add a token, or skip when the bucket is full.\<close>

definition replenish :: "limiter \<Rightarrow> limiter" where
  "replenish l = (case try_send l of Some l' \<Rightarrow> l' | None \<Rightarrow> l)"

definition Allow :: "limiter option \<Rightarrow> bool go_run \<times> limiter option" where
  "Allow r =
    (case r of None \<Rightarrow> (Panic nil_dereference, None)
     | Some l \<Rightarrow>
        if 0 < tokenBucketCh l then (Done True, Some (l\<lparr>tokenBucketCh := tokenBucketCh l - 1\<rparr>))
        else (Done False, Some l))"

text \<open>The interceptor: a request with no token is answered without running its handler.\<close>

definition RateLimiterUnary ::
  "('w, go_error, 'a) op \<Rightarrow> limiter option \<times> 'w \<Rightarrow> (go_error + 'a) go_run \<times> limiter option \<times> 'w" where
  "RateLimiterUnary handler s =
    (case Allow (fst s) of
       (Panic m, r) \<Rightarrow> (Panic m, r, snd s)
     | (Done ok, r) \<Rightarrow>
        if \<not> ok then (Done (Inl (StatusError G_ResourceExhausted ''to many requests'')), r, snd s)
        else (case handler (snd s) of (res, w') \<Rightarrow> (Done res, r, w')))"

section \<open>The running limiter\<close>

text \<open>
  \<open>clock\<close> is the time since the ticker was made, \<open>fired\<close> the number of ticks it has passed,
  \<open>pending\<close> whether its channel, of capacity one, holds a tick: a tick that finds the channel
  full is dropped, and late ticks are not made up for. \<open>working\<close> is true until the goroutine
  sees its context done.
\<close>

record 'w limited =
  lim :: "limiter option"
  served :: 'w
  elapsed :: int
  fired :: int
  pending :: bool
  working :: bool

datatype 'r limit_event = Wait | Fire | Replenish | Stop | Request 'r

definition ticks_due :: "'w limited \<Rightarrow> int" where
  "ticks_due s = (case lim s of Some l \<Rightarrow> elapsed s div interval l | None \<Rightarrow> 0)"

inductive limit_step ::
  "('w, go_error, 'a) op \<Rightarrow> 'w limited \<Rightarrow> (go_error + 'a) go_run limit_event \<Rightarrow> 'w limited \<Rightarrow> bool"
  for handler :: "('w, go_error, 'a) op" where
  wait: "0 \<le> d \<Longrightarrow> limit_step handler s Wait (s\<lparr>elapsed := elapsed s + d\<rparr>)"
| fire: "fired s < ticks_due s \<Longrightarrow>
    limit_step handler s Fire (s\<lparr>fired := ticks_due s, pending := True\<rparr>)"
| replenish: "working s \<Longrightarrow> pending s \<Longrightarrow> lim s = Some l \<Longrightarrow>
    limit_step handler s Replenish (s\<lparr>pending := False, lim := Some (replenish l)\<rparr>)"
| stop: "working s \<Longrightarrow> limit_step handler s Stop (s\<lparr>working := False\<rparr>)"
| request: "RateLimiterUnary handler (lim s, served s) = (r, l', w') \<Longrightarrow>
    limit_step handler s (Request r) (s\<lparr>lim := l', served := w'\<rparr>)"

definition limiter_started :: "limiter option \<Rightarrow> 'w \<Rightarrow> 'w limited" where
  "limiter_started l w = \<lparr>lim = l, served = w, elapsed = 0, fired = 0, pending = False, working = True\<rparr>"

text \<open>A handler that also counts how often it was run.\<close>

definition counted :: "('w, go_error, 'a) op \<Rightarrow> ('w \<times> nat, go_error, 'a) op" where
  "counted h = (\<lambda>(w, n). case h w of (r, w') \<Rightarrow> (r, (w', Suc n)))"

section \<open>Properties of the bucket\<close>

lemma int64_of_small: "- (2 ^ 63) \<le> x \<Longrightarrow> x < 2 ^ 63 \<Longrightarrow> int64_of x = x"
  by (simp add: int64_of_def)

lemma int64_div_positive:
  assumes "1 \<le> a" "a < 2 ^ 63" "1 \<le> b"
  shows "int64_div a b = a div b"
proof -
  have "a div b \<le> a" using assms zdiv_mono2 [of a 1 b] by simp
  moreover have "0 \<le> a div b" using assms by (simp add: pos_imp_zdiv_nonneg_iff)
  ultimately show ?thesis using assms by (simp add: int64_div_def sgn_if int64_of_small)
qed

lemma fill_bucket_fills:
  "tokenBucketCh l + n \<le> bucket_cap l \<Longrightarrow> fill_bucket n l = Some (l\<lparr>tokenBucketCh := tokenBucketCh l + n\<rparr>)"
  by (induction n arbitrary: l) (auto simp: try_send_def)

text \<open>Filling sends one token for every place of the channel, so the constructor returns.\<close>

lemma NewTokenBucketLimiter_returns: "NewTokenBucketLimiter cfg \<noteq> None"
  by (auto simp: NewTokenBucketLimiter_def Let_def fill_bucket_fills split: option.splits)

lemma NewTokenBucketLimiter_valid:
  assumes "1 \<le> Limit cfg" "1 \<le> Period cfg" "Period cfg < 2 ^ 63"
  shows "NewTokenBucketLimiter cfg = Some (Done (if Period cfg < Limit cfg then None else
    Some \<lparr>tokenBucketCh = nat (Limit cfg), bucket_cap = nat (Limit cfg), interval = Period cfg div Limit cfg\<rparr>))"
proof -
  have "Period cfg div Limit cfg < 1 \<longleftrightarrow> Period cfg < Limit cfg"
    using assms by (metis int_one_le_iff_zero_less linorder_not_less pos_imp_zdiv_pos_iff zero_less_one_class.zero_le_one
        zero_less_one order_less_le_trans)
  with assms show ?thesis by (simp add: NewTokenBucketLimiter_def int64_div_positive Let_def fill_bucket_fills)
qed

lemma RateLimiterUnary_Some:
  "RateLimiterUnary h (Some l, w) =
    (if 0 < tokenBucketCh l then (Done (fst (h w)), Some (l\<lparr>tokenBucketCh := tokenBucketCh l - 1\<rparr>), snd (h w))
     else (Done (Inl (StatusError G_ResourceExhausted ''to many requests'')), Some l, w))"
  by (simp add: RateLimiterUnary_def Allow_def split: prod.splits)

lemma RateLimiterUnary_None: "RateLimiterUnary h (None, w) = (Panic nil_dereference, None, w)"
  by (simp add: RateLimiterUnary_def Allow_def)

text \<open>A limiter that exists: its channel never holds more than it can, and no step changes its settings.\<close>

definition bucket_inv :: "nat \<Rightarrow> int \<Rightarrow> 'w limited \<Rightarrow> bool" where
  "bucket_inv c i s = (0 < i \<and> fired s \<le> elapsed s div i \<and>
     (\<exists>l. lim s = Some l \<and> bucket_cap l = c \<and> interval l = i \<and> tokenBucketCh l \<le> c))"

lemma limit_step_inv: "limit_step h s e t \<Longrightarrow> bucket_inv c i s \<Longrightarrow> bucket_inv c i t"
proof (induction rule: limit_step.induct)
  case (wait d s)
  then have "elapsed s div i \<le> (elapsed s + d) div i" by (simp add: bucket_inv_def zdiv_mono1)
  with wait show ?case by (auto simp: bucket_inv_def)
next
  case (request s r l' w')
  then obtain l where l: "lim s = Some l" by (auto simp: bucket_inv_def)
  from request show ?case by (auto simp: l bucket_inv_def RateLimiterUnary_Some split: if_splits)
qed (auto simp: bucket_inv_def ticks_due_def replenish_def try_send_def split: if_splits)

text \<open>
  What a limiter can still admit: its tokens, the tick it holds, and one late tick. Each admitted
  request takes one away and only time adds to it, one for each interval.
\<close>

definition credit :: "'w limited \<Rightarrow> int" where
  "credit s = (case lim s of None \<Rightarrow> 0 | Some l \<Rightarrow> int (tokenBucketCh l)) + (if pending s then 1 else 0) +
     (if fired s < ticks_due s then 1 else 0) - ticks_due s"

lemma limit_step_credit:
  assumes "limit_step (counted h) s e t" "bucket_inv c i s"
  shows "int (snd (served t)) + credit t \<le> int (snd (served s)) + credit s"
  using assms
proof (induction rule: limit_step.induct)
  case (wait d s)
  then have "elapsed s div i \<le> (elapsed s + d) div i" by (simp add: bucket_inv_def zdiv_mono1)
  with wait show ?case by (auto simp: bucket_inv_def credit_def ticks_due_def)
next
  case (request s r l' w')
  then obtain l where l: "lim s = Some l" by (auto simp: bucket_inv_def)
  have "snd (snd (counted h (served s))) = Suc (snd (served s))" by (simp add: counted_def split: prod.splits)
  with request show ?case
    by (auto simp: l RateLimiterUnary_Some credit_def ticks_due_def split: if_splits)
qed (auto simp: bucket_inv_def ticks_due_def replenish_def try_send_def credit_def split: if_splits)

interpretation bucket: paying_machine "limit_step (counted h)" "bucket_inv c i" "\<lambda>s. int (snd (served s))" credit
  for h :: "('w, go_error, 'a) op" and c i
  by unfold_locales (auto intro: limit_step_inv limit_step_credit)

lemma div_below_two:
  assumes "0 < (i :: int)" "x < 2 * i"
  shows "x div i \<le> 1"
proof (rule ccontr)
  assume "\<not> x div i \<le> 1"
  then have "2 * i \<le> x div i * i" using assms(1) by (intro mult_right_mono) auto
  also have "\<dots> \<le> x" using assms(1) pos_mod_sign [of i x] div_mult_mod_eq [of x i] by linarith
  finally show False using assms(2) by simp
qed

lemma window_bound:
  assumes "runs (limit_step (counted h)) s es t" "bucket_inv c i s"
  shows "int (snd (served t)) - int (snd (served s)) \<le> int c + 3 + (elapsed t - elapsed s) div i"
proof -
  have inv: "bucket_inv c i t" using assms by (rule bucket.runs_inv)
  have "int (snd (served t)) + credit t \<le> int (snd (served s)) + credit s"
    using assms by (rule bucket.runs_pay)
  moreover have "credit s \<le> int c + 2 - elapsed s div i" "- (elapsed t div i) \<le> credit t"
    using assms(2) inv by (auto simp: bucket_inv_def credit_def ticks_due_def)
  moreover have "elapsed t div i \<le> elapsed s div i + (elapsed t - elapsed s) div i + 1"
  proof -
    have i: "0 < i" using inv by (simp add: bucket_inv_def)
    have "elapsed t div i = (elapsed s + (elapsed t - elapsed s)) div i" by simp
    also have "\<dots> = elapsed s div i + (elapsed t - elapsed s) div i + (elapsed s mod i + (elapsed t - elapsed s) mod i) div i"
      by (rule div_add1_eq)
    also have "(elapsed s mod i + (elapsed t - elapsed s) mod i) div i \<le> 1"
    proof -
      have "elapsed s mod i + (elapsed t - elapsed s) mod i < 2 * i"
        using pos_mod_bound [OF i, of "elapsed s"] pos_mod_bound [OF i, of "elapsed t - elapsed s"] by linarith
      then show ?thesis by (rule div_below_two [OF i])
    qed
    finally show ?thesis by simp
  qed
  ultimately show ?thesis by linarith
qed

end
