(* ===== verification/Closer.thy ===== *)
theory Closer
  imports Machine "HOL-Library.Multiset"
begin

text \<open>
  The graceful shutdown of \<open>go-kit/closer\<close>. \<open>CloseAll\<close> starts one goroutine for every
  registered function, collects their errors from a channel and gives up when its context ends.
  The goroutines are a multiset of running functions, the channel is a queue with a capacity, and
  \<open>closer_step\<close> has one rule for every statement that another goroutine can observe.
  A registered function is a value of type \<open>'f\<close>; \<open>behaves\<close> relates it to the ways its
  call can end. The durations in the log lines are left out, and the logger is never nil.
\<close>

section \<open>State\<close>

datatype 'f task = Task 'f | Named string 'f

fun task_fun :: "'f task \<Rightarrow> 'f" where
  "task_fun (Task f) = f"
| "task_fun (Named n f) = f"

text \<open>How the call of a registered function ends.\<close>

datatype call_end = Returns "go_error option" | Panics string

text \<open>
  A goroutine of \<open>CloseAll\<close>: not yet in its function, in it, about to send an error, or about
  to call \<open>wg.Done\<close>, and gone. \<open>Sending e p\<close> is inside \<open>recover\<close> when \<open>p\<close> is true; the last two
  states keep the error the goroutine has sent.
\<close>

datatype worker = Ready | Running | Sending go_error bool | Exiting "go_error option" | Gone "go_error option"

datatype log_line =
    LogNone | LogStart | LogSignal | LogClosing string | LogFailed string go_error | LogClosed string
  | LogPanic string | LogError go_error | LogCancelled go_error | LogAll

text \<open>Where the call that runs the body of \<open>closeOnce.Do\<close> is.\<close>

datatype 'f phase = Idle | Spawning "'f task list" | Reading "go_error option" | Returned "go_error option"

record 'f closer =
  funcs :: "'f task list"
  configured :: bool
  shutdownTimeout :: int
  listeners :: nat
  callers :: nat
  phase :: "'f phase"
  taken :: "'f task list"
  workers :: "('f task \<times> worker) multiset"
  wg :: nat
  errCh :: "go_error list"
  errCap :: nat
  errCh_closed :: bool
  waiting :: bool
  ended :: "go_error option"
  done_closed :: bool
  crashed :: bool
  clog :: "log_line list"

definition defaultShutdownTimeout :: int where
  "defaultShutdownTimeout = 5000000000"

definition closer_New :: "int \<Rightarrow> 'f closer" where
  "closer_New timeout = \<lparr>funcs = [], configured = False,
     shutdownTimeout = (if timeout \<le> 0 then defaultShutdownTimeout else timeout),
     listeners = 0, callers = 0, phase = Idle, taken = [], workers = {#}, wg = 0,
     errCh = [], errCap = 0, errCh_closed = False, waiting = False, ended = None, done_closed = False,
     crashed = False, clog = []\<rparr>"

definition closer_Add :: "'f task list \<Rightarrow> 'f closer \<Rightarrow> 'f closer" where
  "closer_Add fs s = s\<lparr>funcs := funcs s @ fs\<rparr>"

definition AddNamed :: "string \<Rightarrow> 'f \<Rightarrow> 'f closer \<Rightarrow> 'f closer" where
  "AddNamed name f s = closer_Add [Named name f] s"

text \<open>\<open>Configure\<close>: the settings are taken once, and every call starts a signal handler.\<close>

definition Configure :: "int \<Rightarrow> 'f closer \<Rightarrow> 'f closer" where
  "Configure timeout s =
    (let s' = (if configured s then s else s\<lparr>configured := True, shutdownTimeout := timeout\<rparr>) in
     s'\<lparr>listeners := Suc (listeners s')\<rparr>)"

section \<open>Goroutines\<close>

text \<open>The function of \<open>AddNamed\<close> logs before and after; a panic skips the second line.\<close>

fun log_before :: "'f task \<Rightarrow> log_line list" where
  "log_before (Task f) = []"
| "log_before (Named n f) = [LogClosing n]"

fun log_after :: "'f task \<Rightarrow> call_end \<Rightarrow> log_line list" where
  "log_after (Task f) r = []"
| "log_after (Named n f) (Returns None) = [LogClosed n]"
| "log_after (Named n f) (Returns (Some e)) = [LogFailed n e]"
| "log_after (Named n f) (Panics m) = []"

text \<open>What a goroutine does with the end of its call, \<open>recover\<close> included.\<close>

definition panic_error :: go_error where
  "panic_error = ErrorString ''panic recovered in closer''"

fun after_call :: "call_end \<Rightarrow> worker" where
  "after_call (Returns None) = Exiting None"
| "after_call (Returns (Some e)) = Sending e False"
| "after_call (Panics m) = Sending panic_error True"

datatype 'f closer_event =
    Added "'f task list" | Configured int | Called | Signalled | Stopped | Began | Again | Ended go_error
  | Spawned "'f task" | Spawned_all | Entered "'f task" | Left "'f task" call_end | Sent "'f task" go_error
  | Exited "'f task" | Closed | Read go_error | Read_closed | Gave_up | Crash

inductive closer_step :: "('f \<Rightarrow> call_end \<Rightarrow> bool) \<Rightarrow> 'f closer \<Rightarrow> 'f closer_event \<Rightarrow> 'f closer \<Rightarrow> bool"
  for behaves :: "'f \<Rightarrow> call_end \<Rightarrow> bool" where
  add: "closer_step behaves s (Added fs) (closer_Add fs s)"
| configure: "closer_step behaves s (Configured t) (Configure t s)"
| call: "closer_step behaves s Called (s\<lparr>callers := Suc (callers s)\<rparr>)"
| signal: "0 < listeners s \<Longrightarrow> closer_step behaves s Signalled
    (s\<lparr>listeners := listeners s - 1, callers := Suc (callers s), clog := clog s @ [LogSignal]\<rparr>)"
| handler_exit: "done_closed s \<Longrightarrow> 0 < listeners s \<Longrightarrow> closer_step behaves s Stopped (s\<lparr>listeners := listeners s - 1\<rparr>)"
| end_context: "ended s = None \<Longrightarrow> closer_step behaves s (Ended e) (s\<lparr>ended := Some e\<rparr>)"
| begin_empty: "phase s = Idle \<Longrightarrow> 0 < callers s \<Longrightarrow> funcs s = [] \<Longrightarrow> closer_step behaves s Began
    (s\<lparr>callers := callers s - 1, phase := Returned None, done_closed := True, clog := clog s @ [LogNone]\<rparr>)"
| begin_close: "phase s = Idle \<Longrightarrow> 0 < callers s \<Longrightarrow> funcs s \<noteq> [] \<Longrightarrow> closer_step behaves s Began
    (s\<lparr>callers := callers s - 1, taken := funcs s, funcs := [], phase := Spawning (rev (funcs s)),
       errCap := length (funcs s), clog := clog s @ [LogStart]\<rparr>)"
| again: "phase s = Returned r \<Longrightarrow> 0 < callers s \<Longrightarrow> closer_step behaves s Again (s\<lparr>callers := callers s - 1\<rparr>)"
| spawn: "phase s = Spawning (t # ts) \<Longrightarrow> closer_step behaves s (Spawned t)
    (s\<lparr>phase := Spawning ts, wg := Suc (wg s), workers := add_mset (t, Ready) (workers s)\<rparr>)"
| spawned: "phase s = Spawning [] \<Longrightarrow> closer_step behaves s Spawned_all (s\<lparr>phase := Reading None, waiting := True\<rparr>)"
| enter: "workers s = add_mset (t, Ready) ws \<Longrightarrow> closer_step behaves s (Entered t)
    (s\<lparr>workers := add_mset (t, Running) ws, clog := clog s @ log_before t\<rparr>)"
| leave: "workers s = add_mset (t, Running) ws \<Longrightarrow> behaves (task_fun t) r \<Longrightarrow> closer_step behaves s (Left t r)
    (s\<lparr>workers := add_mset (t, after_call r) ws, clog := clog s @ log_after t r\<rparr>)"
| send: "workers s = add_mset (t, Sending e p) ws \<Longrightarrow> length (errCh s) < errCap s \<Longrightarrow> \<not> errCh_closed s \<Longrightarrow>
    closer_step behaves s (Sent t e)
      (s\<lparr>workers := add_mset (t, Exiting (Some e)) ws, errCh := errCh s @ [e],
         clog := clog s @ (if p then [LogPanic ''panic in shutdown function''] else [])\<rparr>)"
| send_crash: "workers s = add_mset (t, Sending e p) ws \<Longrightarrow> errCh_closed s \<Longrightarrow>
    closer_step behaves s Crash (s\<lparr>crashed := True\<rparr>)"
| exit: "workers s = add_mset (t, Exiting oe) ws \<Longrightarrow> 0 < wg s \<Longrightarrow> closer_step behaves s (Exited t)
    (s\<lparr>workers := add_mset (t, Gone oe) ws, wg := wg s - 1\<rparr>)"
| exit_crash: "workers s = add_mset (t, Exiting oe) ws \<Longrightarrow> wg s = 0 \<Longrightarrow>
    closer_step behaves s Crash (s\<lparr>crashed := True\<rparr>)"
| close: "waiting s \<Longrightarrow> wg s = 0 \<Longrightarrow> closer_step behaves s Closed (s\<lparr>waiting := False, errCh_closed := True\<rparr>)"
| read: "phase s = Reading r \<Longrightarrow> errCh s = e # es \<Longrightarrow> closer_step behaves s (Read e)
    (s\<lparr>errCh := es, phase := Reading (case r of None \<Rightarrow> Some e | Some x \<Rightarrow> Some x), clog := clog s @ [LogError e]\<rparr>)"
| read_closed: "phase s = Reading r \<Longrightarrow> errCh s = [] \<Longrightarrow> errCh_closed s \<Longrightarrow> closer_step behaves s Read_closed
    (s\<lparr>phase := Returned r, done_closed := True, clog := clog s @ [LogAll]\<rparr>)"
| give_up: "phase s = Reading r \<Longrightarrow> ended s = Some e \<Longrightarrow> closer_step behaves s Gave_up
    (s\<lparr>phase := Returned (case r of None \<Rightarrow> Some e | Some x \<Rightarrow> Some x), done_closed := True, clog := clog s @ [LogCancelled e]\<rparr>)"

text \<open>What \<open>CloseAll\<close> has been told so far: the errors it received, each of them logged.\<close>

fun log_errors :: "log_line list \<Rightarrow> go_error list" where
  "log_errors [] = []"
| "log_errors (LogError e # ls) = e # log_errors ls"
| "log_errors (_ # ls) = log_errors ls"

definition first_error :: "go_error list \<Rightarrow> go_error option" where
  "first_error es = (case es of [] \<Rightarrow> None | e # _ \<Rightarrow> Some e)"

fun sent_by :: "worker \<Rightarrow> go_error multiset" where
  "sent_by (Exiting (Some e)) = {#e#}"
| "sent_by (Gone (Some e)) = {#e#}"
| "sent_by _ = {#}"

fun is_gone :: "worker \<Rightarrow> bool" where
  "is_gone (Gone oe) = True"
| "is_gone _ = False"

definition sent_errors :: "('f task \<times> worker) multiset \<Rightarrow> go_error multiset" where
  "sent_errors ws = sum_mset (image_mset (\<lambda>x. sent_by (snd x)) ws)"

fun unspawned :: "'f phase \<Rightarrow> 'f task list" where
  "unspawned (Spawning ts) = ts"
| "unspawned _ = []"

section \<open>Invariant\<close>

text \<open>The functions that were taken are the ones still to start and those of the goroutines.\<close>

definition workers_ok :: "'f closer \<Rightarrow> bool" where
  "workers_ok s = (image_mset fst (workers s) + mset (unspawned (phase s)) = mset (taken s) \<and>
     wg s = size (filter_mset (\<lambda>x. \<not> is_gone (snd x)) (workers s)) \<and> errCap s = length (taken s))"

text \<open>The errors that were sent are in the channel or have been read, and it closes after the last goroutine.\<close>

definition channel_ok :: "'f closer \<Rightarrow> bool" where
  "channel_ok s = (mset (errCh s) + mset (log_errors (clog s)) = sent_errors (workers s) \<and>
     (errCh_closed s \<or> waiting s \<longrightarrow> phase s \<noteq> Idle \<and> (\<forall>ts. phase s \<noteq> Spawning ts)) \<and>
     (errCh_closed s \<longrightarrow> wg s = 0 \<and> \<not> waiting s))"

text \<open>What the call of \<open>CloseAll\<close> knows in each phase.\<close>

definition phase_ok :: "'f closer \<Rightarrow> bool" where
  "phase_ok s = (case phase s of
     Idle \<Rightarrow> taken s = [] \<and> log_errors (clog s) = [] \<and> LogAll \<notin> set (clog s)
   | Spawning ts \<Rightarrow> log_errors (clog s) = [] \<and> LogAll \<notin> set (clog s)
   | Reading r \<Rightarrow> (waiting s \<or> errCh_closed s) \<and> r = first_error (log_errors (clog s)) \<and> LogAll \<notin> set (clog s)
   | Returned r \<Rightarrow>
       if LogAll \<in> set (clog s) then r = first_error (log_errors (clog s)) \<and> errCh s = [] \<and> errCh_closed s
       else (taken s = [] \<and> r = None) \<or>
         (\<exists>e. ended s = Some e \<and> r = first_error (log_errors (clog s) @ [e])))"

definition closer_inv :: "'f closer \<Rightarrow> bool" where
  "closer_inv s = (workers_ok s \<and> channel_ok s \<and> phase_ok s \<and> \<not> crashed s \<and>
     (done_closed s \<longleftrightarrow> (\<exists>r. phase s = Returned r)))"

lemmas closer_inv_defs = closer_inv_def workers_ok_def channel_ok_def phase_ok_def sent_errors_def first_error_def

lemma first_error_append [simp]: "first_error (es @ [e]) \<noteq> None" "None \<noteq> first_error (es @ [e])"
  by (simp_all add: first_error_def split: list.splits)

lemma log_errors_append [simp]: "log_errors (a @ b) = log_errors a @ log_errors b"
  by (induction a rule: log_errors.induct) auto

lemma log_errors_lines [simp]: "log_errors (log_before t) = []" "log_errors (log_after t r) = []"
  "LogAll \<notin> set (log_before t)" "LogAll \<notin> set (log_after t r)"
  by (cases t; cases r rule: after_call.cases; simp)+

lemma after_call_simps [simp]: "\<not> is_gone (after_call r)" "sent_by (after_call r) = {#}"
  by (cases r rule: after_call.cases; simp)+

lemma sent_by_Gone [simp]: "sent_by (Gone oe) = sent_by (Exiting oe)"
  by (cases oe) simp_all

lemma closer_New_inv: "closer_inv (closer_New t)"
  by (simp add: closer_inv_defs closer_New_def)

lemma workers_ok_step: "closer_step behaves s e t \<Longrightarrow> closer_inv s \<Longrightarrow> workers_ok t"
proof (induction rule: closer_step.induct)
  case (configure s t)
  then show ?case by (simp add: closer_inv_def workers_ok_def Configure_def Let_def)
qed (auto simp: closer_inv_def workers_ok_def closer_Add_def phase_ok_def)

lemma channel_ok_step: "closer_step behaves s e t \<Longrightarrow> closer_inv s \<Longrightarrow> channel_ok t"
proof (induction rule: closer_step.induct)
  case (configure s t)
  then show ?case by (simp add: closer_inv_def channel_ok_def Configure_def Let_def)
qed (auto simp: closer_inv_def workers_ok_def channel_ok_def closer_Add_def sent_errors_def phase_ok_def)

lemma phase_ok_step: "closer_step behaves s e t \<Longrightarrow> closer_inv s \<Longrightarrow> phase_ok t"
proof (induction rule: closer_step.induct)
  case (configure s t)
  then show ?case by (auto simp: closer_inv_def phase_ok_def Configure_def Let_def split: phase.splits)
qed (auto simp: closer_inv_def channel_ok_def closer_Add_def phase_ok_def first_error_def split: phase.splits list.splits if_splits)

lemma closer_step_inv:
  assumes "closer_step behaves s e t" "closer_inv s"
  shows "closer_inv t"
proof -
  have "\<not> crashed t \<and> (done_closed t \<longleftrightarrow> (\<exists>r. phase t = Returned r))"
    using assms
  proof (induction rule: closer_step.induct)
    case (configure s t)
    then show ?case by (simp add: closer_inv_def Configure_def Let_def)
  qed (auto simp: closer_inv_def channel_ok_def workers_ok_def closer_Add_def)
  with assms show ?thesis by (simp add: closer_inv_def workers_ok_step channel_ok_step phase_ok_step)
qed

interpretation closing: safe_machine "closer_step behaves" closer_inv for behaves :: "'f \<Rightarrow> call_end \<Rightarrow> bool"
  by unfold_locales (rule closer_step_inv)

lemma closer_reachable_inv: "runs (closer_step behaves) (closer_New t) ls s \<Longrightarrow> closer_inv s"
  by (erule closing.runs_inv) (rule closer_New_inv)

section \<open>Progress\<close>

text \<open>A goroutine that has an error to send finds room for it in an open channel.\<close>

lemma room_for_errors:
  assumes "closer_inv s" "(t, Sending e p) \<in># workers s"
  shows "length (errCh s) < errCap s \<and> \<not> errCh_closed s"
proof -
  from assms(2) obtain ws where ws: "workers s = add_mset (t, Sending e p) ws" by (metis mset_add)
  have "size (sent_errors ws) \<le> size ws"
    unfolding sent_errors_def
  proof (induction ws)
    case (add x ws)
    have "size (sent_by (snd x)) \<le> 1" by (cases "snd x" rule: sent_by.cases) auto
    with add show ?case by simp
  qed simp
  moreover have "size (mset (errCh s) + mset (log_errors (clog s))) = size (sent_errors ws)"
    using assms(1) ws by (simp add: closer_inv_defs)
  moreover have "Suc (size ws) + length (unspawned (phase s)) = errCap s"
  proof -
    have "size (image_mset fst (workers s) + mset (unspawned (phase s))) = errCap s"
      using assms(1) by (simp add: closer_inv_def workers_ok_def)
    then show ?thesis by (simp add: ws)
  qed
  ultimately have "length (errCh s) < errCap s" by simp
  moreover have "\<not> errCh_closed s" using assms(1) ws by (auto simp: closer_inv_defs)
  ultimately show ?thesis by simp
qed

text \<open>The steps of \<open>CloseAll\<close> itself, as against those of its callers and of the clock.\<close>

fun internal :: "'f closer_event \<Rightarrow> bool" where
  "internal (Spawned t) = True" | "internal Spawned_all = True" | "internal (Entered t) = True"
| "internal (Left t r) = True" | "internal (Sent t e) = True" | "internal (Exited t) = True"
| "internal Closed = True" | "internal (Read e) = True" | "internal Read_closed = True"
| "internal Gave_up = True" | "internal _ = False"

fun worker_work :: "worker \<Rightarrow> nat" where
  "worker_work Ready = 5" | "worker_work Running = 4" | "worker_work (Sending e p) = 3"
| "worker_work (Exiting oe) = 1" | "worker_work (Gone oe) = 0"

fun phase_work :: "'f phase \<Rightarrow> nat" where
  "phase_work Idle = 0" | "phase_work (Spawning ts) = 6 * length ts + 3"
| "phase_work (Reading r) = 1" | "phase_work (Returned r) = 0"

definition work :: "'f closer \<Rightarrow> nat" where
  "work s = sum_mset (image_mset (\<lambda>x. worker_work (snd x)) (workers s)) + length (errCh s) +
     phase_work (phase s) + (if waiting s then 1 else 0)"

lemma after_call_work: "worker_work (after_call r) < 4"
  by (cases r rule: after_call.cases; simp)

lemma internal_step_works: "closer_step behaves s e t \<Longrightarrow> internal e \<Longrightarrow> work t < work s"
proof (induction rule: closer_step.induct)
  case (leave s t ws r)
  then show ?case using after_call_work [of r] by (simp add: work_def)
qed (auto simp: work_def)

lemma worker_progress:
  assumes "closer_inv s" "x \<in># workers s" "\<not> is_gone (snd x)" "\<forall>f. \<exists>r. behaves f r"
  shows "\<exists>e t. internal e \<and> closer_step behaves s e t"
proof -
  obtain tk w where x: "x = (tk, w)" by (cases x)
  with assms(2) obtain ws where ws: "workers s = add_mset (tk, w) ws" by (metis mset_add)
  show ?thesis
  proof (cases w)
    case Ready
    with ws show ?thesis by (metis closer_step.enter internal.simps(3))
  next
    case Running
    with ws assms(4) show ?thesis by (metis closer_step.leave internal.simps(4))
  next
    case (Sending e p)
    with ws assms room_for_errors [of s tk e p] show ?thesis
      by (metis closer_step.send internal.simps(5) union_single_eq_member)
  next
    case (Exiting oe)
    moreover have "0 < wg s" using assms(1) ws Exiting by (simp add: closer_inv_def workers_ok_def)
    ultimately show ?thesis using ws by (metis closer_step.exit internal.simps(6))
  next
    case (Gone oe)
    with assms(3) x show ?thesis by simp
  qed
qed

lemma CloseAll_progress:
  assumes "closer_inv s" "\<forall>f. \<exists>r. behaves f r" "phase s \<noteq> Idle" "\<nexists>r. phase s = Returned r"
  shows "\<exists>e t. internal e \<and> closer_step behaves s e t"
proof (cases "phase s")
  case (Spawning ts)
  then show ?thesis by (cases ts) (metis closer_step.spawned internal.simps(2), metis closer_step.spawn internal.simps(1))
next
  case (Reading r)
  show ?thesis
  proof (cases "\<exists>x \<in># workers s. \<not> is_gone (snd x)")
    case True
    with assms worker_progress [OF assms(1)] show ?thesis by blast
  next
    case False
    then have "wg s = 0" using assms(1) by (auto simp: closer_inv_def workers_ok_def filter_mset_eq_conv)
    moreover have "waiting s \<or> errCh_closed s" using assms(1) Reading by (simp add: closer_inv_def phase_ok_def)
    ultimately show ?thesis
      using Reading by (cases "errCh s")
        (metis closer_step.close closer_step.read_closed internal.simps(7,9), metis closer_step.read internal.simps(8))
  qed
qed (use assms in auto)

text \<open>So every schedule of its own steps ends, within \<open>work\<close> steps, and ends with \<open>CloseAll\<close> returned.\<close>

lemma other_step_works:
  "closer_step behaves s e t \<Longrightarrow> phase s \<noteq> Idle \<Longrightarrow> phase t \<noteq> Idle \<and> (internal e \<or> work t = work s)"
  by (induction rule: closer_step.induct) (auto simp: work_def closer_Add_def Configure_def Let_def)

lemma internal_steps_bounded:
  "runs (closer_step behaves) s es t \<Longrightarrow> phase s \<noteq> Idle \<Longrightarrow> length (filter internal es) + work t \<le> work s"
proof (induction rule: runs.induct)
  case (go s e t es u)
  from other_step_works [OF go.hyps(1) go.prems] go.IH internal_step_works [OF go.hyps(1)]
  show ?case by fastforce
qed simp

lemma phase_not_Idle_runs: "runs (closer_step behaves) s es t \<Longrightarrow> phase s \<noteq> Idle \<Longrightarrow> phase t \<noteq> Idle"
  by (induction rule: runs.induct) (auto dest: other_step_works)

section \<open>Results of the functions\<close>

text \<open>A goroutine's state is explained by a way its function can end.\<close>

fun explained :: "('f \<Rightarrow> call_end \<Rightarrow> bool) \<Rightarrow> 'f \<Rightarrow> worker \<Rightarrow> bool" where
  "explained behaves f (Sending e p) = (\<exists>r. behaves f r \<and> after_call r = Sending e p)"
| "explained behaves f (Exiting None) = behaves f (Returns None)"
| "explained behaves f (Exiting (Some e)) = (\<exists>r p. behaves f r \<and> after_call r = Sending e p)"
| "explained behaves f (Gone None) = behaves f (Returns None)"
| "explained behaves f (Gone (Some e)) = (\<exists>r p. behaves f r \<and> after_call r = Sending e p)"
| "explained behaves f _ = True"

lemma explained_Gone [simp]: "explained behaves f (Gone oe) = explained behaves f (Exiting oe)"
  by (cases oe) simp_all

lemma explained_after_call: "behaves f r \<Longrightarrow> explained behaves f (after_call r)"
  by (cases r rule: after_call.cases) force+

lemma explained_step:
  "closer_step behaves s e t \<Longrightarrow> \<forall>x \<in># workers s. explained behaves (task_fun (fst x)) (snd x) \<Longrightarrow>
     \<forall>x \<in># workers t. explained behaves (task_fun (fst x)) (snd x)"
  by (induction rule: closer_step.induct) (auto simp: closer_Add_def Configure_def Let_def explained_after_call)

interpretation explaining: safe_machine "closer_step behaves" "\<lambda>s. \<forall>x \<in># workers s. explained behaves (task_fun (fst x)) (snd x)"
  for behaves :: "'f \<Rightarrow> call_end \<Rightarrow> bool"
  by unfold_locales (rule explained_step)

lemma explained_runs:
  "runs (closer_step behaves) (closer_New t) es s \<Longrightarrow> \<forall>x \<in># workers s. explained behaves (task_fun (fst x)) (snd x)"
  by (erule explaining.runs_inv) (simp add: closer_New_def)

lemma no_errors_sent: "sent_errors ws = {#} \<Longrightarrow> x \<in># ws \<Longrightarrow> snd x = Gone oe \<Longrightarrow> oe = None"
  by (cases oe) (auto simp: sent_errors_def)

text \<open>What is registered before the shutdown begins is taken by it.\<close>

definition keeps :: "'f task set \<Rightarrow> 'f closer \<Rightarrow> bool" where
  "keeps F s = (F \<subseteq> (if phase s = Idle then set (funcs s) else set (taken s)))"

lemma keeps_step: "closer_step behaves s e t \<Longrightarrow> keeps F s \<Longrightarrow> keeps F t"
  by (induction rule: closer_step.induct) (auto simp: keeps_def closer_Add_def Configure_def Let_def)

interpretation keeping: safe_machine "closer_step behaves" "keeps F"
  for behaves :: "'f \<Rightarrow> call_end \<Rightarrow> bool" and F
  by unfold_locales (rule keeps_step)

text \<open>So when \<open>CloseAll\<close> has returned, every such function has been started.\<close>

lemma CloseAll_starts_all:
  assumes "closer_inv s" "phase s = Idle" "runs (closer_step behaves) s es t" "phase t = Returned r"
  shows "set (funcs s) \<subseteq> fst ` set_mset (workers t)"
proof -
  have "keeps (set (funcs s)) t"
    using keeping.runs_inv [OF assms(3)] assms(2) by (simp add: keeps_def)
  moreover have "image_mset fst (workers t) = mset (taken t)"
    using closing.runs_inv [OF assms(3,1)] assms(4) by (simp add: closer_inv_def workers_ok_def)
  then have "set (taken t) = fst ` set_mset (workers t)" by (metis set_image_mset set_mset_mset)
  ultimately show ?thesis using assms(4) by (simp add: keeps_def)
qed

text \<open>And when its result is nil, every one of them has returned nil.\<close>

lemma CloseAll_nil:
  assumes "closer_inv s" "\<forall>x \<in># workers s. explained behaves (task_fun (fst x)) (snd x)"
    "phase s = Returned None" "x \<in># workers s"
  shows "snd x = Gone None" "behaves (task_fun (fst x)) (Returns None)"
proof -
  have all: "\<forall>x \<in># workers s. is_gone (snd x)" if "errCh_closed s"
    using assms(1) that by (fastforce simp: closer_inv_def channel_ok_def workers_ok_def filter_mset_eq_conv)
  have "taken s \<noteq> []" using assms(1,3,4) by (auto simp: closer_inv_def workers_ok_def)
  then have "LogAll \<in> set (clog s)" using assms(1,3) by (auto simp: closer_inv_def phase_ok_def split: if_splits)
  with assms(1,3) all have c: "\<forall>x \<in># workers s. is_gone (snd x)" "sent_errors (workers s) = {#}"
    by (auto simp: closer_inv_def channel_ok_def phase_ok_def first_error_def split: list.splits)
  obtain oe where "snd x = Gone oe" using c(1) assms(4) by (cases "snd x") auto
  with no_errors_sent [OF c(2) assms(4)] assms(2,4)
  show "snd x = Gone None" "behaves (task_fun (fst x)) (Returns None)" by fastforce+
qed

end
