(* ===== verification/Pg.thy ===== *)
theory Pg
  imports Machine Go_Text
begin

text \<open>
  The Postgres client of the go-kit: \<open>client/db/prettier\<close>, \<open>client/db/pg\<close> and the settings
  \<open>internal/config/env/pg.go\<close> it is built from. The driver (pgx and scany) is a parameter: a
  record of its calls on a connection. The world has a clock in nanoseconds, which every driver
  call may advance, and the lines of the debug log.
\<close>

section \<open>Pretty queries\<close>

text \<open>An argument: a string, a byte slice, or another value with its text under \<open>%v\<close>.\<close>

datatype sql_arg = ArgString string | ArgBytes bytes | ArgOther string

fun arg_text :: "sql_arg \<Rightarrow> string" where
  "arg_text (ArgString v) = strconv_Quote v"
| "arg_text (ArgBytes v) = strconv_Quote v"
| "arg_text (ArgOther v) = v"

definition PlaceholderDollar :: string where
  "PlaceholderDollar = ''$''"

fun pretty_loop :: "string \<Rightarrow> nat \<Rightarrow> sql_arg list \<Rightarrow> string \<Rightarrow> string" where
  "pretty_loop placeholder i [] query = query"
| "pretty_loop placeholder i (param # params) query =
     pretty_loop placeholder (Suc i) params (ReplaceAll query (placeholder @ itoa (int (Suc i))) (arg_text param))"

definition Pretty :: "string \<Rightarrow> string \<Rightarrow> sql_arg list \<Rightarrow> string" where
  "Pretty query placeholder args =
    TrimSpace (ReplaceAll (ReplaceAll (pretty_loop placeholder 0 args query) [CHR 0x09] []) [CHR 0x0A] '' '')"

text \<open>The query of a log line is on one line.\<close>

lemma Pretty_one_line: "CHR 0x0A \<notin> set (Pretty query placeholder args)"
  using set_TrimSpace [of "ReplaceAll (ReplaceAll (pretty_loop placeholder 0 args query) [CHR 0x09] []) [CHR 0x0A] '' ''"]
    ReplaceAll_char [of "CHR 0x0A" "'' ''" "ReplaceAll (pretty_loop placeholder 0 args query) [CHR 0x09] []"]
  by (auto simp: Pretty_def)

text \<open>
  The first placeholder is also replaced inside the tenth and the ones after it: with ten
  arguments the log shows the first one, a quote and a zero in place of the tenth.
\<close>

lemma Pretty_ten_arguments:
  "Pretty ''$1 $10'' PlaceholderDollar (ArgOther ''a'' # replicate 8 (ArgOther ''x'') @ [ArgOther ''z'']) = ''a a0''"
  by code_simp

section \<open>Settings\<close>

record pg_raw_config =
  raw_DSN :: string
  raw_Host :: string
  raw_Port :: string
  raw_Database :: string
  raw_User :: string
  raw_Password :: string
  raw_SSLMode :: string
  raw_Timeout :: int
  raw_NeedLog :: bool

record pg_config =
  DSN :: string
  Timeout :: int
  NeedLog :: bool

definition NewPGConfig :: "go_error + pg_raw_config \<Rightarrow> go_error + pg_config" where
  "NewPGConfig parse =
    (case parse of Inl err \<Rightarrow> Inl err
     | Inr raw \<Rightarrow>
        if raw_DSN raw \<noteq> [] then Inr \<lparr>DSN = raw_DSN raw, Timeout = raw_Timeout raw, NeedLog = raw_NeedLog raw\<rparr>
        else if raw_Host raw = [] \<or> raw_Port raw = [] \<or> raw_Database raw = [] \<or> raw_User raw = [] \<or> raw_Password raw = []
        then Inl (ErrorString (''missing required environment variables for database connection (Tip: you can just define PG_DSN in environment)''))
        else Inr \<lparr>DSN = ''host='' @ raw_Host raw @ '' port='' @ raw_Port raw @ '' dbname='' @ raw_Database raw @
            '' user='' @ raw_User raw @ '' password='' @ raw_Password raw @ '' sslmode='' @ raw_SSLMode raw,
            Timeout = raw_Timeout raw, NeedLog = raw_NeedLog raw\<rparr>)"

section \<open>Contexts with deadlines\<close>

text \<open>
  A context of the client also answers \<open>ctx.Deadline()\<close>. A context with a deadline ends at it
  at the latest; \<open>context.WithTimeout\<close> keeps an earlier deadline of its parent, and cancelling
  ends a context now if it has not ended before.
\<close>

record pg_ctx = ctx +
  Deadline :: "nat option"

definition ends_by :: "nat \<Rightarrow> ctx_cause \<Rightarrow> pg_ctx \<Rightarrow> pg_ctx" where
  "ends_by t cause c = (case ctx_done c of
     Some (d, k) \<Rightarrow> if d \<le> t then c else c\<lparr>ctx_done := Some (t, cause)\<rparr>
   | None \<Rightarrow> c\<lparr>ctx_done := Some (t, cause)\<rparr>)"

definition WithTimeout :: "pg_ctx \<Rightarrow> nat \<Rightarrow> nat \<Rightarrow> pg_ctx" where
  "WithTimeout c t timeout =
    (case Deadline c of
       Some d \<Rightarrow> if d \<le> t + timeout then c else (ends_by (t + timeout) Expired c)\<lparr>Deadline := Some (t + timeout)\<rparr>
     | None \<Rightarrow> (ends_by (t + timeout) Expired c)\<lparr>Deadline := Some (t + timeout)\<rparr>)"

definition pg_ctx_ok :: "pg_ctx \<Rightarrow> bool" where
  "pg_ctx_ok c = (\<forall>d. Deadline c = Some d \<longrightarrow> (\<exists>t k. ctx_done c = Some (t, k) \<and> t \<le> d))"

definition pg_ExtractTx :: "pg_ctx \<Rightarrow> nat option" where
  "pg_ExtractTx c = ExtractTx (ctx.truncate c)"

text \<open>
  \<open>withOpTimeout\<close>: the context of the operation and whether its cancel function ends it
  (the other cancel function does nothing). A nil configuration is \<open>None\<close>.
\<close>

definition withOpTimeout :: "pg_config option \<Rightarrow> nat \<Rightarrow> pg_ctx \<Rightarrow> pg_ctx \<times> bool" where
  "withOpTimeout cfg t c =
    (case cfg of None \<Rightarrow> (c, False)
     | Some cf \<Rightarrow>
        if Timeout cf \<le> 0 then (c, False)
        else
          (case Deadline c of
             Some dl \<Rightarrow> if int dl - int t \<le> Timeout cf then (c, False) else (WithTimeout c t (nat (Timeout cf)), True)
           | None \<Rightarrow> (WithTimeout c t (nat (Timeout cf)), True)))"

definition run_cancel :: "bool \<Rightarrow> nat \<Rightarrow> pg_ctx \<Rightarrow> pg_ctx" where
  "run_cancel own t c = (if own then ends_by t Cancelled c else c)"

section \<open>The client\<close>

record db_Query =
  Name :: string
  QueryRaw :: string

datatype pg_conn = Pool | InTx nat

text \<open>The pool of the driver and a transaction taken from a context both execute statements.\<close>

record ('w, 'tag, 'rows, 'row, 'dest) driver =
  drv_Exec :: "pg_conn \<Rightarrow> pg_ctx \<Rightarrow> string \<Rightarrow> sql_arg list \<Rightarrow> ('w, go_error, 'tag) op"
  drv_Query :: "pg_conn \<Rightarrow> pg_ctx \<Rightarrow> string \<Rightarrow> sql_arg list \<Rightarrow> ('w, go_error, 'rows) op"
  drv_QueryRow :: "pg_conn \<Rightarrow> pg_ctx \<Rightarrow> string \<Rightarrow> sql_arg list \<Rightarrow> 'w \<Rightarrow> 'row \<times> 'w"
  drv_ScanOne :: "pg_ctx \<Rightarrow> 'rows \<Rightarrow> ('w, go_error, 'dest) op"
  drv_ScanAll :: "pg_ctx \<Rightarrow> 'rows \<Rightarrow> ('w, go_error, 'dest list) op"
  drv_Ping :: "pg_ctx \<Rightarrow> ('w, go_error, unit) op"
  drv_Begin :: "pg_ctx \<Rightarrow> ('w, go_error, nat) op"

record pg_log_line =
  lg_name :: string
  lg_in_tx :: bool
  lg_args_len :: nat
  lg_query :: string

record pg_world = clocked +
  pg_log :: "pg_log_line list"

definition conn_of :: "pg_ctx \<Rightarrow> pg_conn" where
  "conn_of c = (case pg_ExtractTx c of Some tx \<Rightarrow> InTx tx | None \<Rightarrow> Pool)"

definition logQuery :: "pg_config option \<Rightarrow> pg_ctx \<Rightarrow> db_Query \<Rightarrow> sql_arg list \<Rightarrow> 'x pg_world_scheme \<Rightarrow> unit go_run \<times> 'x pg_world_scheme" where
  "logQuery cfg c q args w =
    (case cfg of None \<Rightarrow> (Panic nil_dereference, w)
     | Some cf \<Rightarrow>
        if \<not> NeedLog cf then (Done (), w)
        else (Done (), w\<lparr>pg_log := pg_log w @ [\<lparr>lg_name = Name q, lg_in_tx = (pg_ExtractTx c \<noteq> None),
               lg_args_len = length args, lg_query = Pretty (QueryRaw q) PlaceholderDollar args\<rparr>]\<rparr>))"

definition ExecContext ::
  "('x pg_world_scheme, 'tag, 'rows, 'row, 'dest) driver \<Rightarrow> pg_config option \<Rightarrow> pg_ctx \<Rightarrow> db_Query \<Rightarrow> sql_arg list
    \<Rightarrow> 'x pg_world_scheme \<Rightarrow> (go_error + 'tag) go_run \<times> 'x pg_world_scheme" where
  "ExecContext drv cfg c q args w =
    (case withOpTimeout cfg (now w) c of (c', own) \<Rightarrow>
     (case logQuery cfg c' q args w of
        (Panic m, w1) \<Rightarrow> (Panic m, w1)
      | (Done _, w1) \<Rightarrow>
         (case drv_Exec drv (conn_of c') c' (QueryRaw q) args w1 of (r, w2) \<Rightarrow> (Done r, w2))))"

text \<open>The rows come with the context they are read under, as it is after the deferred cancel.\<close>

definition QueryContext ::
  "('x pg_world_scheme, 'tag, 'rows, 'row, 'dest) driver \<Rightarrow> pg_config option \<Rightarrow> pg_ctx \<Rightarrow> db_Query \<Rightarrow> sql_arg list
    \<Rightarrow> 'x pg_world_scheme \<Rightarrow> (go_error + 'rows \<times> pg_ctx) go_run \<times> 'x pg_world_scheme" where
  "QueryContext drv cfg c q args w =
    (case withOpTimeout cfg (now w) c of (c', own) \<Rightarrow>
     (case logQuery cfg c' q args w of
        (Panic m, w1) \<Rightarrow> (Panic m, w1)
      | (Done _, w1) \<Rightarrow>
         (case drv_Query drv (conn_of c') c' (QueryRaw q) args w1 of
            (Inl err, w2) \<Rightarrow> (Done (Inl err), w2)
          | (Inr rows, w2) \<Rightarrow> (Done (Inr (rows, run_cancel own (now w2) c')), w2))))"

definition QueryRowContext ::
  "('x pg_world_scheme, 'tag, 'rows, 'row, 'dest) driver \<Rightarrow> pg_config option \<Rightarrow> pg_ctx \<Rightarrow> db_Query \<Rightarrow> sql_arg list
    \<Rightarrow> 'x pg_world_scheme \<Rightarrow> 'row go_run \<times> 'x pg_world_scheme" where
  "QueryRowContext drv cfg c q args w =
    (case logQuery cfg c q args w of
       (Panic m, w1) \<Rightarrow> (Panic m, w1)
     | (Done _, w1) \<Rightarrow> (case drv_QueryRow drv (conn_of c) c (QueryRaw q) args w1 of (row, w2) \<Rightarrow> (Done row, w2)))"

definition ScanOneContext ::
  "('x pg_world_scheme, 'tag, 'rows, 'row, 'dest) driver \<Rightarrow> pg_config option \<Rightarrow> pg_ctx \<Rightarrow> db_Query \<Rightarrow> sql_arg list
    \<Rightarrow> 'x pg_world_scheme \<Rightarrow> (go_error + 'dest) go_run \<times> 'x pg_world_scheme" where
  "ScanOneContext drv cfg c q args w =
    (case QueryContext drv cfg c q args w of
       (Panic m, w1) \<Rightarrow> (Panic m, w1)
     | (Done (Inl err), w1) \<Rightarrow> (Done (Inl err), w1)
     | (Done (Inr (rows, rc)), w1) \<Rightarrow> (case drv_ScanOne drv rc rows w1 of (r, w2) \<Rightarrow> (Done r, w2)))"

definition ScanAllContext ::
  "('x pg_world_scheme, 'tag, 'rows, 'row, 'dest) driver \<Rightarrow> pg_config option \<Rightarrow> pg_ctx \<Rightarrow> db_Query \<Rightarrow> sql_arg list
    \<Rightarrow> 'x pg_world_scheme \<Rightarrow> (go_error + 'dest list) go_run \<times> 'x pg_world_scheme" where
  "ScanAllContext drv cfg c q args w =
    (case QueryContext drv cfg c q args w of
       (Panic m, w1) \<Rightarrow> (Panic m, w1)
     | (Done (Inl err), w1) \<Rightarrow> (Done (Inl err), w1)
     | (Done (Inr (rows, rc)), w1) \<Rightarrow> (case drv_ScanAll drv rc rows w1 of (r, w2) \<Rightarrow> (Done r, w2)))"

definition Ping ::
  "('x pg_world_scheme, 'tag, 'rows, 'row, 'dest) driver \<Rightarrow> pg_config option \<Rightarrow> pg_ctx \<Rightarrow> ('x pg_world_scheme, go_error, unit) op" where
  "Ping drv cfg c = (\<lambda>w. case withOpTimeout cfg (now w) c of (c', own) \<Rightarrow> drv_Ping drv c' w)"

definition BeginTx ::
  "('x pg_world_scheme, 'tag, 'rows, 'row, 'dest) driver \<Rightarrow> pg_config option \<Rightarrow> pg_ctx \<Rightarrow> ('x pg_world_scheme, go_error, nat) op" where
  "BeginTx drv cfg c = (\<lambda>w. case withOpTimeout cfg (now w) c of (c', own) \<Rightarrow> drv_Begin drv c' w)"

definition NewPGClient :: "(string \<Rightarrow> go_error + 'pool) \<Rightarrow> pg_config \<Rightarrow> go_error + 'pool" where
  "NewPGClient connect cfg =
    (case connect (DSN cfg) of
       Inl err \<Rightarrow> Inl (ErrorString (''failed to connect to db: '' @ error_text err))
     | Inr pool \<Rightarrow> Inr pool)"

section \<open>The context of an operation\<close>

definition pg_Err :: "pg_ctx \<Rightarrow> nat \<Rightarrow> go_error option" where
  "pg_Err c t = ctx_Err (ctx.truncate c) t"

lemma pg_Err_ends_by: "t \<le> t' \<Longrightarrow> pg_Err (ends_by t k c) t' \<noteq> None"
  by (auto simp: pg_Err_def ends_by_def ctx_Err_def ctx.truncate_def split: option.splits)

lemma pg_Err_mono: "pg_Err c t' = Some e \<Longrightarrow> \<exists>e'. pg_Err (ends_by t k c) t' = Some e'"
  by (auto simp: pg_Err_def ends_by_def ctx_Err_def ctx.truncate_def split: option.splits if_splits)

lemma pg_Err_Deadline [simp]: "pg_Err (c\<lparr>Deadline := d\<rparr>) t = pg_Err c t"
  by (simp add: pg_Err_def ctx_Err_def ctx.truncate_def)

lemma ends_by_vals [simp]: "ctx_vals (ends_by t k c) = ctx_vals c" "Deadline (ends_by t k c) = Deadline c"
  by (auto simp: ends_by_def split: option.splits)

text \<open>The operation ends when its caller does and when its timeout has passed, whichever is first.\<close>

definition op_deadline :: "pg_ctx \<Rightarrow> nat \<Rightarrow> nat" where
  "op_deadline c latest = (case Deadline c of None \<Rightarrow> latest | Some d \<Rightarrow> min d latest)"

lemma withOpTimeout_context:
  assumes "withOpTimeout (Some cf) t c = (c', own)" "0 < Timeout cf"
  shows "Deadline c' = Some (op_deadline c (t + nat (Timeout cf)))"
    and "conn_of c' = conn_of c"
    and "pg_Err c t' \<noteq> None \<Longrightarrow> pg_Err c' t' \<noteq> None"
    and "\<not> own \<longleftrightarrow> (\<exists>d. Deadline c = Some d \<and> d \<le> t + nat (Timeout cf))"
  using assms
  by (auto simp: withOpTimeout_def WithTimeout_def op_deadline_def conn_of_def pg_ExtractTx_def ExtractTx_def
      ctx.truncate_def pg_Err_mono le_nat_iff split: if_splits option.splits)

lemma withOpTimeout_ok:
  "pg_ctx_ok c \<Longrightarrow> withOpTimeout cfg t c = (c', own) \<Longrightarrow> pg_ctx_ok c'"
  by (auto simp: withOpTimeout_def WithTimeout_def pg_ctx_ok_def ends_by_def split: if_splits option.splits)

lemma logQuery_now: "logQuery cfg c q args w = (r, w1) \<Longrightarrow> now w1 = now w"
  by (cases w) (auto simp: logQuery_def split: option.splits if_splits)

lemma QueryContext_run:
  assumes "QueryContext drv (Some cf) c q args w = (Done (Inr (rows, rc)), w')"
  shows "\<exists>c' own w1. withOpTimeout (Some cf) (now w) c = (c', own) \<and> now w1 = now w \<and>
    drv_Query drv (conn_of c') c' (QueryRaw q) args w1 = (Inr rows, w') \<and> rc = run_cancel own (now w') c'"
proof -
  obtain c' own where op: "withOpTimeout (Some cf) (now w) c = (c', own)" by fastforce
  obtain u w1 where lg: "logQuery (Some cf) c' q args w = (u, w1)" by fastforce
  show ?thesis
    using assms logQuery_now [OF lg]
    by (auto simp: QueryContext_def op lg split: prod.splits sum.splits go_run.splits)
qed

end
