(* ===== verification/Kit_Props.thy ===== *)
theory Kit_Props
  imports Ratelimiter Closer Pg
begin

text \<open>
  The properties of the shared go-kit parts that run beside every service: the rate limiter, the
  graceful shutdown and the Postgres client.
\<close>

section \<open>Rate limiter\<close>

text \<open>
  C35. The limiter of accepted settings. With at least one nanosecond for each request of the
  limit, the number of handlers run between two moments of any schedule of requests, ticks (late
  ones included) and waiting is at most the limit, plus three, plus one for each replenishing
  interval of that time, and the bucket is never over its limit. With a limit above the number of
  nanoseconds of the period the limiter is nil and every request panics.
\<close>

theorem rate_limit_window:
  assumes "NewRateLimiterConfig parse = Inr cfg" "Period cfg < 2 ^ 63"
    and "NewTokenBucketLimiter cfg = Some (Done l)"
    and "runs (limit_step (counted h)) (limiter_started l (w, 0)) es s"
    and "runs (limit_step (counted h)) s es' t"
  shows "(case l of
      None \<Rightarrow> Period cfg < Limit cfg \<and> RateLimiterUnary h (l, w) = (Panic nil_dereference, None, w)
    | Some _ \<Rightarrow>
       int (snd (served t)) - int (snd (served s)) \<le> Limit cfg + 3 + (elapsed t - elapsed s) div (Period cfg div Limit cfg) \<and>
       (\<exists>b. lim t = Some b \<and> int (tokenBucketCh b) \<le> Limit cfg))"
proof -
  have valid: "1 \<le> Limit cfg" "1 \<le> Period cfg"
    using assms(1) by (auto simp: NewRateLimiterConfig_def split: sum.splits if_splits)
  note new = NewTokenBucketLimiter_valid [OF valid assms(2)]
  show ?thesis
  proof (cases l)
    case None
    then show ?thesis using new assms(3) by (simp add: RateLimiterUnary_None split: if_splits)
  next
    case (Some b)
    let ?c = "nat (Limit cfg)" and ?i = "Period cfg div Limit cfg"
    have "\<not> Period cfg < Limit cfg" and b: "b = \<lparr>tokenBucketCh = ?c, bucket_cap = ?c, interval = ?i\<rparr>"
      using new assms(3) Some by (auto split: if_splits)
    then have "0 < ?i" using valid by (simp add: pos_imp_zdiv_pos_iff)
    then have "bucket_inv ?c ?i (limiter_started l (w, 0))"
      using Some b by (simp add: bucket_inv_def limiter_started_def)
    with assms(4) have inv: "bucket_inv ?c ?i s" by (rule bucket.runs_inv)
    with assms(5) have "bucket_inv ?c ?i t" by (rule bucket.runs_inv)
    then show ?thesis using window_bound [OF assms(5) inv] valid Some by (auto simp: bucket_inv_def)
  qed
qed

text \<open>A limit of two requests a second: three requests at once, the third refused.\<close>

definition example_limit :: rate_limiter_config where
  "example_limit = \<lparr>Limit = 2, Period = 1000000000\<rparr>"

definition example_bucket :: "nat \<Rightarrow> limiter" where
  "example_bucket n = \<lparr>tokenBucketCh = n, bucket_cap = 2, interval = 500000000\<rparr>"

lemma example_requests:
  "runs (limit_step (counted (returnE ()))) (limiter_started (Some (example_bucket 2)) ((), 0))
     [Request (Done (Inr ())), Request (Done (Inr ())), Request (Done (Inl (StatusError G_ResourceExhausted ''to many requests'')))]
     ((limiter_started (Some (example_bucket 0)) ((), 2)))"
proof -
  have step: "limit_step (counted (returnE ())) (limiter_started (Some (example_bucket (Suc n))) ((), k)) (Request (Done (Inr ())))
      (limiter_started (Some (example_bucket n)) ((), Suc k))" for n k
    using limit_step.request [of "counted (returnE ())" "limiter_started (Some (example_bucket (Suc n))) ((), k)"]
    by (simp add: RateLimiterUnary_Some limiter_started_def example_bucket_def counted_def returnE_def)
  have refused: "limit_step (counted (returnE ())) (limiter_started (Some (example_bucket 0)) ((), k))
      (Request (Done (Inl (StatusError G_ResourceExhausted ''to many requests'')))) (limiter_started (Some (example_bucket 0)) ((), k))" for k
    using limit_step.request [of "counted (returnE ())" "limiter_started (Some (example_bucket 0)) ((), k)"]
    by (simp add: RateLimiterUnary_Some limiter_started_def example_bucket_def)
  show ?thesis unfolding numeral_2_eq_2
    by (rule runs.go, rule step, rule runs.go, rule step, rule runs.go, rule refused, rule runs.stop)
qed

theorem rate_limit_window_witness:
  "\<exists>es t. runs (limit_step (counted (returnE ()))) (limiter_started (Some (example_bucket 2)) ((), 0)) es t \<and>
     length es = 3 \<and> snd (served t) = 2 \<and> int (snd (served t)) \<le> 2 + 3 + elapsed t div 500000000"
proof -
  have cfg: "NewRateLimiterConfig (Inr example_limit) = Inr example_limit" "Period example_limit < 2 ^ 63"
    "NewTokenBucketLimiter example_limit = Some (Done (Some (example_bucket 2)))"
    by (simp_all add: NewRateLimiterConfig_def NewTokenBucketLimiter_valid example_limit_def example_bucket_def)
  from rate_limit_window [OF cfg runs.stop example_requests] example_requests
  show ?thesis by (fastforce simp: limiter_started_def example_limit_def)
qed

section \<open>Graceful shutdown\<close>

text \<open>
  C36. Whatever the schedule of the goroutines, the callers and the clock, a shutdown starts every
  function registered before it exactly once, no send on a closed channel and no negative wait
  group can happen, and an error never waits for room in the channel. When \<open>CloseAll\<close> saw the
  channel closed, every function has ended and its result is the first error received, all of
  them having been logged. When it returns nil, every function it took has returned nil.
\<close>

theorem CloseAll_collects_errors:
  assumes "runs (closer_step behaves) (closer_New timeout) es s"
  shows "\<not> crashed s \<and>
    image_mset fst (workers s) + mset (unspawned (phase s)) = mset (taken s) \<and>
    (\<forall>tk e p. (tk, Sending e p) \<in># workers s \<longrightarrow> length (errCh s) < errCap s \<and> \<not> errCh_closed s) \<and>
    (\<forall>r. phase s = Returned r \<and> LogAll \<in> set (clog s) \<longrightarrow>
       image_mset fst (workers s) = mset (taken s) \<and> (\<forall>x \<in># workers s. is_gone (snd x)) \<and>
       mset (log_errors (clog s)) = sent_errors (workers s) \<and> r = first_error (log_errors (clog s))) \<and>
    (phase s = Returned None \<longrightarrow>
       image_mset fst (workers s) = mset (taken s) \<and>
       (\<forall>(tk, w) \<in># workers s. w = Gone None \<and> behaves (task_fun tk) (Returns None)))"
proof -
  have inv: "closer_inv s" using assms by (rule closer_reachable_inv)
  have all: "\<forall>x \<in># workers s. is_gone (snd x)" if "errCh_closed s"
    using inv that by (fastforce simp: closer_inv_def channel_ok_def workers_ok_def filter_mset_eq_conv)
  have collected: "image_mset fst (workers s) = mset (taken s) \<and> (\<forall>x \<in># workers s. is_gone (snd x)) \<and>
       mset (log_errors (clog s)) = sent_errors (workers s) \<and> r = first_error (log_errors (clog s))"
    if "phase s = Returned r" "LogAll \<in> set (clog s)" for r
    using inv that all by (auto simp: closer_inv_def channel_ok_def workers_ok_def phase_ok_def)
  have nil: "image_mset fst (workers s) = mset (taken s) \<and>
       (\<forall>(tk, w) \<in># workers s. w = Gone None \<and> behaves (task_fun tk) (Returns None))" if "phase s = Returned None"
    using inv that CloseAll_nil [OF inv explained_runs [OF assms] that] by (fastforce simp: closer_inv_def workers_ok_def)
  show ?thesis
    using inv room_for_errors [OF inv] collected nil by (auto simp: closer_inv_def workers_ok_def)
qed

text \<open>
  C37. \<open>CloseAll\<close> always returns when the registered functions do, whatever else happens: once it
  has begun, the steps of its goroutines in any schedule are bounded by \<open>work\<close>, and a schedule
  that leaves none of them enabled has it returned. A later call returns at once.
\<close>

theorem CloseAll_returns:
  assumes "runs (closer_step behaves) (closer_New timeout) es s" "\<forall>f. \<exists>r. behaves f r" "phase s \<noteq> Idle"
    and "runs (closer_step behaves) s es' t"
  shows "length (filter internal es') \<le> work s \<and>
    ((\<exists>e u. internal e \<and> closer_step behaves t e u) \<or> (\<exists>r. phase t = Returned r)) \<and>
    (\<forall>r. phase t = Returned r \<and> 0 < callers t \<longrightarrow>
       closer_step behaves t Again (t\<lparr>callers := callers t - 1\<rparr>))"
proof -
  have "runs (closer_step behaves) (closer_New timeout) (es @ es') t"
    using assms(1,4) by (auto simp: runs_append)
  then have "closer_inv t" by (rule closer_reachable_inv)
  from CloseAll_progress [OF this assms(2) phase_not_Idle_runs [OF assms(4,3)]] internal_steps_bounded [OF assms(4,3)]
  show ?thesis by (auto intro: closer_step.again simp del: One_nat_def)
qed

text \<open>
  Two functions, the database pool added first and the server second: in this schedule the pool
  is closed, with an error, before the server is stopped, although the goroutines are started
  newest first; the error is the result.
\<close>

definition example_tasks :: "string task list" where
  "example_tasks = [Named ''PGClient'' ''pool'', Named ''GRPC server'' ''server'']"

definition example_ends :: "string \<Rightarrow> call_end \<Rightarrow> bool" where
  "example_ends f r = (if f = ''pool'' then r = Returns (Some EOF) else r = Returns None)"

definition example_events :: "string closer_event list" where
  "example_events =
     [Added example_tasks, Called, Began, Spawned (Named ''GRPC server'' ''server''), Spawned (Named ''PGClient'' ''pool''),
      Spawned_all, Entered (Named ''PGClient'' ''pool''), Left (Named ''PGClient'' ''pool'') (Returns (Some EOF)),
      Sent (Named ''PGClient'' ''pool'') EOF, Exited (Named ''PGClient'' ''pool''), Read EOF,
      Entered (Named ''GRPC server'' ''server''), Left (Named ''GRPC server'' ''server'') (Returns None),
      Exited (Named ''GRPC server'' ''server''), Closed, Read_closed]"

lemma example_shutdown:
  "\<exists>s. runs (closer_step example_ends) (closer_New 0) example_events s \<and> phase s = Returned (Some EOF) \<and>
     LogAll \<in> set (clog s) \<and> size (workers s) = 2"
proof -
  let ?p = "Named ''PGClient'' ''pool''" and ?g = "Named ''GRPC server'' ''server''"
  show ?thesis
    unfolding example_events_def
    apply (rule exI, rule conjI)
     apply (rule runs.go, rule closer_step.add, simp add: closer_New_def closer_Add_def example_tasks_def)
     apply (rule runs.go, rule closer_step.call, simp)
     apply (rule runs.go, rule closer_step.begin_close, simp, simp, simp, simp)
     apply (rule runs.go, rule closer_step.spawn, simp, simp)
     apply (rule runs.go, rule closer_step.spawn, simp, simp)
     apply (rule runs.go, rule closer_step.spawned, simp, simp)
     apply (rule runs.go, rule closer_step.enter [where t = ?p and ws = "{#(?g, Ready)#}"], simp, simp)
     apply (rule runs.go, rule closer_step.leave [where t = ?p and ws = "{#(?g, Ready)#}"], simp, simp add: example_ends_def, simp)
     apply (rule runs.go, rule closer_step.send [where t = ?p and ws = "{#(?g, Ready)#}" and p = False], simp, simp, simp, simp)
     apply (rule runs.go, rule closer_step.exit [where t = ?p and oe = "Some EOF" and ws = "{#(?g, Ready)#}"], simp, simp, simp)
     apply (rule runs.go, rule closer_step.read [where es = "[]"], simp, simp, simp)
     apply (rule runs.go, rule closer_step.enter [where t = ?g and ws = "{#(?p, Gone (Some EOF))#}"], simp, simp)
     apply (rule runs.go, rule closer_step.leave [where t = ?g and ws = "{#(?p, Gone (Some EOF))#}"], simp, simp add: example_ends_def, simp)
     apply (rule runs.go, rule closer_step.exit [where t = ?g and oe = None and ws = "{#(?p, Gone (Some EOF))#}"], simp, simp, simp)
     apply (rule runs.go, rule closer_step.close, simp, simp, simp)
     apply (rule runs.go, rule closer_step.read_closed, simp, simp, simp, simp)
    apply simp
    done
qed

theorem CloseAll_collects_errors_witness:
  "\<exists>s. runs (closer_step example_ends) (closer_New 0) example_events s \<and> phase s = Returned (Some EOF) \<and>
     image_mset fst (workers s) = mset (taken s) \<and> log_errors (clog s) \<noteq> []"
proof -
  obtain s where s: "runs (closer_step example_ends) (closer_New 0) example_events s" "phase s = Returned (Some EOF)"
    "LogAll \<in> set (clog s)" using example_shutdown by blast
  from CloseAll_collects_errors [OF s(1)] s(2,3)
  have "image_mset fst (workers s) = mset (taken s)" "Some EOF = first_error (log_errors (clog s))" by blast+
  with s show ?thesis by (auto simp: first_error_def split: list.splits)
qed

theorem CloseAll_returns_witness:
  "\<exists>es s t. runs (closer_step example_ends) (closer_New 0) es s \<and> phase s = Reading None \<and>
     runs (closer_step example_ends) s (drop 6 example_events) t \<and>
     length (filter internal (drop 6 example_events)) \<le> work s"
proof -
  obtain t where "runs (closer_step example_ends) (closer_New 0) (take 6 example_events @ drop 6 example_events) t"
    using example_shutdown by auto
  then obtain s where s: "runs (closer_step example_ends) (closer_New 0) (take 6 example_events) s"
      "runs (closer_step example_ends) s (drop 6 example_events) t"
    by (auto simp: runs_append simp del: append_take_drop_id)
  have "runs (closer_step example_ends) (closer_New 0) (take 5 example_events @ [Spawned_all]) s"
    using s(1) by (simp add: example_events_def)
  then have r: "phase s = Reading None"
    by (auto simp: runs_snoc closer_step.simps)
  have "\<forall>f. \<exists>r. example_ends f r" by (metis example_ends_def)
  from CloseAll_returns [OF s(1) this _ s(2)] r s show ?thesis by auto
qed

section \<open>Postgres client\<close>

text \<open>
  C38. A query runs on the transaction of its context when there is one and on the pool otherwise,
  under a context that ends when the caller's does and whose deadline is the caller's or the
  client's timeout from now, whichever is earlier. Unless the caller's deadline was the earlier
  one, the rows come back with a context that has already ended, so the scanning of
  \<open>ScanOneContext\<close> and \<open>ScanAllContext\<close> runs under a cancelled context.
\<close>

theorem QueryContext_rows_cancelled:
  assumes "QueryContext drv (Some cf) c q args w = (Done (Inr (rows, rc)), w')" "0 < Timeout cf"
  shows "\<exists>c' w1. drv_Query drv (conn_of c) c' (QueryRaw q) args w1 = (Inr rows, w') \<and> now w1 = now w \<and>
    Deadline c' = Some (op_deadline c (now w + nat (Timeout cf))) \<and>
    (\<forall>t. pg_Err c t \<noteq> None \<longrightarrow> pg_Err c' t \<noteq> None) \<and>
    (if \<exists>d. Deadline c = Some d \<and> d \<le> now w + nat (Timeout cf) then rc = c' else pg_Err rc (now w') \<noteq> None)"
proof -
  from QueryContext_run [OF assms(1)] obtain c' own w1 where run: "withOpTimeout (Some cf) (now w) c = (c', own)"
      "now w1 = now w" "drv_Query drv (conn_of c') c' (QueryRaw q) args w1 = (Inr rows, w')" "rc = run_cancel own (now w') c'"
    by blast
  note ctx = withOpTimeout_context [OF run(1) assms(2)]
  have "if \<not> own then rc = c' else pg_Err rc (now w') \<noteq> None"
    using run(4) pg_Err_ends_by [of "now w'" "now w'"] by (simp add: run_cancel_def)
  then have "if \<exists>d. Deadline c = Some d \<and> d \<le> now w + nat (Timeout cf) then rc = c' else pg_Err rc (now w') \<noteq> None"
    by (simp only: ctx(4))
  moreover have "drv_Query drv (conn_of c) c' (QueryRaw q) args w1 = (Inr rows, w')" using run(3) by (simp only: ctx(2))
  ultimately show ?thesis using run(2) ctx(1,3) by blast
qed

text \<open>A driver that answers every query one nanosecond later.\<close>

definition example_driver :: "(unit pg_world_scheme, unit, nat, unit, unit) driver" where
  "example_driver = \<lparr>
     drv_Exec = (\<lambda>cn c s a. returnE ()),
     drv_Query = (\<lambda>cn c s a w. (Inr (length a), w\<lparr>now := Suc (now w)\<rparr>)),
     drv_QueryRow = (\<lambda>cn c s a w. ((), w)), drv_ScanOne = (\<lambda>c r. returnE ()), drv_ScanAll = (\<lambda>c r. returnE []),
     drv_Ping = (\<lambda>c. returnE ()), drv_Begin = (\<lambda>c. returnE 0)\<rparr>"

definition example_pg_ctx :: pg_ctx where
  "example_pg_ctx = ctx.extend Background \<lparr>Deadline = None\<rparr>"

theorem QueryContext_rows_cancelled_witness:
  "\<exists>rc w'. QueryContext example_driver (Some \<lparr>DSN = [], Timeout = 5000000000, NeedLog = True\<rparr>) example_pg_ctx
       \<lparr>Name = ''Get'', QueryRaw = ''SELECT $1''\<rparr> [ArgString ''a''] \<lparr>now = 7, pg_log = []\<rparr> = (Done (Inr (1, rc)), w') \<and>
     pg_Err rc (now w') \<noteq> None"
proof -
  let ?run = "QueryContext example_driver (Some \<lparr>DSN = [], Timeout = 5000000000, NeedLog = True\<rparr>) example_pg_ctx
       \<lparr>Name = ''Get'', QueryRaw = ''SELECT $1''\<rparr> [ArgString ''a''] \<lparr>now = 7, pg_log = []\<rparr>"
  obtain rc w' where run: "?run = (Done (Inr (1, rc)), w')"
    by (simp add: QueryContext_def withOpTimeout_def logQuery_def example_driver_def example_pg_ctx_def ctx.extend_def)
  from QueryContext_rows_cancelled [OF run] run show ?thesis by (auto simp: example_pg_ctx_def ctx.extend_def)
qed

end
