(* ===== verification/Kafka.thy ===== *)
theory Kafka
  imports Machine
begin

text \<open>
  The Kafka wrappers of the go-kit, \<open>go-kit/kafka\<close>: the message type, the group handler of a
  consumer with its middlewares, the consume loop and the producer. The client library (sarama)
  is a parameter: how a session marks a message, how a group consumes a session, how a producer
  sends. Log lines are left out.
\<close>

section \<open>Messages\<close>

record Message =
  Headers :: "bytes \<Rightarrow> bytes option"
  Timestamp :: int
  BlockTimestamp :: int
  Key :: bytes
  Value :: bytes
  Topic :: string
  Partition :: int
  Offset :: int

text \<open>A message as the client library delivers it; a header may be nil and so may its key.\<close>

record ConsumerMessage =
  cm_Headers :: "(bytes option \<times> bytes) option list"
  cm_Timestamp :: int
  cm_BlockTimestamp :: int
  cm_Key :: bytes
  cm_Value :: bytes
  cm_Topic :: string
  cm_Partition :: int
  cm_Offset :: int

fun extract_loop :: "(bytes option \<times> bytes) option list \<Rightarrow> (bytes \<Rightarrow> bytes option) \<Rightarrow> bytes \<Rightarrow> bytes option" where
  "extract_loop [] result = result"
| "extract_loop (Some (Some k, v) # hs) result = extract_loop hs (result(k \<mapsto> v))"
| "extract_loop (_ # hs) result = extract_loop hs result"

definition extractHeaders :: "(bytes option \<times> bytes) option list \<Rightarrow> bytes \<Rightarrow> bytes option" where
  "extractHeaders headers = extract_loop headers Map.empty"

definition to_Message :: "ConsumerMessage \<Rightarrow> Message" where
  "to_Message m = \<lparr>Headers = extractHeaders (cm_Headers m), Timestamp = cm_Timestamp m, BlockTimestamp = cm_BlockTimestamp m,
     Key = cm_Key m, Value = cm_Value m, Topic = cm_Topic m, Partition = cm_Partition m, Offset = cm_Offset m\<rparr>"

section \<open>The group handler\<close>

type_synonym 'w handler = "ctx \<Rightarrow> Message \<Rightarrow> ('w, go_error, unit) op"

text \<open>The middlewares are applied from the last to the first, so the first one is the outermost.\<close>

definition NewGroupHandler :: "'w handler \<Rightarrow> ('w handler \<Rightarrow> 'w handler) list \<Rightarrow> 'w handler" where
  "NewGroupHandler handler middlewares = foldl (\<lambda>h mw. mw h) handler (rev middlewares)"

text \<open>
  What the select of the loop can see: a message, the closed channel, or the end of the session.
  The choice of the runtime is the order of the events; \<open>None\<close> is a loop still waiting.
\<close>

datatype claim_event = Delivered ConsumerMessage | Messages_closed | Session_done

primrec ConsumeClaim ::
  "'w handler \<Rightarrow> ctx \<Rightarrow> (ConsumerMessage \<Rightarrow> 'w \<Rightarrow> 'w) \<Rightarrow> claim_event list \<Rightarrow> 'w \<Rightarrow> 'w option" where
  "ConsumeClaim handler c MarkMessage [] w = None"
| "ConsumeClaim handler c MarkMessage (e # es) w =
    (case e of
       Messages_closed \<Rightarrow> Some w
     | Session_done \<Rightarrow> Some w
     | Delivered message \<Rightarrow>
        (case handler c (to_Message message) w of
           (Inl err, w') \<Rightarrow> ConsumeClaim handler c MarkMessage es w'
         | (Inr _, w') \<Rightarrow> ConsumeClaim handler c MarkMessage es (MarkMessage message w')))"

section \<open>The consume loop\<close>

definition ErrClosedConsumerGroup :: go_error where
  "ErrClosedConsumerGroup = ErrorString ''kafka: tried to use a consumer group that was closed''"

text \<open>\<open>session\<close> is one call of the group's \<open>Consume\<close>, a session from join to rebalance.\<close>

partial_function (option) Consume ::
  "('x clocked_scheme, go_error, unit) op \<Rightarrow> ctx \<Rightarrow> 'x clocked_scheme \<Rightarrow> (go_error option \<times> 'x clocked_scheme) option" where
  "Consume session c w =
    (case session w of
       (Inl err, w') \<Rightarrow> if errors_Is err ErrClosedConsumerGroup then Some (None, w') else Some (Some err, w')
     | (Inr _, w') \<Rightarrow>
        (case ctx_Err c (now w') of
           Some err \<Rightarrow> Some (Some err, w')
         | None \<Rightarrow> Consume session c w'))"

declare Consume.simps [code]

section \<open>The producer\<close>

text \<open>\<open>sync\<close> is the client library's synchronous send of a key and a value to a topic.\<close>

definition Send :: "(string \<Rightarrow> bytes \<Rightarrow> bytes \<Rightarrow> ('w, go_error, int \<times> int) op) \<Rightarrow> string \<Rightarrow> bytes \<Rightarrow> bytes \<Rightarrow> ('w, go_error, unit) op" where
  "Send sync topic key val =
    bindE (catchE (sync topic key val) (\<lambda>err. throwE err)) (\<lambda>(partition, offset). returnE ())"

section \<open>Properties\<close>

lemma NewGroupHandler_Cons: "NewGroupHandler h (mw # mws) = mw (NewGroupHandler h mws)"
  by (simp add: NewGroupHandler_def)

text \<open>Later headers with a key win; nil headers and headers with a nil key are skipped.\<close>

fun header_pair :: "(bytes option \<times> bytes) option \<Rightarrow> (bytes \<times> bytes) list" where
  "header_pair (Some (Some k, v)) = [(k, v)]"
| "header_pair _ = []"

lemma extract_loop_map: "extract_loop hs m = m ++ map_of (rev (concat (map header_pair hs)))"
proof (induction hs m rule: extract_loop.induct)
  case (2 k v hs m)
  let ?ps = "rev (concat (map header_pair hs))"
  have "extract_loop (Some (Some k, v) # hs) m = m(k \<mapsto> v) ++ map_of ?ps"
    using 2 by (simp only: extract_loop.simps)
  also have "\<dots> = m ++ map_of (?ps @ [(k, v)])"
    by (rule ext) (simp add: map_add_def split: option.splits)
  finally show ?case by simp
qed simp_all

text \<open>The results of the handler on a run of messages, each from the state the loop left.\<close>

primrec claim_results :: "'w handler \<Rightarrow> ctx \<Rightarrow> (ConsumerMessage \<Rightarrow> 'w \<Rightarrow> 'w) \<Rightarrow> ConsumerMessage list \<Rightarrow> 'w \<Rightarrow> bool list \<times> 'w" where
  "claim_results handler c mark [] w = ([], w)"
| "claim_results handler c mark (m # ms) w =
    (case handler c (to_Message m) w of
       (Inl err, w') \<Rightarrow> (case claim_results handler c mark ms w' of (bs, w'') \<Rightarrow> (False # bs, w''))
     | (Inr _, w') \<Rightarrow> (case claim_results handler c mark ms (mark m w') of (bs, w'') \<Rightarrow> (True # bs, w'')))"

lemma ConsumeClaim_results:
  "(\<And>m. e \<noteq> Delivered m) \<Longrightarrow>
     ConsumeClaim handler c mark (map Delivered ms @ e # es) w = Some (snd (claim_results handler c mark ms w))"
  by (induction ms arbitrary: w) (auto split: claim_event.splits sum.splits prod.splits)

text \<open>
  What a session may resume from, for a position that marking moves past the marked message and
  never back, and that handlers do not move: after the loop it is past every message whose
  handler succeeded, so a message whose handler failed before one that succeeded is never
  delivered again.
\<close>

definition position_ok :: "('w \<Rightarrow> int) \<Rightarrow> (ConsumerMessage \<Rightarrow> 'w \<Rightarrow> 'w) \<Rightarrow> 'w handler \<Rightarrow> bool" where
  "position_ok pos mark handler =
    ((\<forall>m w. pos (mark m w) = max (pos w) (cm_Offset m + 1)) \<and>
     (\<forall>c m w. pos (snd (handler c m w)) = pos w))"

lemma claim_position_mono:
  assumes "position_ok pos mark handler"
  shows "claim_results handler c mark ms w = (bs, w') \<Longrightarrow> pos w \<le> pos w'"
proof (induction ms arbitrary: w bs)
  case (Cons m ms)
  obtain r w1 where run: "handler c (to_Message m) w = (r, w1)" by fastforce
  with assms have "pos w1 = pos w" by (metis position_ok_def snd_conv)
  moreover have "pos w1 \<le> pos (mark m w1)" using assms by (simp add: position_ok_def)
  ultimately show ?case using Cons run by (cases r) (fastforce split: prod.splits)+
qed simp

lemma failed_message_passed:
  assumes "position_ok pos mark handler" "claim_results handler c mark ms w = (bs, w')"
    and "sorted_wrt (<) (map cm_Offset ms)" "i < j" "j < length ms" "bs ! j"
  shows "cm_Offset (ms ! i) < pos w'"
  using assms(2-6)
proof (induction ms arbitrary: w bs i j)
  case (Cons m ms)
  obtain r w1 where run: "handler c (to_Message m) w = (r, w1)" by fastforce
  define w2 where "w2 = (case r of Inl _ \<Rightarrow> w1 | Inr _ \<Rightarrow> mark m w1)"
  obtain cs where rest: "claim_results handler c mark ms w2 = (cs, w')" "tl bs = cs"
    using Cons.prems(1) run by (cases r) (auto simp: w2_def split: prod.splits)
  obtain j' where j: "j = Suc j'" "j' < length ms" using Cons.prems(3,4) by (cases j) auto
  have "bs \<noteq> []" using Cons.prems(1) run by (cases r) (auto split: prod.splits)
  then have good: "cs ! j'" using Cons.prems(5) rest(2) j by (cases bs) auto
  show ?case
  proof (cases i)
    case (Suc i')
    with Cons.IH [OF rest(1)] Cons.prems good j show ?thesis by auto
  next
    case 0
    have "cm_Offset m < cm_Offset (ms ! j')" using Cons.prems(2) j by auto
    moreover have "cm_Offset (ms ! j') < pos w'" if "claim_results handler c mark ms w2 = (cs, w')" "cs ! j'" "j' < length ms" for w2 cs j'
      using that
    proof (induction ms arbitrary: w2 cs j')
      case (Cons x xs)
      obtain r w3 where h: "handler c (to_Message x) w2 = (r, w3)" by fastforce
      show ?case
      proof (cases j')
        case 0
        with Cons.prems h obtain bs where r: "r = Inr ()" "claim_results handler c mark xs (mark x w3) = (bs, w')"
          by (cases r) (auto split: prod.splits)
        have "cm_Offset x < pos (mark x w3)" using assms(1) by (simp add: position_ok_def)
        with claim_position_mono [OF assms(1) r(2)] 0 show ?thesis by simp
      next
        case (Suc k)
        with Cons h show ?thesis by (cases r) (fastforce split: prod.splits)+
      qed
    qed simp
    ultimately show ?thesis using rest(1) good j 0 by fastforce
  qed
qed simp

text \<open>
  The consume loop returns at the first session after the context has ended, or when the group is
  closed; a failed session is returned as it is.
\<close>

lemma Consume_stops:
  "session w = (r, w') \<Longrightarrow> (\<exists>e. r = Inl e) \<or> ctx_Err c (now w') \<noteq> None \<Longrightarrow>
     \<exists>res. Consume session c w = Some (res, w') \<and> (res = None \<longleftrightarrow> (\<exists>e. r = Inl e \<and> errors_Is e ErrClosedConsumerGroup))"
  by (subst Consume.simps) (auto split: sum.splits option.splits)

lemma Consume_continues:
  "session w = (Inr (), w') \<Longrightarrow> ctx_Err c (now w') = None \<Longrightarrow> Consume session c w = Consume session c w'"
  by (subst Consume.simps) simp

end
