(* ===== verification/Interceptors.thy ===== *)
theory Interceptors
  imports Machine
begin

text \<open>
  The interceptors of the go-kit around a gRPC call: \<open>middleware/metrics\<close> with the counters of
  \<open>go-kit/metric\<close>, \<open>middleware/circuitbreaker\<close>, and \<open>go-kit/tracing\<close> with
  \<open>contextx/traceIDctx\<close>. A handler or an invoker is an operation on the world; the breaker, the
  tracer and the propagator are parameters. A span that has ended is an entry of a list.
\<close>

section \<open>Metrics\<close>

text \<open>A counter is nil before \<open>metric.Init\<close>; the response counter and the histogram have labels.\<close>

record metered = clocked +
  requestCounter :: "nat option"
  responseCounter :: "(string \<times> string \<Rightarrow> nat) option"
  histogramResponseTime :: "(string \<times> nat) list option"

definition IncRequestCounter :: "('x metered_scheme, go_error, unit) op" where
  "IncRequestCounter = modifyE (\<lambda>w. case requestCounter w of None \<Rightarrow> w
     | Some n \<Rightarrow> w\<lparr>requestCounter := Some (Suc n)\<rparr>)"

definition IncResponseCounter :: "string \<Rightarrow> string \<Rightarrow> ('x metered_scheme, go_error, unit) op" where
  "IncResponseCounter status meth = modifyE (\<lambda>w. case responseCounter w of None \<Rightarrow> w
     | Some f \<Rightarrow> w\<lparr>responseCounter := Some (f((status, meth) := Suc (f (status, meth))))\<rparr>)"

definition HistogramResponseTimeObserve :: "string \<Rightarrow> nat \<Rightarrow> ('x metered_scheme, go_error, unit) op" where
  "HistogramResponseTimeObserve status time = modifyE (\<lambda>w. case histogramResponseTime w of None \<Rightarrow> w
     | Some hs \<Rightarrow> w\<lparr>histogramResponseTime := Some (hs @ [(status, time)])\<rparr>)"

definition MetricsInterceptor :: "string \<Rightarrow> ('x metered_scheme, go_error, 'a) op \<Rightarrow> ('x metered_scheme, go_error, 'a) op" where
  "MetricsInterceptor fullMethod handler =
    bindE IncRequestCounter (\<lambda>_.
    bindE (getsE now) (\<lambda>timeStart.
    bindE (tryE handler) (\<lambda>res.
    bindE (getsE (\<lambda>w. now w - timeStart)) (\<lambda>diffTime.
    let status = (case res of Inl _ \<Rightarrow> ''error'' | Inr _ \<Rightarrow> ''success'') in
    bindE (IncResponseCounter status fullMethod) (\<lambda>_.
    bindE (HistogramResponseTimeObserve status diffTime) (\<lambda>_.
    liftE res))))))"

definition StreamMetricsInterceptor :: "string \<Rightarrow> ('x metered_scheme, go_error, unit) op \<Rightarrow> ('x metered_scheme, go_error, unit) op" where
  "StreamMetricsInterceptor fullMethod handler =
    bindE IncRequestCounter (\<lambda>_.
    bindE (getsE now) (\<lambda>timeStart.
    bindE (tryE handler) (\<lambda>res.
    bindE (getsE (\<lambda>w. now w - timeStart)) (\<lambda>diffTime.
    let status = (case res of Inl _ \<Rightarrow> ''error'' | Inr _ \<Rightarrow> ''success'') in
    bindE (IncResponseCounter status fullMethod) (\<lambda>_.
    bindE (HistogramResponseTimeObserve status diffTime) (\<lambda>_.
    liftE res))))))"

text \<open>
  A call is counted once as a request and once as a response of its method, with the status of
  its result, when the counters exist and the handler leaves them alone; the result is the handler's.
\<close>

lemma metered_select [simp]:
  "requestCounter (w\<lparr>responseCounter := a\<rparr>) = requestCounter w" "requestCounter (w\<lparr>histogramResponseTime := b\<rparr>) = requestCounter w"
  "responseCounter (w\<lparr>requestCounter := c\<rparr>) = responseCounter w" "responseCounter (w\<lparr>histogramResponseTime := b\<rparr>) = responseCounter w"
  "responseCounter (w\<lparr>responseCounter := a\<rparr>) = a" "requestCounter (w\<lparr>requestCounter := c\<rparr>) = c"
  by (cases w; simp)+

lemma MetricsInterceptor_counts:
  assumes "preserves handler requestCounter" "preserves handler responseCounter"
    and "requestCounter w = Some n" "responseCounter w = Some f"
    and "MetricsInterceptor m handler w = (r, w')"
  shows "requestCounter w' = Some (Suc n) \<and>
    responseCounter w' = (let k = ((case r of Inl _ \<Rightarrow> ''error'' | Inr _ \<Rightarrow> ''success''), m) in Some (f(k := Suc (f k)))) \<and>
    (\<exists>v. handler (w\<lparr>requestCounter := Some (Suc n)\<rparr>) = (r, v))"
proof -
  obtain res v where h: "handler (w\<lparr>requestCounter := Some (Suc n)\<rparr>) = (res, v)" by (rule prod.exhaust)
  have "requestCounter v = Some (Suc n)" "responseCounter v = Some f"
    using preservesD [OF assms(1) h] preservesD [OF assms(2) h] assms(4) by simp_all
  with assms(3,5) h show ?thesis
    by (auto simp: MetricsInterceptor_def IncRequestCounter_def IncResponseCounter_def HistogramResponseTimeObserve_def
        opE_defs Let_def split: option.splits sum.splits)
qed

section \<open>Circuit breaker\<close>

definition ErrOpenState :: go_error where
  "ErrOpenState = ErrorString ''circuit breaker is open''"

text \<open>\<open>execute\<close> is the breaker of the library: it runs the call or refuses it.\<close>

definition CircuitBreakerUnary :: "(('w, go_error, 'a) op \<Rightarrow> ('w, go_error, 'a) op) \<Rightarrow> ('w, go_error, 'a) op \<Rightarrow> ('w, go_error, 'a) op" where
  "CircuitBreakerUnary execute handler =
    catchE (execute handler) (\<lambda>err.
      if err = ErrOpenState then throwE (StatusError G_Unavailable ''service unavailable'') else throwE err)"

section \<open>Trace identifiers\<close>

text \<open>A valid span context has a trace id and a span id; the outgoing metadata may be absent.\<close>

record span_context =
  TraceID :: string
  SpanID :: string

record trace_ctx =
  ctx_span :: "span_context option"
  ctx_outgoing :: "(string \<Rightarrow> string list option) option"

definition ExtractSpan :: "trace_ctx \<Rightarrow> span_context option" where
  "ExtractSpan c = ctx_span c"

definition ExtractTraceIDFromSpan :: "trace_ctx \<Rightarrow> string \<times> bool" where
  "ExtractTraceIDFromSpan c = (case ExtractSpan c of None \<Rightarrow> ([], False) | Some sp \<Rightarrow> (SpanID sp, True))"

definition ExtractOutgoingMetadata :: "trace_ctx \<Rightarrow> string \<Rightarrow> string list option" where
  "ExtractOutgoingMetadata c = (case ctx_outgoing c of None \<Rightarrow> Map.empty | Some md \<Rightarrow> md)"

definition TraceIDHeader :: string where
  "TraceIDHeader = ''x-trace_id''"

definition AddTraceIDToResponse :: "trace_ctx \<Rightarrow> trace_ctx" where
  "AddTraceIDToResponse c =
    (case ExtractTraceIDFromSpan c of (traceID, ok) \<Rightarrow>
     if \<not> ok then c
     else c\<lparr>ctx_outgoing := Some ((ExtractOutgoingMetadata c)(TraceIDHeader \<mapsto> [traceID]))\<rparr>)"

definition formatSpanName :: "trace_ctx \<Rightarrow> string \<Rightarrow> string" where
  "formatSpanName c meth = (if ctx_span c = None then ''client.'' @ meth else meth)"

text \<open>The header carries the id of the span, and other headers stay as they were.\<close>

lemma AddTraceIDToResponse_header:
  "ctx_span c = Some sp \<Longrightarrow> ExtractOutgoingMetadata (AddTraceIDToResponse c) =
     (ExtractOutgoingMetadata c)(TraceIDHeader \<mapsto> [SpanID sp])"
  by (simp add: AddTraceIDToResponse_def ExtractTraceIDFromSpan_def ExtractSpan_def ExtractOutgoingMetadata_def)

section \<open>Spans of calls\<close>

text \<open>The status is the error the span was given by \<open>SetStatus\<close>.\<close>

record span =
  span_name :: string
  span_errors :: "go_error list"
  span_status :: "go_error option"

record traced = clocked +
  ended_spans :: "span list"

text \<open>\<open>start\<close> is the tracer: it puts a new span into the context. \<open>extract\<close> and \<open>inject\<close> are the propagator.\<close>

definition UnaryServerInterceptor ::
  "(trace_ctx \<Rightarrow> (string \<Rightarrow> string list option) \<Rightarrow> trace_ctx) \<Rightarrow> (trace_ctx \<Rightarrow> string \<Rightarrow> trace_ctx) \<Rightarrow> string
    \<Rightarrow> (string \<Rightarrow> string list option) option \<Rightarrow> (trace_ctx \<Rightarrow> ('x traced_scheme, go_error, 'a) op) \<Rightarrow> trace_ctx
    \<Rightarrow> ('x traced_scheme, go_error, 'a) op" where
  "UnaryServerInterceptor extract start fullMethod incoming handler c =
    (let md = (case incoming of None \<Rightarrow> Map.empty | Some m \<Rightarrow> m);
         c1 = start (extract c md) fullMethod;
         c2 = AddTraceIDToResponse c1 in
     bindE (tryE (handler c2)) (\<lambda>res.
     bindE (modifyE (\<lambda>w. w\<lparr>ended_spans := ended_spans w @
         [\<lparr>span_name = fullMethod, span_errors = (case res of Inl err \<Rightarrow> [err] | Inr _ \<Rightarrow> []), span_status = None\<rparr>]\<rparr>)) (\<lambda>_.
     liftE res)))"

definition UnaryClientInterceptor ::
  "(trace_ctx \<Rightarrow> (string \<Rightarrow> string list option) \<Rightarrow> string \<Rightarrow> string list option) \<Rightarrow> (trace_ctx \<Rightarrow> string \<Rightarrow> trace_ctx) \<Rightarrow> string
    \<Rightarrow> (trace_ctx \<Rightarrow> ('x traced_scheme, go_error, unit) op) \<Rightarrow> trace_ctx \<Rightarrow> ('x traced_scheme, go_error, unit) op" where
  "UnaryClientInterceptor inject start meth invoker c =
    (let spanName = formatSpanName c meth;
         c1 = start c spanName;
         carrier = inject c1 (ExtractOutgoingMetadata c1);
         c2 = c1\<lparr>ctx_outgoing := Some carrier\<rparr> in
     bindE (tryE (invoker c2)) (\<lambda>res.
     bindE (modifyE (\<lambda>w. w\<lparr>ended_spans := ended_spans w @
         [\<lparr>span_name = spanName, span_errors = (case res of Inl err \<Rightarrow> [err] | Inr _ \<Rightarrow> []), span_status = None\<rparr>]\<rparr>)) (\<lambda>_.
     liftE res)))"

text \<open>Every traced call ends one span, which has its error, and answers what the call answered.\<close>

lemma UnaryServerInterceptor_span:
  assumes "UnaryServerInterceptor extract start m md handler c w = (r, w')"
  shows "\<exists>c' w1. handler c' w = (r, w1) \<and> (\<exists>sp. ended_spans w' = ended_spans w1 @ [sp] \<and>
    span_errors sp = (case r of Inl e \<Rightarrow> [e] | Inr _ \<Rightarrow> []))"
  using assms
  by (auto simp: UnaryServerInterceptor_def opE_defs Let_def split: prod.splits intro!: exI)

section \<open>Client streams\<close>

text \<open>
  A traced stream: the span, how often it was ended, and its watcher, the goroutine that waits for
  the end of the context or of the span. \<open>server_streams\<close> is the field of the stream description.
\<close>

record tracedClientStream =
  server_streams :: bool
  stream_span :: span
  span_ends :: nat
  once :: bool
  done_closed :: bool
  close_panics :: bool
  watching :: bool
  ctx_error :: "go_error option"

definition endSpan :: "go_error option \<Rightarrow> tracedClientStream \<Rightarrow> tracedClientStream" where
  "endSpan err s =
    (let s' = (case err of
         Some e \<Rightarrow> if errors_Is e EOF then s
           else s\<lparr>stream_span := (stream_span s)\<lparr>span_errors := span_errors (stream_span s) @ [e], span_status := Some e\<rparr>\<rparr>
       | None \<Rightarrow> s) in
     s'\<lparr>span_ends := Suc (span_ends s')\<rparr>)"

definition finish :: "go_error option \<Rightarrow> tracedClientStream \<Rightarrow> tracedClientStream" where
  "finish err s =
    (if once s then s
     else endSpan err (s\<lparr>once := True, close_panics := close_panics s \<or> done_closed s, done_closed := True\<rparr>))"

text \<open>The methods after the call of the wrapped stream, with its error.\<close>

definition traced_SendMsg :: "go_error option \<Rightarrow> tracedClientStream \<Rightarrow> tracedClientStream" where
  "traced_SendMsg err s =
    (case err of Some e \<Rightarrow> if \<not> errors_Is e EOF then finish (Some e) s else s | None \<Rightarrow> s)"

definition traced_RecvMsg :: "go_error option \<Rightarrow> tracedClientStream \<Rightarrow> tracedClientStream" where
  "traced_RecvMsg err s = (if err \<noteq> None \<or> \<not> server_streams s then finish err s else s)"

definition new_traced :: "bool \<Rightarrow> string \<Rightarrow> tracedClientStream" where
  "new_traced srv name = \<lparr>server_streams = srv, stream_span = \<lparr>span_name = name, span_errors = [], span_status = None\<rparr>,
     span_ends = 0, once = False, done_closed = False, close_panics = False, watching = True, ctx_error = None\<rparr>"

text \<open>A call that cannot be opened ends its span at once; an opened one is watched.\<close>

definition StreamClientInterceptor ::
  "(trace_ctx \<Rightarrow> (string \<Rightarrow> string list option) \<Rightarrow> string \<Rightarrow> string list option) \<Rightarrow> (trace_ctx \<Rightarrow> string \<Rightarrow> trace_ctx)
    \<Rightarrow> bool \<Rightarrow> string \<Rightarrow> (trace_ctx \<Rightarrow> ('x traced_scheme, go_error, unit) op) \<Rightarrow> trace_ctx
    \<Rightarrow> ('x traced_scheme, go_error, tracedClientStream) op" where
  "StreamClientInterceptor inject start srv meth streamer c =
    (let spanName = formatSpanName c meth;
         c1 = start c spanName;
         carrier = inject c1 (ExtractOutgoingMetadata c1);
         c2 = c1\<lparr>ctx_outgoing := Some carrier\<rparr> in
     bindE (tryE (streamer c2)) (\<lambda>res.
     case res of
       Inl err \<Rightarrow>
         bindE (modifyE (\<lambda>w. w\<lparr>ended_spans := ended_spans w @ [stream_span (endSpan (Some err) (new_traced srv spanName))]\<rparr>)) (\<lambda>_.
         throwE err)
     | Inr _ \<Rightarrow> returnE (new_traced srv spanName)))"

datatype stream_event = Sent "go_error option" | Received "go_error option" | Context_ended go_error | Watcher_finished | Watcher_left

text \<open>The select of the watcher takes either branch that is ready.\<close>

inductive traced_step :: "tracedClientStream \<Rightarrow> stream_event \<Rightarrow> tracedClientStream \<Rightarrow> bool" where
  send: "traced_step s (Sent err) (traced_SendMsg err s)"
| recv: "traced_step s (Received err) (traced_RecvMsg err s)"
| end_ctx: "ctx_error s = None \<Longrightarrow> e \<in> {ContextCanceled, ContextDeadlineExceeded} \<Longrightarrow>
    traced_step s (Context_ended e) (s\<lparr>ctx_error := Some e\<rparr>)"
| watch_ctx: "watching s \<Longrightarrow> ctx_error s = Some e \<Longrightarrow>
    traced_step s Watcher_finished (finish (if errors_Is e ContextCanceled then None else Some e) (s\<lparr>watching := False\<rparr>))"
| watch_done: "watching s \<Longrightarrow> done_closed s \<Longrightarrow> traced_step s Watcher_left (s\<lparr>watching := False\<rparr>)"

text \<open>
  The span ends exactly once: never twice, never by a second close of the channel, and only with
  an error that is not EOF and not the caller's cancellation; a watcher that has left has seen it end.
\<close>

definition traced_inv :: "tracedClientStream \<Rightarrow> bool" where
  "traced_inv s = (span_ends s = (if once s then 1 else 0) \<and> done_closed s = once s \<and> \<not> close_panics s \<and>
     (\<not> watching s \<longrightarrow> once s) \<and> (\<forall>e. ctx_error s = Some e \<longrightarrow> e \<in> {ContextCanceled, ContextDeadlineExceeded}) \<and>
     (case span_status (stream_span s) of None \<Rightarrow> span_errors (stream_span s) = []
        | Some e \<Rightarrow> span_errors (stream_span s) = [e] \<and> \<not> errors_Is e EOF \<and> once s) \<and>
     (\<not> once s \<longrightarrow> span_status (stream_span s) = None))"

lemma finish_inv: "traced_inv s \<Longrightarrow> traced_inv (finish err s) \<and> once (finish err s)"
  by (auto simp: traced_inv_def finish_def endSpan_def Let_def split: option.splits)

lemma finish_stops: "traced_inv s \<Longrightarrow> traced_inv (finish err (s\<lparr>watching := False\<rparr>))"
  by (auto simp: traced_inv_def finish_def endSpan_def Let_def split: option.splits)

interpretation tracing: safe_machine traced_step traced_inv
proof
  fix s l t assume "traced_step s l t" "traced_inv s"
  then show "traced_inv t"
  proof (induction rule: traced_step.induct)
    case (watch_done s)
    then show ?case by (auto simp: traced_inv_def split: option.splits)
  qed (auto simp: traced_SendMsg_def traced_RecvMsg_def finish_inv finish_stops split: option.splits,
      auto simp: traced_inv_def split: option.splits)
qed

text \<open>Once the context has ended, the watcher is not stuck and leaves the span ended.\<close>

lemma watcher_leaves:
  assumes "runs traced_step (new_traced srv name) es s" "ctx_error s \<noteq> None \<or> once s" "watching s"
  shows "\<exists>e t. traced_step s e t \<and> \<not> watching t \<and> span_ends t = 1"
proof -
  have inv: "traced_inv s"
    using assms(1) by (rule tracing.runs_inv) (simp add: traced_inv_def new_traced_def)
  show ?thesis
  proof (cases "once s")
    case True
    with inv assms(3) have "traced_step s Watcher_left (s\<lparr>watching := False\<rparr>)" "span_ends s = 1"
      by (auto simp: traced_inv_def intro: traced_step.watch_done)
    then show ?thesis by (intro exI) auto
  next
    case False
    with assms(2) obtain e where "ctx_error s = Some e" by auto
    note traced_step.watch_ctx [OF assms(3) this]
    moreover have "span_ends (finish x (s\<lparr>watching := False\<rparr>)) = 1 \<and> \<not> watching (finish x (s\<lparr>watching := False\<rparr>))" for x
      using inv False by (auto simp: finish_def endSpan_def Let_def traced_inv_def split: option.splits)
    ultimately show ?thesis by blast
  qed
qed

end
