(* ===== verification/Logger.thy ===== *)
theory Logger
  imports Interceptors
begin

text \<open>
  The logger of the go-kit, \<open>logger/logger.go\<close> and \<open>logger/oltp_core.go\<close>: the global logger with
  its cores, the fields it takes from a context, and the core that turns log entries into
  OpenTelemetry records. The zap library is modelled by what its documentation says of a core:
  an entry goes to every core that is enabled at its level, together with the fields of the
  logger and of the call. Level names and field keys are ASCII.
\<close>

section \<open>Levels\<close>

datatype zap_level = DebugLevel | InfoLevel | WarnLevel | ErrorLevel | DPanicLevel | PanicLevel | FatalLevel

fun zap_number :: "zap_level \<Rightarrow> int" where
  "zap_number DebugLevel = -1"
| "zap_number InfoLevel = 0"
| "zap_number WarnLevel = 1"
| "zap_number ErrorLevel = 2"
| "zap_number DPanicLevel = 3"
| "zap_number PanicLevel = 4"
| "zap_number FatalLevel = 5"

definition ToLower :: "string \<Rightarrow> string" where
  "ToLower s = map (\<lambda>c. let n = of_char c :: nat in if 65 \<le> n \<and> n \<le> 90 then char_of (n + 32) else c) s"

definition parseLevel :: "string \<Rightarrow> zap_level" where
  "parseLevel levelStr =
    (let s = ToLower levelStr in
     if s = ''debug'' then DebugLevel
     else if s = ''info'' then InfoLevel
     else if s = ''warn'' \<or> s = ''warning'' then WarnLevel
     else if s = ''error'' then ErrorLevel
     else InfoLevel)"

datatype severity = SeverityDebug | SeverityInfo | SeverityWarn | SeverityError

fun mapZapToOtelSeverity :: "zap_level \<Rightarrow> severity" where
  "mapZapToOtelSeverity DebugLevel = SeverityDebug"
| "mapZapToOtelSeverity InfoLevel = SeverityInfo"
| "mapZapToOtelSeverity WarnLevel = SeverityWarn"
| "mapZapToOtelSeverity ErrorLevel = SeverityError"
| "mapZapToOtelSeverity _ = SeverityInfo"

section \<open>Fields and records\<close>

text \<open>
  A field is its key and what it stores in an object encoder; \<open>VOther\<close> is every Go type that the
  switch of \<open>encodeFieldsToAttrs\<close> does not name. A floating-point number is its bits.
\<close>

datatype zap_value = VString string | VBool bool | VInt64 int | VFloat64 "64 word" | VError go_error | VOther

type_synonym zap_field = "string \<times> zap_value"

datatype attr = AString string | ABool bool | AInt64 int | AFloat64 "64 word"

record entry =
  entry_Level :: zap_level
  entry_Time :: nat
  entry_Message :: string
  entry_Caller :: string

record otel_record =
  rec_Severity :: severity
  rec_Body :: string
  rec_Timestamp :: nat
  rec_Attributes :: "(string \<times> attr) set"

fun attr_of :: "zap_value \<Rightarrow> attr option" where
  "attr_of (VString val) = Some (AString val)"
| "attr_of (VBool val) = Some (ABool val)"
| "attr_of (VInt64 val) = Some (AInt64 val)"
| "attr_of (VFloat64 val) = Some (AFloat64 val)"
| "attr_of (VError val) = Some (AString (error_text val))"
| "attr_of VOther = None"

text \<open>
  \<open>encodeFieldsToAttrs\<close>: the encoder is a map, in which a later field with a key wins, and the
  loop over it visits every key once, in no particular order.
\<close>

definition encodeFieldsToAttrs :: "zap_field list \<Rightarrow> (string \<times> attr) set" where
  "encodeFieldsToAttrs flds =
    (let enc = map_of (rev flds) in
     set (concat (map (\<lambda>k. case Option.bind (enc k) attr_of of None \<Rightarrow> [] | Some a \<Rightarrow> [(k, a)]) (map fst flds))))"

definition makeBaseRecord :: "entry \<Rightarrow> severity \<Rightarrow> otel_record" where
  "makeBaseRecord e sev =
    \<lparr>rec_Severity = sev, rec_Body = entry_Message e, rec_Timestamp = entry_Time e, rec_Attributes = {}\<rparr>"

definition AddAttributes :: "(string \<times> attr) set \<Rightarrow> otel_record \<Rightarrow> otel_record" where
  "AddAttributes as r = r\<lparr>rec_Attributes := rec_Attributes r \<union> as\<rparr>"

section \<open>Cores\<close>

text \<open>
  The core for the standard output keeps the fields given to \<open>With\<close>; \<open>SimpleOTLPCore\<close> does not.
  A core of the second kind may have no logger to emit to.
\<close>

datatype core = Stdout_core bool zap_level "zap_field list" | SimpleOTLPCore bool zap_level

fun core_Enabled :: "core \<Rightarrow> zap_level \<Rightarrow> bool" where
  "core_Enabled (Stdout_core json lv fs) level = (zap_number lv \<le> zap_number level)"
| "core_Enabled (SimpleOTLPCore emits lv) level = (zap_number lv \<le> zap_number level)"

fun core_With :: "zap_field list \<Rightarrow> core \<Rightarrow> core" where
  "core_With flds (Stdout_core json lv fs) = Stdout_core json lv (fs @ flds)"
| "core_With flds (SimpleOTLPCore emits lv) = SimpleOTLPCore emits lv"

datatype otel_provider = Provider

record log_config =
  LogLevel :: string
  AsJSON :: bool
  EnableOLTP :: bool

record log_world =
  globalLogger :: "core list option"
  initialised :: bool
  otelProvider :: "otel_provider option"
  stdout :: "(entry \<times> zap_field list) list"
  emitted :: "otel_record list"
  exited :: bool

definition no_log :: log_world where
  "no_log = \<lparr>globalLogger = None, initialised = False, otelProvider = None, stdout = [], emitted = [], exited = False\<rparr>"

definition otlp_record :: "entry \<Rightarrow> zap_field list \<Rightarrow> otel_record" where
  "otlp_record e flds =
    (let base = makeBaseRecord e (mapZapToOtelSeverity (entry_Level e));
         rec = (if flds \<noteq> [] then
             let attrs = encodeFieldsToAttrs flds in
             if attrs \<noteq> {} then AddAttributes attrs base else base
           else base) in
     AddAttributes {(''caller'', AString (entry_Caller e))} rec)"

fun core_Write :: "core \<Rightarrow> entry \<Rightarrow> zap_field list \<Rightarrow> log_world \<Rightarrow> log_world" where
  "core_Write (Stdout_core json lv fs) e flds w = w\<lparr>stdout := stdout w @ [(e, fs @ flds)]\<rparr>"
| "core_Write (SimpleOTLPCore emits lv) e flds w =
    (if \<not> emits then w else w\<lparr>emitted := emitted w @ [otlp_record e flds]\<rparr>)"

text \<open>\<open>zap.Logger\<close>: check and write on every core; a fatal entry ends the process.\<close>

definition zap_log :: "core list \<Rightarrow> entry \<Rightarrow> zap_field list \<Rightarrow> log_world \<Rightarrow> log_world" where
  "zap_log cores e flds w =
    (let w' = fold (\<lambda>c w. if core_Enabled c (entry_Level e) then core_Write c e flds w else w) cores w in
     if entry_Level e = FatalLevel then w'\<lparr>exited := True\<rparr> else w')"

section \<open>The global logger\<close>

text \<open>\<open>otlp\<close> is whether the library could set up its exporter and resource.\<close>

definition createStdoutCore :: "log_config \<Rightarrow> zap_level \<Rightarrow> core" where
  "createStdoutCore cfg level = Stdout_core (AsJSON cfg) level []"

definition createOTLPCore :: "bool \<Rightarrow> zap_level \<Rightarrow> log_world \<Rightarrow> core option \<times> log_world" where
  "createOTLPCore otlp level w =
    (if otlp then (Some (SimpleOTLPCore True level), w\<lparr>otelProvider := Some Provider\<rparr>) else (None, w))"

definition buildCores :: "bool \<Rightarrow> log_config \<Rightarrow> zap_level \<Rightarrow> log_world \<Rightarrow> core list \<times> log_world" where
  "buildCores otlp cfg level w =
    (let cores = [createStdoutCore cfg level] in
     if EnableOLTP cfg then
       (case createOTLPCore otlp level w of
          (Some otlpCore, w') \<Rightarrow> (cores @ [otlpCore], w')
        | (None, w') \<Rightarrow> (cores, w'))
     else (cores, w))"

definition logger_Init :: "bool \<Rightarrow> log_config \<Rightarrow> log_world \<Rightarrow> log_world" where
  "logger_Init otlp cfg w =
    (if initialised w then w
     else case buildCores otlp cfg (parseLevel (LogLevel cfg)) w of
       (cores, w') \<Rightarrow> w'\<lparr>initialised := True, globalLogger := Some cores\<rparr>)"

definition SetNopLogger :: "log_world \<Rightarrow> log_world" where
  "SetNopLogger w = w\<lparr>globalLogger := Some []\<rparr>"

text \<open>
  \<open>addFieldFromContext\<close> with a string extractor. A context is seen here through its values and
  through its span, so it is a pair.
\<close>

definition addFieldFromContext :: "zap_field list \<Rightarrow> string \<Rightarrow> string \<times> bool \<Rightarrow> zap_field list" where
  "addFieldFromContext flds key extracted =
    (case extracted of (val, ok) \<Rightarrow> if ok then flds @ [(key, VString val)] else flds)"

definition fieldsFromContext :: "ctx \<Rightarrow> trace_ctx \<Rightarrow> zap_field list" where
  "fieldsFromContext c tc =
    (let flds = addFieldFromContext [] TraceIDKey (ExtractTraceId c);
         flds = addFieldFromContext flds TraceIDKey (ExtractTraceIDFromSpan tc);
         flds = addFieldFromContext flds IpKey (ExtractIP c);
         flds = addFieldFromContext flds UserIDKey (ExtractUserID c) in
     addFieldFromContext flds UserEmailKey (ExtractUserEmail c))"

definition logger_With :: "zap_field list \<Rightarrow> log_world \<Rightarrow> core list" where
  "logger_With flds w = (case globalLogger w of None \<Rightarrow> [] | Some l \<Rightarrow> map (core_With flds) l)"

definition logger_WithContext :: "ctx \<Rightarrow> trace_ctx \<Rightarrow> log_world \<Rightarrow> core list" where
  "logger_WithContext c tc w =
    (case globalLogger w of None \<Rightarrow> [] | Some l \<Rightarrow> map (core_With (fieldsFromContext c tc)) l)"

text \<open>\<open>Debug\<close>, \<open>Info\<close>, \<open>Warn\<close>, \<open>Error\<close> and \<open>Fatal\<close> of a logger, at the level of the entry.\<close>

definition logger_log :: "core list \<Rightarrow> ctx \<Rightarrow> trace_ctx \<Rightarrow> entry \<Rightarrow> zap_field list \<Rightarrow> log_world \<Rightarrow> log_world" where
  "logger_log l c tc e flds w = zap_log l e (fieldsFromContext c tc @ flds) w"

text \<open>The same of the package: without a logger they dereference nil.\<close>

definition log_global :: "ctx \<Rightarrow> trace_ctx \<Rightarrow> entry \<Rightarrow> zap_field list \<Rightarrow> log_world \<Rightarrow> log_world go_run" where
  "log_global c tc e flds w =
    (case globalLogger w of None \<Rightarrow> Panic nil_dereference | Some l \<Rightarrow> Done (logger_log l c tc e flds w))"

section \<open>Shutdown\<close>

text \<open>\<open>sync\<close> is what syncing the logger answers, \<open>flush\<close> what shutting the provider down does.\<close>

definition logger_Sync :: "go_error option \<Rightarrow> log_world \<Rightarrow> go_error option" where
  "logger_Sync sync w = (case globalLogger w of None \<Rightarrow> None | Some l \<Rightarrow> sync)"

definition isUnsyncableStdout :: "go_error \<Rightarrow> bool" where
  "isUnsyncableStdout err =
    (errors_Is err (Errno EINVAL) \<or> errors_Is err (Errno ENOTTY) \<or> errors_Is err (Errno EBADF))"

text \<open>Errors joined by \<open>errors.Join\<close> are the list of their parts, which is empty for nil.\<close>

fun joined :: "go_error option \<Rightarrow> go_error list" where
  "joined None = []"
| "joined (Some err) = [err]"

definition logger_Shutdown :: "go_error option \<Rightarrow> go_error option \<Rightarrow> log_world \<Rightarrow> go_error list \<times> log_world" where
  "logger_Shutdown flush sync w =
    (let result = (case otelProvider w of None \<Rightarrow> [] | Some p \<Rightarrow> joined flush);
         w' = w\<lparr>otelProvider := None\<rparr> in
     (case logger_Sync sync w' of
        None \<Rightarrow> (result, w')
      | Some err \<Rightarrow> if isUnsyncableStdout err then (result, w') else (result @ [err], w')))"

section \<open>Properties\<close>

text \<open>Initialisation happens once, and afterwards logging does not dereference nil.\<close>

lemma logger_Init_once: "logger_Init otlp cfg (logger_Init otlp' cfg' w) = logger_Init otlp' cfg' w"
  by (simp add: logger_Init_def buildCores_def createOTLPCore_def split: prod.splits)

lemma logger_Init_logs:
  "\<not> initialised w \<Longrightarrow> \<exists>w'. log_global c tc e flds (logger_Init otlp cfg w) = Done w'"
  by (simp add: logger_Init_def log_global_def split: prod.splits)

text \<open>The attributes of a record: the last field with each key, when its type is one of the five.\<close>

lemma encodeFieldsToAttrs_iff:
  "(k, a) \<in> encodeFieldsToAttrs flds \<longleftrightarrow> (\<exists>v. map_of (rev flds) k = Some v \<and> attr_of v = Some a)"
proof -
  have "k \<in> fst ` set flds" if "map_of (rev flds) k = Some v" for v
    using that by (metis map_of_SomeD set_rev image_eqI fst_conv)
  then show ?thesis
    by (auto simp: encodeFieldsToAttrs_def Let_def image_iff split: option.splits)
       (cases "map_of (rev flds) k"; force)+
qed

text \<open>
  The two fields under the trace key collide in the encoder, and the record keeps the id of the
  span; without a span it has the id of the trace.
\<close>

lemma context_trace_attribute:
  "(TraceIDKey, a) \<in> encodeFieldsToAttrs (fieldsFromContext c tc) \<longleftrightarrow>
     (case ctx_span tc of
        Some sp \<Rightarrow> a = AString (SpanID sp)
      | None \<Rightarrow> snd (ExtractTraceId c) \<and> a = AString (fst (ExtractTraceId c)))"
proof -
  have keys: "IpKey \<noteq> TraceIDKey" "UserIDKey \<noteq> TraceIDKey" "UserEmailKey \<noteq> TraceIDKey" by (simp_all add: ctx_key_defs)
  have "map_of (rev (fieldsFromContext c tc)) TraceIDKey =
      (case ctx_span tc of Some sp \<Rightarrow> Some (VString (SpanID sp))
       | None \<Rightarrow> if snd (ExtractTraceId c) then Some (VString (fst (ExtractTraceId c))) else None)"
    by (cases "ExtractTraceId c"; cases "ExtractIP c"; cases "ExtractUserID c"; cases "ExtractUserEmail c"; cases "ctx_span tc")
       (simp_all add: fieldsFromContext_def addFieldFromContext_def ExtractTraceIDFromSpan_def ExtractSpan_def Let_def
         keys keys [symmetric])
  then show ?thesis
    unfolding encodeFieldsToAttrs_iff by (cases "ctx_span tc") auto
qed

text \<open>The fields given to \<open>With\<close> reach the standard output, and never a record.\<close>

lemma zap_log_With:
  "emitted (zap_log (map (core_With fs) l) e flds w) = emitted (zap_log l e flds w)"
proof -
  let ?go = "\<lambda>c w. if core_Enabled c (entry_Level e) then core_Write c e flds w else w"
  have step: "core_Enabled (core_With fs c) lv = core_Enabled c lv"
    "emitted w = emitted w' \<Longrightarrow> emitted (core_Write (core_With fs c) e flds w) = emitted (core_Write c e flds w')" for c lv w w'
    by (cases c; simp)+
  have "emitted (fold ?go (map (core_With fs) l) w) = emitted (fold ?go l w')" if "emitted w = emitted w'" for w w'
    using that
  proof (induction l arbitrary: w w')
    case (Cons a l)
    from Cons.IH [OF step(2) [OF Cons.prems]] Cons.IH [OF Cons.prems] show ?case by (simp add: step(1))
  qed simp
  from this [OF refl] have "emitted (fold ?go (map (core_With fs) l) w) = emitted (fold ?go l w)" .
  moreover have "emitted (if b then v\<lparr>exited := True\<rparr> else v) = emitted v" for b and v :: log_world by simp
  ultimately show ?thesis unfolding zap_log_def Let_def by (simp only:)
qed

text \<open>
  Shutdown reports neither a standard output that cannot be synced nor, when called again, the
  provider a second time.
\<close>

lemma logger_Shutdown_reports:
  assumes "logger_Shutdown flush sync w = (es, w')"
  shows "otelProvider w' = None"
    "set es \<subseteq> set (joined flush) \<union> {e. sync = Some e \<and> \<not> isUnsyncableStdout e}"
    "otelProvider w = None \<Longrightarrow> set es \<subseteq> {e. sync = Some e \<and> \<not> isUnsyncableStdout e}"
  using assms
  by (auto simp: logger_Shutdown_def logger_Sync_def Let_def split: option.splits if_splits)

end
