(* ===== verification/Gateway_App.thy ===== *)
theory Gateway_App
  imports Closer Logger
begin

text \<open>
  The life of the gateway process, \<open>services/gateway/internal/config\<close>, \<open>internal/app\<close> and
  \<open>cmd/server\<close>: the settings and their rules, the construction of the clients, the start, the
  run until a signal, and the closing of everything that was opened. The libraries are a record
  of what their calls answer; each is called at most once. \<open>CloseAll\<close> is the step relation of
  \<open>Closer\<close>, which a call resolves to one outcome: \<open>close_all\<close> takes the closer to the result and
  the closer at the end of the call, and \<open>closed_by\<close> says that they are those of a run.
\<close>

section \<open>Settings\<close>

text \<open>\<open>env.Parse\<close> of each group is a parameter: the parsed values, defaults included, or its error.\<close>

record gw_metadata_config =
  md_address :: string
  md_timeout :: int

record gw_storage_config =
  st_address :: string
  st_chunk :: int

record gw_logger_config = log_config +
  lg_ServiceName :: string
  lg_Environment :: string
  lg_Endpoint :: string

record gw_tracing_config =
  tr_Enabled :: bool
  tr_ServiceName :: string
  tr_Version :: string
  tr_Environment :: string
  tr_Endpoint :: string

record gw_metrics_config =
  mt_Enabled :: bool
  mt_ServiceName :: string
  mt_Version :: string
  mt_Environment :: string
  mt_Endpoint :: string
  mt_PushTimeout :: int

record gw_config =
  cfg_HTTP :: string
  cfg_Metadata :: gw_metadata_config
  cfg_Storage :: gw_storage_config
  cfg_Logger :: gw_logger_config
  cfg_Tracing :: gw_tracing_config
  cfg_Metrics :: gw_metrics_config

record gw_env =
  dotenv :: "go_error option"
  env_HTTP :: "go_error + string"
  env_Metadata :: "go_error + gw_metadata_config"
  env_Storage :: "go_error + gw_storage_config"
  env_Logger :: "go_error + gw_logger_config"
  env_Tracing :: "go_error + gw_tracing_config"
  env_Metrics :: "go_error + gw_metrics_config"

definition gw_maxRetrieveChunkSizeBytes :: int where
  "gw_maxRetrieveChunkSizeBytes = 64 * 2 ^ 20"

definition NewMetadataConfig :: "go_error + gw_metadata_config \<Rightarrow> go_error + gw_metadata_config" where
  "NewMetadataConfig parse = bind_sum parse (\<lambda>raw.
    if md_timeout raw \<le> 0 then Inl (ErrorString ''METADATA_RPC_TIMEOUT must be positive'') else Inr raw)"

definition gw_NewStorageConfig :: "go_error + gw_storage_config \<Rightarrow> go_error + gw_storage_config" where
  "gw_NewStorageConfig parse = bind_sum parse (\<lambda>raw.
    if st_chunk raw < 1 \<or> st_chunk raw > gw_maxRetrieveChunkSizeBytes
    then Inl (ErrorString (''STORAGE_RETRIEVE_CHUNK_SIZE_BYTES must be between 1 and '' @ itoa gw_maxRetrieveChunkSizeBytes))
    else Inr raw)"

definition NewTracingConfig :: "go_error + gw_tracing_config \<Rightarrow> go_error + gw_tracing_config" where
  "NewTracingConfig parse = bind_sum parse (\<lambda>raw.
    if tr_ServiceName raw = [] \<or> tr_Endpoint raw = []
    then Inl (ErrorString ''invalid tracing configuration: service name and endpoint are required'')
    else Inr raw)"

definition NewMetricsConfig :: "go_error + gw_metrics_config \<Rightarrow> go_error + gw_metrics_config" where
  "NewMetricsConfig parse = bind_sum parse (\<lambda>raw.
    if mt_ServiceName raw = [] \<or> mt_Endpoint raw = [] \<or> mt_PushTimeout raw \<le> 0
    then Inl (ErrorString ''invalid metrics configuration: service name, endpoint and positive push timeout are required'')
    else Inr raw)"

definition gw_Load :: "gw_env \<Rightarrow> go_error + gw_config" where
  "gw_Load e =
    bind_sum (case dotenv e of
       Some err \<Rightarrow> if \<not> errors_Is err ErrNotExist then Inl err else Inr ()
     | None \<Rightarrow> Inr ()) (\<lambda>_.
    bind_sum (env_HTTP e) (\<lambda>httpConfig.
    bind_sum (NewMetadataConfig (env_Metadata e)) (\<lambda>metadataConfig.
    bind_sum (gw_NewStorageConfig (env_Storage e)) (\<lambda>storageConfig.
    bind_sum (env_Logger e) (\<lambda>loggerConfig.
    bind_sum (NewTracingConfig (env_Tracing e)) (\<lambda>tracingConfig.
    bind_sum (NewMetricsConfig (env_Metrics e)) (\<lambda>metricsConfig.
    Inr \<lparr>cfg_HTTP = httpConfig, cfg_Metadata = metadataConfig, cfg_Storage = storageConfig,
      cfg_Logger = loggerConfig, cfg_Tracing = tracingConfig, cfg_Metrics = metricsConfig\<rparr>)))))))"

section \<open>The application\<close>







subsection \<open>Service provider\<close>






subsection \<open>Start\<close>










subsection \<open>Closing\<close>




subsection \<open>Run\<close>



text \<open>A deferred function, which the return of the operation runs, with an error or without.\<close>

definition deferred :: "('w \<Rightarrow> 'w) \<Rightarrow> ('w, 'e, 'a) op \<Rightarrow> ('w, 'e, 'a) op" where
  "deferred f m = (\<lambda>w. case m w of (r, w') \<Rightarrow> (r, f w'))"

lemma wpE_deferred [wp]: "wpE (deferred f m) Q E = wpE m (\<lambda>x w. Q x (f w)) (\<lambda>e w. E e (f w))"
  by (rule ext) (simp add: deferred_def wpE_def split: prod.split sum.split)





section \<open>What is open is closed\<close>







lemma AddNamed_closer [simp]:
  "closer_inv cl \<Longrightarrow> closer_inv (AddNamed n t cl)" "phase (AddNamed n t cl) = phase cl"
  "funcs (AddNamed n t cl) = funcs cl @ [Named n t]"
  using closer_step_inv [OF closer_step.add, of cl "[Named n t]"] by (simp_all add: AddNamed_def closer_Add_def)







text \<open>The start opens no listener.\<close>

lemma preserves_app [frame]:
  "(\<And>a. g (f a) = g a) \<Longrightarrow> preserves (modifyE f) g" "preserves (unless_nil e h) g"
  by (simp_all add: preserves_def modifyE_def unless_nil_def returnE_def throwE_def split: option.split)


text \<open>Settings that load have the values the rest of the gateway is built on.\<close>

lemma gw_Load_valid:
  assumes "gw_Load e = Inr cfg"
  shows "0 < md_timeout (cfg_Metadata cfg)" "1 \<le> st_chunk (cfg_Storage cfg)"
    "st_chunk (cfg_Storage cfg) \<le> gw_maxRetrieveChunkSizeBytes" "0 < mt_PushTimeout (cfg_Metrics cfg)"
  using assms
  by (auto simp: gw_Load_def bind_sum_Inr NewMetadataConfig_def gw_NewStorageConfig_def NewTracingConfig_def
      NewMetricsConfig_def split: if_splits)






section \<open>Property\<close>








end
