(* ===== verification/Service_App.thy ===== *)
theory Service_App
  imports Closer Logger
begin

text \<open>
  The life of a gRPC service process, on the metadata service: \<open>services/metadata/internal/app\<close>
  and \<open>cmd/server\<close>; the other three gRPC services are built the same way. The service provider
  makes every client once and registers its closing; the start runs the seven steps in order; and
  the process is the main goroutine beside the shutdown of \<open>Closer\<close>, which a signal starts.
\<close>

section \<open>Service provider\<close>

text \<open>The functions registered with the closer.\<close>

datatype md_task =
  ShutdownMeter | StopServer | ClosePG | CloseSarama | CloseProducer | ShutdownTracing

record md_libs =
  md_Load :: "go_error option"
  md_log_config :: log_config
  md_otlp_logger :: bool
  md_InitOTELMetrics :: "go_error option"
  md_metric_Init :: "go_error option"
  md_NewPGClient :: "go_error option"
  md_Ping :: "go_error option"
  md_NewClient :: "go_error option"
  md_NewSyncProducer :: "go_error option"
  md_InitTracer :: "go_error option"

text \<open>The world: what the provider has made, and how often each library constructor was called.\<close>

record md_app =
  pgClient :: bool
  txManager :: bool
  saramaClient :: bool
  syncProducer :: bool
  bucketRepository :: bool
  objectRepository :: bool
  objectDeletedProducer :: bool
  bucketDeletedProducer :: bool
  md_bucketService :: bool
  md_objectService :: bool
  metadataHandler :: bool
  grpcServer :: bool
  md_closer :: "md_task closer"
  constructed :: "md_task list"
  md_log :: log_world

text \<open>How a start ends before its time: an error is returned, or a panic ends the process.\<close>

datatype start_failure = Start_error go_error | Start_panic go_error

type_synonym 'a start_op = "(md_app, start_failure, 'a) op"

definition md_AddNamed :: "string \<Rightarrow> md_task \<Rightarrow> unit start_op" where
  "md_AddNamed name t = modifyE (\<lambda>a. a\<lparr>md_closer := AddNamed name t (md_closer a)\<rparr>)"

definition construct :: "md_task \<Rightarrow> go_error option \<Rightarrow> unit start_op" where
  "construct t e = bindE (unless_nil e Start_panic) (\<lambda>_. modifyE (\<lambda>a. a\<lparr>constructed := t # constructed a\<rparr>))"

text \<open>A field of the provider: made at the first use, and then kept.\<close>

definition once_made :: "(md_app \<Rightarrow> bool) \<Rightarrow> unit start_op \<Rightarrow> unit start_op" where
  "once_made field init = bindE (getsE field) (\<lambda>made. if made then returnE () else init)"

definition PGClient :: "md_libs \<Rightarrow> unit start_op" where
  "PGClient lib = once_made pgClient
    (bindE (construct ClosePG (md_NewPGClient lib)) (\<lambda>_.
     bindE (unless_nil (md_Ping lib) Start_panic) (\<lambda>_.
     bindE (md_AddNamed ''PGClient'' ClosePG) (\<lambda>_.
     modifyE (\<lambda>a. a\<lparr>pgClient := True\<rparr>)))))"

definition TxManager :: "md_libs \<Rightarrow> unit start_op" where
  "TxManager lib = once_made txManager
    (bindE (PGClient lib) (\<lambda>_. modifyE (\<lambda>a. a\<lparr>txManager := True\<rparr>)))"

definition SaramaClient :: "md_libs \<Rightarrow> unit start_op" where
  "SaramaClient lib = once_made saramaClient
    (bindE (construct CloseSarama (md_NewClient lib)) (\<lambda>_.
     bindE (md_AddNamed ''SaramaClient'' CloseSarama) (\<lambda>_.
     modifyE (\<lambda>a. a\<lparr>saramaClient := True\<rparr>))))"

definition SyncProducer :: "md_libs \<Rightarrow> unit start_op" where
  "SyncProducer lib = once_made syncProducer
    (bindE (SaramaClient lib) (\<lambda>_.
     bindE (construct CloseProducer (md_NewSyncProducer lib)) (\<lambda>_.
     bindE (md_AddNamed ''SyncProducer'' CloseProducer) (\<lambda>_.
     modifyE (\<lambda>a. a\<lparr>syncProducer := True\<rparr>)))))"

definition ObjectDeletedProducer :: "md_libs \<Rightarrow> unit start_op" where
  "ObjectDeletedProducer lib = once_made objectDeletedProducer
    (bindE (SyncProducer lib) (\<lambda>_. modifyE (\<lambda>a. a\<lparr>objectDeletedProducer := True\<rparr>)))"

definition BucketDeletedProducer :: "md_libs \<Rightarrow> unit start_op" where
  "BucketDeletedProducer lib = once_made bucketDeletedProducer
    (bindE (SyncProducer lib) (\<lambda>_. modifyE (\<lambda>a. a\<lparr>bucketDeletedProducer := True\<rparr>)))"

definition BucketRepository :: "md_libs \<Rightarrow> unit start_op" where
  "BucketRepository lib = once_made bucketRepository
    (bindE (PGClient lib) (\<lambda>_. modifyE (\<lambda>a. a\<lparr>bucketRepository := True\<rparr>)))"

definition ObjectRepository :: "md_libs \<Rightarrow> unit start_op" where
  "ObjectRepository lib = once_made objectRepository
    (bindE (PGClient lib) (\<lambda>_. modifyE (\<lambda>a. a\<lparr>objectRepository := True\<rparr>)))"

definition BucketService :: "md_libs \<Rightarrow> unit start_op" where
  "BucketService lib = once_made md_bucketService
    (bindE (BucketRepository lib) (\<lambda>_.
     bindE (TxManager lib) (\<lambda>_.
     bindE (BucketDeletedProducer lib) (\<lambda>_.
     modifyE (\<lambda>a. a\<lparr>md_bucketService := True\<rparr>)))))"

definition md_ObjectService :: "md_libs \<Rightarrow> unit start_op" where
  "md_ObjectService lib = once_made md_objectService
    (bindE (ObjectRepository lib) (\<lambda>_.
     bindE (TxManager lib) (\<lambda>_.
     bindE (ObjectDeletedProducer lib) (\<lambda>_.
     bindE (PGClient lib) (\<lambda>_.
     bindE (SaramaClient lib) (\<lambda>_.
     modifyE (\<lambda>a. a\<lparr>md_objectService := True\<rparr>)))))))"

definition MetadataHandler :: "md_libs \<Rightarrow> unit start_op" where
  "MetadataHandler lib = once_made metadataHandler
    (bindE (BucketService lib) (\<lambda>_.
     bindE (md_ObjectService lib) (\<lambda>_.
     modifyE (\<lambda>a. a\<lparr>metadataHandler := True\<rparr>))))"

section \<open>Start\<close>

text \<open>
  The closer of the package exists before \<open>main\<close>; \<open>Configure\<close> starts the handler of signals. A
  meter provider that could not be made is registered all the same.
\<close>

definition new_md_app :: "log_world \<Rightarrow> md_app" where
  "new_md_app lw = \<lparr>pgClient = False, txManager = False, saramaClient = False, syncProducer = False,
     bucketRepository = False, objectRepository = False, objectDeletedProducer = False, bucketDeletedProducer = False,
     md_bucketService = False, md_objectService = False, metadataHandler = False, grpcServer = False,
     md_closer = closer_New defaultShutdownTimeout, constructed = [], md_log = lw\<rparr>"

definition md_shutdownTimeout :: int where
  "md_shutdownTimeout = 10 * 10 ^ 9"

definition md_initLogger :: "md_libs \<Rightarrow> unit start_op" where
  "md_initLogger lib = modifyE (\<lambda>a. a\<lparr>md_log := logger_Init (md_otlp_logger lib) (md_log_config lib) (md_log a)\<rparr>)"

definition md_initCloser :: "unit start_op" where
  "md_initCloser = modifyE (\<lambda>a. a\<lparr>md_closer := Configure md_shutdownTimeout (md_closer a)\<rparr>)"

definition md_initMetrics :: "md_libs \<Rightarrow> unit start_op" where
  "md_initMetrics lib =
    bindE (case md_InitOTELMetrics lib of
        None \<Rightarrow> modifyE (\<lambda>a. a\<lparr>constructed := ShutdownMeter # constructed a\<rparr>)
      | Some err \<Rightarrow> returnE ()) (\<lambda>_.
    bindE (md_AddNamed ''OTEL Metrics'' ShutdownMeter) (\<lambda>_.
    unless_nil (md_metric_Init lib) Start_error))"

definition initGRPCServer :: "md_libs \<Rightarrow> unit start_op" where
  "initGRPCServer lib =
    bindE (modifyE (\<lambda>a. a\<lparr>grpcServer := True\<rparr>)) (\<lambda>_.
    bindE (md_AddNamed ''GRPC server'' StopServer) (\<lambda>_.
    MetadataHandler lib))"

definition md_initTracing :: "md_libs \<Rightarrow> unit start_op" where
  "md_initTracing lib =
    bindE (unless_nil (md_InitTracer lib) Start_error) (\<lambda>_.
    bindE (modifyE (\<lambda>a. a\<lparr>constructed := ShutdownTracing # constructed a\<rparr>)) (\<lambda>_.
    md_AddNamed ''tracer'' ShutdownTracing))"

definition md_initDeps :: "md_libs \<Rightarrow> unit start_op" where
  "md_initDeps lib =
    bindE (unless_nil (md_Load lib) Start_error) (\<lambda>_.
    bindE (md_initLogger lib) (\<lambda>_.
    bindE md_initCloser (\<lambda>_.
    bindE (md_initMetrics lib) (\<lambda>_.
    bindE (initGRPCServer lib) (\<lambda>_.
    md_initTracing lib)))))"

section \<open>The process\<close>

text \<open>
  The main goroutine serves until \<open>Serve\<close> returns: with nil after \<open>GracefulStop\<close> was called, or
  with an error, as when the port cannot be listened on. Then \<open>main\<close> returns, and the process ends
  with all its goroutines; nothing waits for \<open>CloseAll\<close>. A fatal log line exits with 1.
\<close>

datatype main_goroutine = Serving | Process_exit nat

datatype 'f process_event = Closing "'f closer_event" | Serve_nil | Serve_error

inductive process_step ::
  "'f \<Rightarrow> ('f \<Rightarrow> call_end \<Rightarrow> bool) \<Rightarrow> main_goroutine \<times> 'f closer \<Rightarrow> 'f process_event \<Rightarrow> main_goroutine \<times> 'f closer \<Rightarrow> bool"
  for server :: 'f and behaves :: "'f \<Rightarrow> call_end \<Rightarrow> bool" where
  closing: "closer_step behaves c e c' \<Longrightarrow> process_step server behaves (Serving, c) (Closing e) (Serving, c')"
| serve_nil: "(t, wk) \<in># workers c \<Longrightarrow> task_fun t = server \<Longrightarrow> wk \<noteq> Ready \<Longrightarrow>
    process_step server behaves (Serving, c) Serve_nil (Process_exit 0, c)"
| serve_error: "process_step server behaves (Serving, c) Serve_error (Process_exit 1, c)"

section \<open>What a start registers\<close>

text \<open>A field of the provider at a known state.\<close>

lemma once_made_at:
  "wpE (once_made field init) Q E a \<longleftrightarrow> (if field a then Q () a else wpE init Q E a)"
  by (simp add: once_made_def wp)

lemmas provider_at = once_made_at wpE_at PGClient_def TxManager_def SaramaClient_def SyncProducer_def
  ObjectDeletedProducer_def BucketDeletedProducer_def BucketRepository_def ObjectRepository_def BucketService_def
  md_ObjectService_def MetadataHandler_def construct_def md_AddNamed_def

definition registered :: "md_task task list" where
  "registered = [Named ''OTEL Metrics'' ShutdownMeter, Named ''GRPC server'' StopServer, Named ''PGClient'' ClosePG,
     Named ''SaramaClient'' CloseSarama, Named ''SyncProducer'' CloseProducer, Named ''tracer'' ShutdownTracing]"

definition started_closer :: "md_task closer" where
  "started_closer = closer_Add registered (Configure md_shutdownTimeout (closer_New defaultShutdownTimeout))"

lemma AddNamed_Add: "AddNamed n t (closer_Add ts c) = closer_Add (ts @ [Named n t]) c"
  by (simp add: AddNamed_def closer_Add_def)

lemma start_registers:
  assumes "md_initDeps lib (new_md_app lw) = (Inr (), a)"
  shows "md_closer a = started_closer"
    "constructed a = [ShutdownTracing, CloseProducer, CloseSarama, ClosePG] @
       (if md_InitOTELMetrics lib = None then [ShutdownMeter] else [])"
proof -
  have add: "AddNamed n t (Configure d c) = closer_Add [Named n t] (Configure d c)" for n and t :: md_task and d c
    by (simp add: AddNamed_def)
  have "wpE (md_initDeps lib) (\<lambda>_ a. md_closer a = started_closer \<and>
      constructed a = [ShutdownTracing, CloseProducer, CloseSarama, ClosePG] @
        (if md_InitOTELMetrics lib = None then [ShutdownMeter] else [])) (\<lambda>_ _. True) (new_md_app lw)"
    by (cases "md_InitOTELMetrics lib")
      (simp_all add: md_initDeps_def md_initLogger_def md_initCloser_def md_initMetrics_def initGRPCServer_def
        md_initTracing_def provider_at new_md_app_def add AddNamed_Add started_closer_def registered_def
        split: option.split)
  with assms show "md_closer a = started_closer"
    "constructed a = [ShutdownTracing, CloseProducer, CloseSarama, ClosePG] @
       (if md_InitOTELMetrics lib = None then [ShutdownMeter] else [])"
    by (simp_all add: wpE_def)
qed

section \<open>What an exit promises\<close>

definition process_inv :: "'f \<Rightarrow> main_goroutine \<times> 'f closer \<Rightarrow> bool" where
  "process_inv server s = (closer_inv (snd s) \<and>
     (fst s = Process_exit 0 \<longrightarrow> (\<exists>x \<in># workers (snd s). task_fun (fst x) = server \<and> snd x \<noteq> Ready)))"

lemma process_step_inv: "process_step server behaves s e t \<Longrightarrow> process_inv server s \<Longrightarrow> process_inv server t"
proof (induction rule: process_step.induct)
  case (closing c e c')
  then show ?case by (auto simp: process_inv_def intro: closer_step_inv)
next
  case (serve_nil t wk c)
  then show ?case by (force simp: process_inv_def)
qed (simp add: process_inv_def)

interpretation process: safe_machine "process_step server behaves" "process_inv server"
  for server :: 'f and behaves
  by unfold_locales (rule process_step_inv)

lemma runs_closing:
  "runs (closer_step behaves) c es c' \<Longrightarrow>
     runs (process_step server behaves) (Serving, c) (map Closing es) (Serving, c')"
  by (induction rule: runs.induct) (auto intro: runs.intros process_step.closing)

lemma started_closer_inv: "closer_inv started_closer" "funcs started_closer = registered" "phase started_closer = Idle"
proof -
  have "closer_inv (Configure md_shutdownTimeout (closer_New defaultShutdownTimeout :: md_task closer))"
    by (rule closer_step_inv [OF closer_step.configure closer_New_inv])
  from closer_step_inv [OF closer_step.add this] show "closer_inv started_closer" by (simp add: started_closer_def)
qed (simp_all add: started_closer_def closer_Add_def Configure_def closer_New_def)

text \<open>A shutdown in which the goroutine of the server is scheduled first.\<close>

lemma server_first:
  assumes "behaves StopServer (Returns None)"
  shows "\<exists>es c. runs (closer_step behaves) started_closer es c \<and> phase c = Reading None \<and>
    workers c = add_mset (Named ''GRPC server'' StopServer, Gone None)
      {#(Named ''OTEL Metrics'' ShutdownMeter, Ready), (Named ''PGClient'' ClosePG, Ready),
        (Named ''SaramaClient'' CloseSarama, Ready), (Named ''SyncProducer'' CloseProducer, Ready),
        (Named ''tracer'' ShutdownTracing, Ready)#}"
proof -
  let ?g = "Named ''GRPC server'' StopServer"
  let ?rest = "{#(Named ''OTEL Metrics'' ShutdownMeter, Ready), (Named ''PGClient'' ClosePG, Ready),
        (Named ''SaramaClient'' CloseSarama, Ready), (Named ''SyncProducer'' CloseProducer, Ready),
        (Named ''tracer'' ShutdownTracing, Ready)#}"
  have "\<exists>c. runs (closer_step behaves) started_closer
      (Signalled # Began # map Spawned (rev registered) @ [Spawned_all, Entered ?g, Left ?g (Returns None), Exited ?g]) c \<and>
    phase c = Reading None \<and> workers c = add_mset (?g, Gone None) ?rest"
    unfolding registered_def rev.simps append.simps list.map
    apply (rule exI, rule conjI)
     apply (rule runs.go, rule closer_step.signal,
        simp add: started_closer_def Configure_def closer_New_def closer_Add_def Let_def,
        simp add: started_closer_def Configure_def closer_New_def closer_Add_def registered_def Let_def)
     apply (rule runs.go, rule closer_step.begin_close, simp, simp, simp, simp)
     apply (rule runs.go, rule closer_step.spawn, simp, simp)
     apply (rule runs.go, rule closer_step.spawn, simp, simp)
     apply (rule runs.go, rule closer_step.spawn, simp, simp)
     apply (rule runs.go, rule closer_step.spawn, simp, simp)
     apply (rule runs.go, rule closer_step.spawn, simp, simp)
     apply (rule runs.go, rule closer_step.spawn, simp, simp)
     apply (rule runs.go, rule closer_step.spawned, simp, simp)
     apply (rule runs.go, rule closer_step.enter [where t = ?g and ws = ?rest], simp add: add_mset_commute, simp)
     apply (rule runs.go, rule closer_step.leave [where t = ?g and ws = ?rest], simp, simp add: assms, simp)
     apply (rule runs.go, rule closer_step.exit [where t = ?g and oe = None and ws = ?rest], simp, simp, simp)
     apply simp
    done
  then show ?thesis by blast
qed

section \<open>Property\<close>

text \<open>
  C40. A started metadata service has made every library object once and registered its closing.
  Its process exits with 0 only when a shutdown has begun and has called \<open>GracefulStop\<close>; but
  nothing more: in some schedule of every started service the process ends while none of the
  other closing functions has been entered, so buffered traces and metrics are lost and the
  Kafka producer and the database pool are cut off.
\<close>

theorem process_exit_cuts_shutdown:
  assumes "md_initDeps lib (new_md_app lw) = (Inr (), a)" "behaves StopServer (Returns None)"
  shows "distinct (constructed a) \<and> set (constructed a) \<subseteq> task_fun ` set (funcs (md_closer a)) \<and>
    (\<forall>ls c. runs (process_step StopServer behaves) (Serving, md_closer a) ls (Process_exit 0, c) \<longrightarrow>
       phase c \<noteq> Idle \<and> (\<exists>x \<in># workers c. task_fun (fst x) = StopServer \<and> snd x \<noteq> Ready)) \<and>
    (\<exists>ls c. runs (process_step StopServer behaves) (Serving, md_closer a) ls (Process_exit 0, c) \<and>
       (\<forall>t \<in> set registered. task_fun t \<noteq> StopServer \<longrightarrow> (t, Ready) \<in># workers c))"
proof -
  note start = start_registers [OF assms(1)]
  have began: "phase c \<noteq> Idle \<and> (\<exists>x \<in># workers c. task_fun (fst x) = StopServer \<and> snd x \<noteq> Ready)"
    if run: "runs (process_step StopServer behaves) (Serving, started_closer) ls (Process_exit 0, c)" for ls c
  proof -
    have "process_inv StopServer (Process_exit 0, c)"
      by (rule process.runs_inv [OF run]) (simp add: process_inv_def started_closer_inv)
    then show ?thesis by (auto simp: process_inv_def closer_inv_def workers_ok_def phase_ok_def)
  qed
  from server_first [of behaves, OF assms(2)] obtain es c where c: "runs (closer_step behaves) started_closer es c"
    "workers c = add_mset (Named ''GRPC server'' StopServer, Gone None)
      {#(Named ''OTEL Metrics'' ShutdownMeter, Ready), (Named ''PGClient'' ClosePG, Ready),
        (Named ''SaramaClient'' CloseSarama, Ready), (Named ''SyncProducer'' CloseProducer, Ready),
        (Named ''tracer'' ShutdownTracing, Ready)#}" by blast
  have "process_step StopServer behaves (Serving, c) Serve_nil (Process_exit 0, c)"
    by (rule process_step.serve_nil [where t = "Named ''GRPC server'' StopServer" and wk = "Gone None"]) (simp_all add: c(2))
  with runs_closing [OF c(1)] have "runs (process_step StopServer behaves) (Serving, started_closer)
      (map Closing es @ [Serve_nil]) (Process_exit 0, c)"
    by (auto simp: runs_snoc)
  moreover have "\<forall>t \<in> set registered. task_fun t \<noteq> StopServer \<longrightarrow> (t, Ready) \<in># workers c"
    by (simp add: registered_def c(2))
  moreover have "set (constructed a) \<subseteq> task_fun ` set registered" "distinct (constructed a)"
    by (auto simp: start(2) registered_def)
  ultimately show ?thesis
    unfolding start(1) started_closer_inv(2) using began by blast
qed

definition example_md :: md_libs where
  "example_md = \<lparr>md_Load = None, md_log_config = \<lparr>LogLevel = ''info'', AsJSON = True, EnableOLTP = True\<rparr>, md_otlp_logger = True,
     md_InitOTELMetrics = None, md_metric_Init = None, md_NewPGClient = None, md_Ping = None, md_NewClient = None,
     md_NewSyncProducer = None, md_InitTracer = None\<rparr>"

theorem process_exit_cuts_shutdown_witness:
  "\<exists>a ls c. md_initDeps example_md (new_md_app no_log) = (Inr (), a) \<and>
     runs (process_step StopServer (\<lambda>_ r. r = Returns None)) (Serving, md_closer a) ls (Process_exit 0, c) \<and>
     (Named ''tracer'' ShutdownTracing, Ready) \<in># workers c"
proof -
  have "wpE (md_initDeps example_md) (\<lambda>_ _. True) (\<lambda>_ _. False) (new_md_app no_log)"
    by (simp add: md_initDeps_def md_initLogger_def md_initCloser_def md_initMetrics_def initGRPCServer_def md_initTracing_def
        provider_at new_md_app_def example_md_def)
  then obtain a where a: "md_initDeps example_md (new_md_app no_log) = (Inr (), a)"
    by (auto simp: wpE_def split: prod.splits sum.splits)
  from process_exit_cuts_shutdown [OF a, of "\<lambda>_ r. r = Returns None"] a show ?thesis
    by (auto simp: registered_def)
qed

end
