(* ===== verification/Storage_Metrics.thy ===== *)
theory Storage_Metrics
  imports Storage_Service Ratelimiter "HOL-Library.Char_ord" "HOL-Library.List_Lexorder"
begin

text \<open>
  The gauges of the storage service, \<open>services/storage/internal/observability/metrics.go\<close>: the
  instruments and their registration, the space used on the file system, and the space used
  below the data directory. The two byte counters are in \<open>Storage_Service\<close>.
\<close>

section \<open>Space used\<close>

text \<open>
  \<open>statfs\<close> reports the blocks, the free blocks and the block size as 64-bit words; the code
  subtracts unsigned, converts, and multiplies signed. \<open>stats\<close> is what the system reports at a
  tick.
\<close>

definition getFilesystemUsageBytes :: "(nat \<Rightarrow> 64 word \<times> 64 word \<times> 64 word) \<Rightarrow> path \<Rightarrow> int fsop" where
  "getFilesystemUsageBytes stats dir =
    bindE (wrapE (WrapError ''statfs data dir'') (sys_read (\<lambda>w. case fs_lookup (nodes w) dir of
       Inl e \<Rightarrow> Inl e | Inr _ \<Rightarrow> Inr (stats (now w))))) (\<lambda>(blocks, bfree, bsize).
    let usedBlocks = sint (blocks - bfree); blockSize = sint bsize in
    returnE (int64_of (usedBlocks * blockSize)))"

text \<open>
  \<open>filepath.WalkDir\<close> visits a tree in lexical order, parents first: it looks the root up, reads
  every directory it enters, and the callback looks every file up. The files are those the tree
  has when the walk starts; one that is gone when it is looked up ends the walk with its error.
\<close>

definition walk_paths :: "fs \<Rightarrow> path \<Rightarrow> path list" where
  "walk_paths t dir = sorted_list_of_fset (ffilter (prefix dir) (fmdom t))"

primrec walk_loop :: "path list \<Rightarrow> int \<Rightarrow> int fsop" where
  "walk_loop [] n = returnE n"
| "walk_loop (p # ps) n =
    bindE (os_Stat p) (\<lambda>d. case d of
      Dir \<Rightarrow> walk_loop ps n
    | File b \<Rightarrow> walk_loop ps (int64_of (n + int (length b))))"

definition getDataDirUsageBytes :: "path \<Rightarrow> int fsop" where
  "getDataDirUsageBytes dir =
    wrapE (WrapError ''walk data dir'')
      (bindE (os_Stat dir) (\<lambda>_.
       bindE (getsE (\<lambda>w. walk_paths (nodes w) dir)) (\<lambda>ps. walk_loop ps 0)))"

text \<open>The callback of the two gauges.\<close>

definition observe_usage :: "(nat \<Rightarrow> 64 word \<times> 64 word \<times> 64 word) \<Rightarrow> path \<Rightarrow> (int \<times> int) fsop" where
  "observe_usage stats dir =
    bindE (getFilesystemUsageBytes stats dir) (\<lambda>fsUsedBytes.
    bindE (getDataDirUsageBytes dir) (\<lambda>dataDirUsedBytes.
    returnE (fsUsedBytes, dataDirUsedBytes)))"

section \<open>Instruments\<close>

text \<open>An instrument of the meter, or the one of the noop meter that stands in for it.\<close>

datatype instrument = Metered | Noop

record metrics_state =
  once_done :: bool
  initErr :: "go_error option"
  readBytes_counter :: "instrument option"
  writeBytes_counter :: "instrument option"
  fsDiskUsage :: "instrument option"
  dataDirUsage :: "instrument option"
  registration :: bool

definition no_metrics :: metrics_state where
  "no_metrics = \<lparr>once_done = False, initErr = None, readBytes_counter = None, writeBytes_counter = None,
     fsDiskUsage = None, dataDirUsage = None, registration = False\<rparr>"

text \<open>
  \<open>create\<close> answers the creation of an instrument by name, \<open>register\<close> that of the callback. The
  four instruments are created in turn, each with its variable; the first that fails is replaced
  by one of the noop meter and ends the initialisation.
\<close>

definition instruments :: "(string \<times> (instrument \<Rightarrow> metrics_state \<Rightarrow> metrics_state)) list" where
  "instruments =
    [(''storage_read_bytes_total'', \<lambda>i s. s\<lparr>readBytes_counter := Some i\<rparr>),
     (''storage_write_bytes_total'', \<lambda>i s. s\<lparr>writeBytes_counter := Some i\<rparr>),
     (''storage_filesystem_usage_bytes'', \<lambda>i s. s\<lparr>fsDiskUsage := Some i\<rparr>),
     (''storage_data_dir_usage_bytes'', \<lambda>i s. s\<lparr>dataDirUsage := Some i\<rparr>)]"

fun create_instruments :: "(string \<Rightarrow> go_error option) \<Rightarrow> (string \<times> (instrument \<Rightarrow> metrics_state \<Rightarrow> metrics_state)) list
    \<Rightarrow> metrics_state \<Rightarrow> metrics_state" where
  "create_instruments create [] s = s"
| "create_instruments create ((name, assign) # is) s =
    (case create name of
       Some err \<Rightarrow> (assign Noop s)\<lparr>initErr := Some err\<rparr>
     | None \<Rightarrow> create_instruments create is ((assign Metered s)\<lparr>initErr := None\<rparr>))"

definition InitMetrics :: "(string \<Rightarrow> go_error option) \<Rightarrow> go_error option \<Rightarrow> metrics_state \<Rightarrow> go_error option \<times> metrics_state" where
  "InitMetrics create register s =
    (let s' =
       (if once_done s then s
        else let s1 = create_instruments create instruments (s\<lparr>once_done := True\<rparr>) in
          if initErr s1 \<noteq> None then s1
          else s1\<lparr>initErr := register, registration := (register = None)\<rparr>)
     in (initErr s', s'))"

text \<open>\<open>Shutdown\<close> drops the registration's answer; unregistering twice is harmless to the library.\<close>

definition metrics_Shutdown :: "metrics_state \<Rightarrow> bool" where
  "metrics_Shutdown s = registration s"

section \<open>Properties\<close>

text \<open>The outcome of the first initialisation is the outcome of every later one.\<close>

lemma create_instruments_once: "once_done (create_instruments create instruments s) = once_done s"
  by (simp add: instruments_def split: option.split)

lemma InitMetrics_once:
  assumes "InitMetrics create register s = (r, s')"
  shows "InitMetrics create' register' s' = (r, s')"
proof -
  have "once_done s' \<and> initErr s' = r"
    using assms by (auto simp: InitMetrics_def Let_def create_instruments_once split: if_splits)
  then show ?thesis by (simp add: InitMetrics_def)
qed

text \<open>It succeeds exactly when the callback is registered with all instruments in place.\<close>

lemma InitMetrics_complete:
  assumes "InitMetrics create register no_metrics = (r, s)"
  shows "r = None \<longleftrightarrow> registration s"
    "registration s \<Longrightarrow> readBytes_counter s = Some Metered \<and> writeBytes_counter s = Some Metered \<and>
       fsDiskUsage s = Some Metered \<and> dataDirUsage s = Some Metered"
proof -
  define s1 where "s1 = create_instruments create instruments (no_metrics\<lparr>once_done := True\<rparr>)"
  have "\<not> registration s1 \<and> (initErr s1 = None \<longrightarrow> readBytes_counter s1 = Some Metered \<and>
      writeBytes_counter s1 = Some Metered \<and> fsDiskUsage s1 = Some Metered \<and> dataDirUsage s1 = Some Metered)"
    by (simp add: s1_def instruments_def no_metrics_def split: option.split)
  moreover have "(r, s) = (if initErr s1 \<noteq> None then (initErr s1, s1)
      else (register, s1\<lparr>initErr := register, registration := (register = None)\<rparr>))"
    using assms by (auto simp: InitMetrics_def Let_def s1_def no_metrics_def split: if_splits)
  ultimately show "r = None \<longleftrightarrow> registration s"
    "registration s \<Longrightarrow> readBytes_counter s = Some Metered \<and> writeBytes_counter s = Some Metered \<and>
       fsDiskUsage s = Some Metered \<and> dataDirUsage s = Some Metered"
    by (simp_all split: if_splits)
qed

text \<open>
  The used space is exact below the range of the numbers, which is where file systems are: when
  the free blocks are at most all blocks and the product fits.
\<close>

lemma used_space_exact:
  fixes blocks bfree bsize :: "64 word"
  assumes "bfree \<le> blocks" "unat blocks < 2 ^ 63" "unat bsize < 2 ^ 63"
    "(unat blocks - unat bfree) * unat bsize < 2 ^ 63"
  shows "int64_of (sint (blocks - bfree) * sint bsize) = int ((unat blocks - unat bfree) * unat bsize)"
proof -
  have "sint (blocks - bfree) = int (unat blocks - unat bfree)"
  proof -
    have u: "uint (blocks - bfree) = int (unat blocks - unat bfree)"
      using unat_sub [OF assms(1)] by (simp only: uint_nat)
    then have "uint (blocks - bfree) < 2 ^ 63" using assms(2) by simp
    with u show ?thesis by (simp add: sint_uint signed_take_bit_int_eq_self)
  qed
  moreover have "sint bsize = int (unat bsize)"
  proof -
    have "int (unat bsize) < 2 ^ 63" using assms(3) by (simp only: of_nat_less_numeral_power_cancel_iff)
    then have "uint bsize < 2 ^ 63" by (simp only: uint_nat)
    then have "sint bsize = uint bsize"
      by (subst sint_uint) (rule signed_take_bit_int_eq_self, use order_trans [OF _ uint_ge_0 [of bsize], of "- 9223372036854775808"] in \<open>simp_all\<close>)
    then show ?thesis by (simp only: uint_nat)
  qed
  ultimately have "sint (blocks - bfree) * sint bsize = int ((unat blocks - unat bfree) * unat bsize)"
    by (simp only: of_nat_mult)
  moreover have "int ((unat blocks - unat bfree) * unat bsize) < 2 ^ 63"
    using assms(4) by (simp only: of_nat_less_numeral_power_cancel_iff)
  ultimately show ?thesis using int64_of_small [of "int ((unat blocks - unat bfree) * unat bsize)"]
    by (simp only:)
qed

text \<open>
  The gauge of the data directory only reads, and when it answers, its value is the total size of
  the files below the directory, as a 64-bit number.
\<close>

definition size_at :: "fs \<Rightarrow> path \<Rightarrow> int" where
  "size_at t p = (case file_at t p of None \<Rightarrow> 0 | Some b \<Rightarrow> int (length b))"

definition tree_size :: "fs \<Rightarrow> path \<Rightarrow> int" where
  "tree_size t dir = (\<Sum>p \<in> fset (ffilter (prefix dir) (fmdom t)). size_at t p)"

lemma int64_of_add: "int64_of (int64_of a + b) = int64_of (a + b)"
proof -
  let ?m = "(2 :: int) ^ 63" and ?n = "(2 :: int) ^ 64"
  have "(a + ?m) mod ?n - ?m + b + ?m = (a + ?m) mod ?n + b" by linarith
  then have "((a + ?m) mod ?n - ?m + b + ?m) mod ?n = ((a + ?m) mod ?n + b) mod ?n" by (simp only:)
  also have "\<dots> = (a + ?m + b) mod ?n" by (rule mod_add_left_eq)
  finally show ?thesis by (simp only: int64_of_def ac_simps)
qed

lemma walk_loop_wp:
  "int64_of n = n \<Longrightarrow>
    wpE (walk_loop ps n) (\<lambda>r w'. nodes w' = nodes w \<and> r = int64_of (n + sum_list (map (size_at (nodes w)) ps)))
      (\<lambda>_ w'. nodes w' = nodes w) w"
proof (induction ps arbitrary: n w)
  case Nil
  then show ?case by (simp add: wp)
next
  case (Cons p ps)
  have "wpE (walk_loop ps (int64_of (n + size_at (nodes w) p)))
      (\<lambda>r w'. nodes w' = nodes w \<and> r = int64_of (n + sum_list (map (size_at (nodes w)) (p # ps))))
      (\<lambda>_ w'. nodes w' = nodes w) w1" if "nodes w1 = nodes w" for w1
    using Cons.IH [of "int64_of (n + size_at (nodes w) p)" w1] int64_of_add [of "n + size_at (nodes w) p"] that
      int64_of_add [of "n + size_at (nodes w) p" 0] by (simp add: add.assoc)
  moreover have "size_at (nodes w) p = 0" if "fs_lookup (nodes w) p = Inr Dir"
    using that by (auto simp: size_at_def file_at_def fs_lookup_def split: if_splits option.splits)
  moreover have "size_at (nodes w) p = int (length b)" if "fs_lookup (nodes w) p = Inr (File b)" for b
    using that by (auto simp: size_at_def file_at_def fs_lookup_def split: if_splits option.splits)
  ultimately show ?case
    unfolding walk_loop.simps wp os_Stat_def
    by (intro wpE_sys_read) (auto simp: wp Cons.prems split: node.splits)
qed

lemma getDataDirUsageBytes_wp:
  "wpE (getDataDirUsageBytes dir)
     (\<lambda>n w'. nodes w' = nodes w \<and> n = int64_of (tree_size (nodes w) dir))
     (\<lambda>_ w'. nodes w' = nodes w) w"
proof -
  have "sum_list (map (size_at (nodes w)) (walk_paths (nodes w) dir)) = tree_size (nodes w) dir"
    unfolding walk_paths_def tree_size_def by (subst sum_list_distinct_conv_sum_set) (simp_all add: sorted_list_of_fset.rep_eq)
  moreover have "int64_of 0 = 0" by (simp add: int64_of_def)
  ultimately have "wpE (walk_loop (walk_paths (nodes w) dir) 0)
      (\<lambda>n w'. nodes w' = nodes w \<and> n = int64_of (tree_size (nodes w) dir)) (\<lambda>_ w'. nodes w' = nodes w) w1"
    if "nodes w1 = nodes w" for w1
    using walk_loop_wp [of 0 "walk_paths (nodes w) dir" w1] that by simp
  then show ?thesis
    unfolding getDataDirUsageBytes_def wp os_Stat_def by (intro wpE_sys_read) simp_all
qed

end
