(* ===== verification/Service_Apps.thy ===== *)
theory Service_Apps
  imports Service_App Storage_Metrics
begin

text \<open>
  The processes of the storage, users and auth services, \<open>internal/app\<close> and \<open>cmd/server\<close> of each.
  They are started as the metadata service is, in \<open>Service_App\<close>, each with its own clients. The
  fields of a provider and the registered functions are named by strings here, so that the three
  share their world and the steps that are the same code.
\<close>

section \<open>The shared start\<close>

record svc_libs =
  svc_Load :: "go_error option"
  svc_log_config :: log_config
  svc_otlp_logger :: bool
  svc_InitOTELMetrics :: "go_error option"
  svc_metric_Init :: "go_error option"
  svc_create_instrument :: "string \<Rightarrow> go_error option"
  svc_register_callback :: "go_error option"
  svc_NewPGClient :: "go_error option"
  svc_Ping :: "go_error option"
  svc_NewClient :: "go_error option"
  svc_InitTracer :: "go_error option"

record svc_app =
  made :: "string set"
  svc_closer :: "string closer"
  opened :: "string list"
  svc_metrics :: metrics_state
  svc_log :: log_world

text \<open>A start fails with an error, by a panic, or by a fatal log line.\<close>

datatype svc_failure = Svc_error go_error | Svc_panic go_error | Svc_fatal go_error

type_synonym svc_op = "(svc_app, svc_failure, unit) op"

definition svc_AddNamed :: "string \<Rightarrow> svc_op" where
  "svc_AddNamed name = modifyE (\<lambda>a. a\<lparr>svc_closer := AddNamed name name (svc_closer a)\<rparr>)"

definition opens :: "string \<Rightarrow> svc_op" where
  "opens name = modifyE (\<lambda>a. a\<lparr>opened := name # opened a\<rparr>)"

definition field_once :: "string \<Rightarrow> svc_op \<Rightarrow> svc_op" where
  "field_once field init = bindE (getsE (\<lambda>a. field \<in> made a)) (\<lambda>there. if there then returnE () else
     bindE init (\<lambda>_. modifyE (\<lambda>a. a\<lparr>made := insert field (made a)\<rparr>)))"

definition svc_new :: "log_world \<Rightarrow> svc_app" where
  "svc_new lw = \<lparr>made = {}, svc_closer = closer_New defaultShutdownTimeout, opened = [], svc_metrics = no_metrics, svc_log = lw\<rparr>"

definition svc_initLogger :: "svc_libs \<Rightarrow> svc_op" where
  "svc_initLogger lib = modifyE (\<lambda>a. a\<lparr>svc_log := logger_Init (svc_otlp_logger lib) (svc_log_config lib) (svc_log a)\<rparr>)"

definition svc_initCloser :: "int \<Rightarrow> svc_op" where
  "svc_initCloser timeout = modifyE (\<lambda>a. a\<lparr>svc_closer := Configure timeout (svc_closer a)\<rparr>)"

definition svc_initMetrics :: "svc_libs \<Rightarrow> svc_op" where
  "svc_initMetrics lib =
    bindE (if svc_InitOTELMetrics lib = None then opens ''OTEL Metrics'' else returnE ()) (\<lambda>_.
    bindE (svc_AddNamed ''OTEL Metrics'') (\<lambda>_.
    unless_nil (svc_metric_Init lib) Svc_error))"

definition svc_initGRPCServer :: "svc_op \<Rightarrow> svc_op" where
  "svc_initGRPCServer handler = bindE (svc_AddNamed ''GRPC server'') (\<lambda>_. handler)"

definition svc_initTracing :: "svc_libs \<Rightarrow> svc_op" where
  "svc_initTracing lib =
    bindE (unless_nil (svc_InitTracer lib) Svc_error) (\<lambda>_.
    bindE (opens ''tracer'') (\<lambda>_. svc_AddNamed ''tracer''))"

section \<open>Storage\<close>

definition storage_shutdownTimeout :: int where
  "storage_shutdownTimeout = 10 * 10 ^ 9"

definition provider_StorageRepository :: svc_op where
  "provider_StorageRepository = field_once ''storageRepository'' (returnE ())"

definition provider_StorageService :: svc_op where
  "provider_StorageService = field_once ''storageService'' provider_StorageRepository"

definition provider_StorageHandler :: svc_op where
  "provider_StorageHandler = field_once ''storageHandler'' provider_StorageService"

text \<open>The instruments of \<open>Storage_Metrics\<close> and their closing come after those of every service.\<close>

definition storage_initMetrics :: "svc_libs \<Rightarrow> svc_op" where
  "storage_initMetrics lib =
    bindE (svc_initMetrics lib) (\<lambda>_.
    bindE (\<lambda>a. case InitMetrics (svc_create_instrument lib) (svc_register_callback lib) (svc_metrics a) of
        (None, s) \<Rightarrow> (Inr (), a\<lparr>svc_metrics := s\<rparr>)
      | (Some err, s) \<Rightarrow> (Inl (Svc_error err), a\<lparr>svc_metrics := s\<rparr>)) (\<lambda>_.
    bindE (opens ''storage metrics'') (\<lambda>_.
    svc_AddNamed ''storage metrics'')))"

definition storage_initDeps :: "svc_libs \<Rightarrow> svc_op" where
  "storage_initDeps lib =
    bindE (unless_nil (svc_Load lib) Svc_error) (\<lambda>_.
    bindE (svc_initLogger lib) (\<lambda>_.
    bindE (svc_initCloser storage_shutdownTimeout) (\<lambda>_.
    bindE (storage_initMetrics lib) (\<lambda>_.
    bindE (svc_initGRPCServer provider_StorageHandler) (\<lambda>_.
    svc_initTracing lib)))))"

text \<open>
  \<open>serve\<close> is what the server's run answers, listening included. The storage service waits for it
  in a goroutine that logs its error; the others return it.
\<close>

definition storage_Run :: "go_error option \<Rightarrow> go_error option" where
  "storage_Run serve = None"

section \<open>Users\<close>

definition users_shutdownTimeout :: int where
  "users_shutdownTimeout = 10 * 10 ^ 9"

definition users_PGClient :: "svc_libs \<Rightarrow> svc_op" where
  "users_PGClient lib = field_once ''pgClient''
    (bindE (unless_nil (svc_NewPGClient lib) Svc_panic) (\<lambda>_.
     bindE (opens ''PGClient'') (\<lambda>_.
     bindE (unless_nil (svc_Ping lib) Svc_panic) (\<lambda>_.
     svc_AddNamed ''PGClient''))))"

definition provider_UserRepository :: "svc_libs \<Rightarrow> svc_op" where
  "provider_UserRepository lib = field_once ''userRepository'' (users_PGClient lib)"

definition users_TxManager :: "svc_libs \<Rightarrow> svc_op" where
  "users_TxManager lib = field_once ''txManager'' (users_PGClient lib)"

definition provider_UserService :: "svc_libs \<Rightarrow> svc_op" where
  "provider_UserService lib = field_once ''userService''
    (bindE (provider_UserRepository lib) (\<lambda>_. users_TxManager lib))"

definition provider_UserHandler :: "svc_libs \<Rightarrow> svc_op" where
  "provider_UserHandler lib = field_once ''userHandler'' (provider_UserService lib)"

definition users_initDeps :: "svc_libs \<Rightarrow> svc_op" where
  "users_initDeps lib =
    bindE (unless_nil (svc_Load lib) Svc_error) (\<lambda>_.
    bindE (svc_initLogger lib) (\<lambda>_.
    bindE (svc_initCloser users_shutdownTimeout) (\<lambda>_.
    bindE (svc_initMetrics lib) (\<lambda>_.
    bindE (svc_initGRPCServer (provider_UserHandler lib)) (\<lambda>_.
    svc_initTracing lib)))))"

definition users_Run :: "go_error option \<Rightarrow> go_error option" where
  "users_Run serve = serve"

section \<open>Auth\<close>

definition auth_shutdownTimeout :: int where
  "auth_shutdownTimeout = 5 * 10 ^ 9"

definition provider_RedisPool :: svc_op where
  "provider_RedisPool = field_once ''redisPool'' (bindE (opens ''RedisPool'') (\<lambda>_. svc_AddNamed ''RedisPool''))"

definition provider_CacheClient :: svc_op where
  "provider_CacheClient = field_once ''cacheClient'' provider_RedisPool"

definition provider_AuthRepository :: svc_op where
  "provider_AuthRepository = field_once ''authRepository'' provider_CacheClient"

definition provider_TokenService :: svc_op where
  "provider_TokenService = field_once ''tokenService'' (returnE ())"

definition provider_UserClient :: "svc_libs \<Rightarrow> svc_op" where
  "provider_UserClient lib = field_once ''userClient''
    (bindE (unless_nil (svc_NewClient lib) Svc_fatal) (\<lambda>_.
     bindE (opens ''UserClientGRPC'') (\<lambda>_. svc_AddNamed ''UserClientGRPC'')))"

definition provider_AuthService :: "svc_libs \<Rightarrow> svc_op" where
  "provider_AuthService lib = field_once ''authService''
    (bindE (provider_UserClient lib) (\<lambda>_.
     bindE provider_TokenService (\<lambda>_. provider_AuthRepository)))"

definition provider_AuthHandler :: "svc_libs \<Rightarrow> svc_op" where
  "provider_AuthHandler lib = field_once ''authHandler'' (provider_AuthService lib)"

definition auth_initDeps :: "svc_libs \<Rightarrow> svc_op" where
  "auth_initDeps lib =
    bindE (unless_nil (svc_Load lib) Svc_error) (\<lambda>_.
    bindE (svc_initLogger lib) (\<lambda>_.
    bindE (svc_initCloser auth_shutdownTimeout) (\<lambda>_.
    bindE (svc_initMetrics lib) (\<lambda>_.
    bindE (svc_initGRPCServer (provider_AuthHandler lib)) (\<lambda>_.
    svc_initTracing lib)))))"

definition auth_Run :: "go_error option \<Rightarrow> go_error option" where
  "auth_Run serve = serve"

section \<open>Exit codes\<close>

text \<open>\<open>main\<close>: a failed start panics or is fatal, an error of \<open>Run\<close> is fatal.\<close>

definition svc_main :: "(svc_failure + unit) \<Rightarrow> (go_error option \<Rightarrow> go_error option) \<Rightarrow> go_error option \<Rightarrow> nat" where
  "svc_main start run serve =
    (case start of
       Inl (Svc_fatal err) \<Rightarrow> 1
     | Inl _ \<Rightarrow> 2
     | Inr _ \<Rightarrow> (case run serve of Some err \<Rightarrow> 1 | None \<Rightarrow> 0))"

section \<open>What the starts register\<close>

lemma field_once_at:
  "wpE (field_once field init) Q E a \<longleftrightarrow>
     (if field \<in> made a then Q () a else wpE init (\<lambda>_ a. Q () (a\<lparr>made := insert field (made a)\<rparr>)) E a)"
  by (simp add: field_once_def wp)

lemmas start_at = wpE_at field_once_at svc_AddNamed_def opens_def svc_initLogger_def
  svc_initCloser_def svc_initMetrics_def svc_initGRPCServer_def svc_initTracing_def

text \<open>A closer in which exactly these functions are registered, with a signal handler waiting.\<close>

definition registers :: "string list \<Rightarrow> int \<Rightarrow> svc_app \<Rightarrow> bool" where
  "registers names timeout a =
    (svc_closer a = closer_Add (map (\<lambda>n. Named n n) names) (Configure timeout (closer_New defaultShutdownTimeout)) \<and>
     distinct (opened a) \<and> set (opened a) \<subseteq> set names)"

lemma AddNamed_Configure: "AddNamed n t (Configure d c) = closer_Add [Named n t] (Configure d c)"
  by (simp add: AddNamed_def)

lemma users_registers:
  "wpE (users_initDeps lib)
     (\<lambda>_. registers [''OTEL Metrics'', ''GRPC server'', ''PGClient'', ''tracer''] users_shutdownTimeout) (\<lambda>_ _. True) (svc_new lw)"
  by (cases "svc_InitOTELMetrics lib")
    (simp_all add: users_initDeps_def provider_UserHandler_def provider_UserService_def provider_UserRepository_def
      users_TxManager_def users_PGClient_def start_at svc_new_def AddNamed_Configure AddNamed_Add registers_def split: option.split)

lemma auth_registers:
  "wpE (auth_initDeps lib)
     (\<lambda>_. registers [''OTEL Metrics'', ''GRPC server'', ''UserClientGRPC'', ''RedisPool'', ''tracer''] auth_shutdownTimeout)
     (\<lambda>_ _. True) (svc_new lw)"
  by (cases "svc_InitOTELMetrics lib")
    (simp_all add: auth_initDeps_def provider_AuthHandler_def provider_AuthService_def provider_UserClient_def
      provider_TokenService_def provider_AuthRepository_def provider_CacheClient_def provider_RedisPool_def
      start_at svc_new_def AddNamed_Configure AddNamed_Add registers_def split: option.split)

lemma storage_registers:
  "wpE (storage_initDeps lib)
     (\<lambda>_ a. registers [''OTEL Metrics'', ''storage metrics'', ''GRPC server'', ''tracer''] storage_shutdownTimeout a \<and>
        registration (svc_metrics a))
     (\<lambda>_ _. True) (svc_new lw)"
proof -
  obtain r s where init: "InitMetrics (svc_create_instrument lib) (svc_register_callback lib) no_metrics = (r, s)" by fastforce
  have step: "wpE (\<lambda>a. case InitMetrics (svc_create_instrument lib) (svc_register_callback lib) (svc_metrics a) of
        (None, s) \<Rightarrow> (Inr (), a\<lparr>svc_metrics := s\<rparr>)
      | (Some err, s) \<Rightarrow> (Inl (Svc_error err), a\<lparr>svc_metrics := s\<rparr>)) Q E a \<longleftrightarrow>
      (case r of None \<Rightarrow> Q () (a\<lparr>svc_metrics := s\<rparr>) | Some err \<Rightarrow> E (Svc_error err) (a\<lparr>svc_metrics := s\<rparr>))"
    if "svc_metrics a = no_metrics" for Q :: "unit \<Rightarrow> svc_app \<Rightarrow> bool" and E a
    using init that by (simp add: wpE_def split: option.split)
  show ?thesis
    using InitMetrics_complete(1) [OF init]
    by (cases "svc_InitOTELMetrics lib")
      (simp_all add: storage_initDeps_def storage_initMetrics_def step provider_StorageHandler_def provider_StorageService_def
        provider_StorageRepository_def start_at svc_new_def AddNamed_Configure AddNamed_Add registers_def split: option.split)
qed

text \<open>
  So all processes are those of \<open>process_step\<close> with the function of the server among the
  registered ones; and the storage service ends with 0 even when it never served.
\<close>

lemma exit_codes:
  "svc_main (Inr ()) storage_Run serve = 0"
  "svc_main (Inr ()) users_Run serve = 0 \<longleftrightarrow> serve = None"
  "svc_main (Inr ()) auth_Run serve = 0 \<longleftrightarrow> serve = None"
  by (simp_all add: svc_main_def storage_Run_def users_Run_def auth_Run_def split: option.split)

end
