(* ===== verification/Settings.thy ===== *)
theory Settings
  imports Storage_Handler Auth_Redis Tokens Ratelimiter Pg Logger
begin

text \<open>
  The settings of the four gRPC services, \<open>internal/config\<close> of each: what \<open>Load\<close> reads, in which
  order, what stops it, and the values the settings derive. \<open>env.Parse\<close> of each group is a
  parameter, its parsed values or its error; the rules of the rate limiter, of Postgres and of the
  storage service are in their theories. Host names are ASCII.
\<close>

section \<open>Addresses\<close>

definition JoinHostPort :: "string \<Rightarrow> string \<Rightarrow> string" where
  "JoinHostPort host port =
    (if CHR '':'' \<in> set host then ''['' @ host @ '']:'' @ port else host @ '':'' @ port)"

record grpc_config =
  grpc_Host :: string
  grpc_Port :: string

definition grpc_Address :: "grpc_config \<Rightarrow> string" where
  "grpc_Address cfg = JoinHostPort (grpc_Host cfg) (grpc_Port cfg)"

record redis_config =
  redis_Host :: string
  InternalPort :: string
  ExternalPort :: string
  redis_MaxIdle :: int
  ConnTimeout :: int
  IdleTimeout :: int

definition ExternalAddress :: "redis_config \<Rightarrow> string" where
  "ExternalAddress c = JoinHostPort (redis_Host c) (ExternalPort c)"

definition InternalAddress :: "redis_config \<Rightarrow> string" where
  "InternalAddress c = JoinHostPort (redis_Host c) (InternalPort c)"

definition MaxIdle :: "redis_config \<Rightarrow> int" where
  "MaxIdle c = int8_of (redis_MaxIdle c)"

section \<open>Groups of settings\<close>

record logger_settings = log_config +
  log_ServiceName :: string
  log_OTLPEndpoint :: string
  log_ServiceEnvironment :: string

record tracing_settings =
  CollectorEndpoint :: string
  trc_ServiceName :: string
  trc_Environment :: string
  trc_ServiceVersion :: string

record metrics_settings =
  met_ServiceName :: string
  met_ServiceVersion :: string
  met_ServiceEnvironment :: string
  met_OTLPEndpoint :: string
  met_PushTimeout :: int

record kafka_settings =
  BootstrapServers :: string
  ObjectDeletedTopic :: string
  BucketDeletedTopic :: string

record service_env =
  se_dotenv :: "go_error option"
  se_Logger :: "go_error + logger_settings"
  se_GRPC :: "go_error + grpc_config"
  se_UserGRPC :: "go_error + grpc_config"
  se_Storage :: "go_error + storageEnvConfig"
  se_PG :: "go_error + pg_raw_config"
  se_Kafka :: "go_error + kafka_settings"
  se_Redis :: "go_error + redis_config"
  se_JWT :: "go_error + jwt_config"
  se_Security :: "go_error + security_config"
  se_Tracing :: "go_error + tracing_settings"
  se_Metrics :: "go_error + metrics_settings"
  se_RateLimiter :: "go_error + rate_limiter_config"

record service_config =
  sc_Logger :: logger_settings
  sc_GRPC :: grpc_config
  sc_Tracing :: tracing_settings
  sc_Metrics :: metrics_settings
  sc_RateLimiter :: rate_limiter_config

record storage_config = service_config +
  sc_Storage :: storageEnvConfig

record users_config = service_config +
  sc_PG :: pg_config

record metadata_config = users_config +
  sc_Kafka :: kafka_settings

record auth_config = service_config +
  sc_UserClient :: grpc_config
  sc_Redis :: redis_config
  sc_JWT :: jwt_config
  sc_Security :: security_config

section \<open>Loading\<close>

text \<open>\<open>os.IsNotExist\<close> does not unwrap. A missing file is no error, the environment is used alone.\<close>

definition os_IsNotExist :: "go_error \<Rightarrow> bool" where
  "os_IsNotExist err = (err = ErrNotExist \<or> err = Errno ENOENT)"

definition load_dotenv :: "service_env \<Rightarrow> go_error + unit" where
  "load_dotenv e = (case se_dotenv e of
     Some err \<Rightarrow> if \<not> os_IsNotExist err then Inl err else Inr ()
   | None \<Rightarrow> Inr ())"

definition storage_Load :: "service_env \<Rightarrow> go_error + storage_config" where
  "storage_Load e =
    bind_sum (load_dotenv e) (\<lambda>_.
    bind_sum (se_Logger e) (\<lambda>loggerCfg.
    bind_sum (se_GRPC e) (\<lambda>grpcCfg.
    bind_sum (NewStorageConfig (se_Storage e)) (\<lambda>storageCfg.
    bind_sum (se_Tracing e) (\<lambda>tracingCfg.
    bind_sum (se_Metrics e) (\<lambda>metricsCfg.
    bind_sum (NewRateLimiterConfig (se_RateLimiter e)) (\<lambda>rateLimiterCfg.
    Inr \<lparr>sc_Logger = loggerCfg, sc_GRPC = grpcCfg, sc_Tracing = tracingCfg, sc_Metrics = metricsCfg,
      sc_RateLimiter = rateLimiterCfg, sc_Storage = storageCfg\<rparr>)))))))"

definition users_Load :: "service_env \<Rightarrow> go_error + users_config" where
  "users_Load e =
    bind_sum (load_dotenv e) (\<lambda>_.
    bind_sum (se_Logger e) (\<lambda>loggerCfg.
    bind_sum (se_GRPC e) (\<lambda>grpcCfg.
    bind_sum (NewPGConfig (se_PG e)) (\<lambda>pgCfg.
    bind_sum (se_Tracing e) (\<lambda>tracingCfg.
    bind_sum (se_Metrics e) (\<lambda>metricsCfg.
    bind_sum (NewRateLimiterConfig (se_RateLimiter e)) (\<lambda>rateLimiterCfg.
    Inr \<lparr>sc_Logger = loggerCfg, sc_GRPC = grpcCfg, sc_Tracing = tracingCfg, sc_Metrics = metricsCfg,
      sc_RateLimiter = rateLimiterCfg, sc_PG = pgCfg\<rparr>)))))))"

definition metadata_Load :: "service_env \<Rightarrow> go_error + metadata_config" where
  "metadata_Load e =
    bind_sum (load_dotenv e) (\<lambda>_.
    bind_sum (se_Logger e) (\<lambda>loggerCfg.
    bind_sum (se_GRPC e) (\<lambda>grpcCfg.
    bind_sum (NewPGConfig (se_PG e)) (\<lambda>pgCfg.
    bind_sum (se_Kafka e) (\<lambda>kafkaCfg.
    bind_sum (se_Tracing e) (\<lambda>tracingCfg.
    bind_sum (se_Metrics e) (\<lambda>metricsCfg.
    bind_sum (NewRateLimiterConfig (se_RateLimiter e)) (\<lambda>rateLimiterCfg.
    Inr \<lparr>sc_Logger = loggerCfg, sc_GRPC = grpcCfg, sc_Tracing = tracingCfg, sc_Metrics = metricsCfg,
      sc_RateLimiter = rateLimiterCfg, sc_PG = pgCfg, sc_Kafka = kafkaCfg\<rparr>))))))))"

definition auth_Load :: "service_env \<Rightarrow> go_error + auth_config" where
  "auth_Load e =
    bind_sum (load_dotenv e) (\<lambda>_.
    bind_sum (se_Logger e) (\<lambda>loggerCfg.
    bind_sum (se_GRPC e) (\<lambda>grpcCfg.
    bind_sum (se_UserGRPC e) (\<lambda>userClientCfg.
    bind_sum (se_Redis e) (\<lambda>redisCfg.
    bind_sum (se_JWT e) (\<lambda>jwtCfg.
    bind_sum (se_Security e) (\<lambda>securityCfg.
    bind_sum (se_Tracing e) (\<lambda>tracingCfg.
    bind_sum (se_Metrics e) (\<lambda>metricsCfg.
    bind_sum (NewRateLimiterConfig (se_RateLimiter e)) (\<lambda>rateLimiterCfg.
    Inr \<lparr>sc_Logger = loggerCfg, sc_GRPC = grpcCfg, sc_Tracing = tracingCfg, sc_Metrics = metricsCfg,
      sc_RateLimiter = rateLimiterCfg, sc_UserClient = userClientCfg, sc_Redis = redisCfg, sc_JWT = jwtCfg,
      sc_Security = securityCfg\<rparr>))))))))))"

section \<open>Properties\<close>

text \<open>The host and the port of an address are found again by \<open>net.SplitHostPort\<close>.\<close>

lemma last_index_last: "c \<notin> set p \<Longrightarrow> last_index c (h @ c # p) = Some (length h)"
proof -
  assume c: "c \<notin> set p"
  have "takeWhile (\<lambda>x. x \<noteq> c) (rev p @ c # rev h) = rev p"
    using c by (subst takeWhile_append2) auto
  then show ?thesis by (simp add: last_index_def)
qed

lemma Split_JoinHostPort:
  assumes "CHR ''['' \<notin> set host" "CHR '']'' \<notin> set host"
    and "CHR '':'' \<notin> set port" "CHR ''['' \<notin> set port" "CHR '']'' \<notin> set port"
  shows "SplitHostPort (JoinHostPort host port) = Some (host, port)"
proof (cases "CHR '':'' \<in> set host")
  case False
  have "last_index (CHR '':'') (host @ CHR '':'' # port) = Some (length host)"
    using assms(3) by (rule last_index_last)
  moreover have "take 1 (host @ CHR '':'' # port) \<noteq> ''[''" using assms(1) by (cases host) auto
  ultimately show ?thesis
    using False assms by (simp add: JoinHostPort_def SplitHostPort_def)
next
  case True
  let ?hp = "CHR ''['' # host @ CHR '']'' # CHR '':'' # port"
  have "last_index (CHR '':'') ((CHR ''['' # host @ [CHR '']'']) @ CHR '':'' # port) = Some (length host + 2)"
    using last_index_last [OF assms(3), of "CHR ''['' # host @ [CHR '']'']"] by simp
  moreover have "takeWhile (\<lambda>x. x \<noteq> CHR '']'') ?hp = CHR ''['' # host"
    using assms(2) by (auto simp: takeWhile_tail)
  ultimately show ?thesis
    using True assms by (simp add: JoinHostPort_def SplitHostPort_def Let_def)
qed

text \<open>
  Settings that load can run: the chunk size is positive and the limiter's settings are accepted.
  The number of idle connections wraps as the login limit does.
\<close>

lemma storage_Load_valid:
  assumes "storage_Load e = Inr cfg"
  shows "1 \<le> ChunkSize (sc_Storage cfg)" "ChunkSize (sc_Storage cfg) \<le> maxRetrieveChunkSizeBytes"
    "NewRateLimiterConfig (Inr (sc_RateLimiter cfg)) = Inr (sc_RateLimiter cfg)"
  using assms
  by (auto simp: storage_Load_def bind_sum_Inr NewStorageConfig_def NewRateLimiterConfig_def split: sum.splits if_splits)

lemma MaxIdle_wraps:
  assumes "128 \<le> redis_MaxIdle c" "redis_MaxIdle c < 256"
  shows "MaxIdle c < 0"
proof -
  have "(word_of_int (redis_MaxIdle c) :: 8 word) = word_of_int (redis_MaxIdle c - 256)"
    unfolding word_of_int_eq_iff by (simp add: take_bit_eq_mod)
  then have "MaxIdle c = int8_of (redis_MaxIdle c - 256)" by (simp only: MaxIdle_def int8_of_def)
  also have "\<dots> = redis_MaxIdle c - 256" using assms by (intro int8_of_small) simp_all
  finally show ?thesis using assms(2) by simp
qed

end
