(* ===== verification/Spec2Isabelle.thy ===== *)
theory Spec2Isabelle
  imports Storage_Props Storage_Smoke Metadata_Props Metadata_Race Gateway_Props Users_Props Auth_Props Kit_Props Kafka Gateway_App Service_Apps Settings
begin

text \<open>
  \<^bold>\<open>A verification development for opens3-rebac, an S3-like object store in Go.\<close>

  \<^bold>\<open>The program.\<close> Five services under \<open>src/services\<close> share the packages of
  \<open>src/shared/pkg/go-kit\<close>. The \<^emph>\<open>gateway\<close> answers \<open>PUT\<close> and \<open>GET\<close> on
  \<open>/objects/bucket/key\<close>: it asks the \<^emph>\<open>metadata\<close> service for buckets and versions and streams
  the bytes to and from the \<^emph>\<open>storage\<close> service. Metadata keeps buckets, objects and versions
  in Postgres and announces deletions on Kafka. Storage keeps blobs, and the staged files of
  uploads, in a directory of the file system. The \<^emph>\<open>auth\<close> service issues and checks tokens;
  it asks the \<^emph>\<open>users\<close> service for passwords and counts failed logins in Redis. The users
  service keeps accounts in Postgres. All calls between services are gRPC calls, whose errors pass
  through one interceptor that turns them into status codes.

  \<^bold>\<open>Conventions\<close> (\<open>Prelude\<close>, \<open>Go_Errors\<close>, \<open>Contextx\<close>, \<open>Go_Text\<close>).
  A Go function that returns a value and an error is an operation from a world to a sum, \<open>Inl\<close> the
  error, and the next world; \<open>bindE\<close>, \<open>catchE\<close>, \<open>tryE\<close> and \<open>ignoreE\<close> are the four ways the code
  treats an error: return it, replace it, branch on it, drop it. \<open>wpE\<close> is the weakest precondition
  of an operation and \<open>preserves\<close> its special case for invariants. Errors are the type \<open>go_error\<close>
  with \<open>errors.Is\<close> and \<open>errors.As\<close> as functions on it. A context is the record \<open>ctx\<close> with its
  values and the time at which it ends. Sized integers are words, or integers with \<open>int64_of\<close>,
  \<open>int32_of\<close> and \<open>int8_of\<close> where the code converts. Names are those of the code; a prefix keeps
  apart what several services call the same: \<open>h_\<close>, \<open>mh_\<close>, \<open>uh_\<close> and \<open>ah_\<close> for the gRPC
  handlers of storage, metadata, users and auth, \<open>us_\<close> and \<open>ur_\<close> for the service and the
  repository of users. Lines that only write a log or a span are left out unless a theory says
  otherwise.

  \<^bold>\<open>Storage\<close> (\<open>services/storage\<close>).
  \<^item> \<open>Go_OS\<close>: \<open>path/filepath\<close> and the system calls of package os on a tree of files and
    directories. Every call may fail with a full disk, a device error or a refused access, as the
    schedule \<open>faults\<close> of the world says, a write also after a part of its bytes. \<open>Md5\<close> computes RFC 1321.
  \<^item> \<open>Storage_Repo\<close> (\<open>internal/repository/storage\<close>): paths, atomic writes through a temporary
    file and a rename, reads and ranges, deletion, multipart sessions, parts and assembly.
    \<open>Storage_Service\<close> (\<open>internal/service/storage\<close>): validation, ids, ranges, completion.
    \<open>Storage_Handler\<close> (\<open>internal/handler/storage\<close>): chunk streams and the unary calls.
    \<open>Storage_Smoke\<close> (\<open>cmd/multipart-smoke\<close>): a client of these handlers.
  \<^item> \<open>Storage_Spec\<close>, \<open>Storage_Multipart\<close> and \<open>Storage_Dirs\<close> prove what each operation does to the map \<open>blobs\<close>
    from ids to contents under all faults; \<open>Storage_Live\<close> that calm operations succeed.
    The locale \<open>blob_store\<close> of \<open>Blob_Contract\<close> is the contract of the repository; it is
    interpreted on \<open>storage_ops\<close>. The properties are in \<open>Storage_Props\<close> and
    \<open>Storage_Smoke\<close>. \<open>Storage_Metrics\<close> has the gauges of \<open>internal/observability\<close>.

  \<^bold>\<open>Metadata\<close> (\<open>services/metadata\<close>).
  \<^item> \<open>Transaction\<close>: the transaction manager of the go-kit over any store that can begin, commit and
    roll back; the locale \<open>transactional\<close> says that an error or a panic restores the store, and is
    interpreted on the databases of metadata and of users.
  \<^item> \<open>Metadata_DB\<close>: the tables of the migrations with their keys and cascades.
    \<open>Metadata_Repo\<close>, \<open>Metadata_Service\<close>: the SQL of the repositories row by row, the
    services, events and handlers.
  \<^item> \<open>Metadata_Spec\<close>: the invariant \<open>db_ok\<close> and the effect of each statement;
    \<open>Metadata_Refine\<close>: every history is one of a small machine on two maps;
    \<open>Metadata_List\<close>: lookups and pages, over any total order of keys (locale \<open>key_order\<close>,
    interpreted on the order of bytes). The properties are in \<open>Metadata_Props\<close>.
  \<^item> \<open>Metadata_Race\<close>: the transaction of \<open>DeleteBucket\<close> statement by statement beside another call,
    with the row locks of Postgres at READ COMMITTED; the property there follows an upload into the
    bucket through every point at which it can arrive. Run alone, the statements are the handler of
    \<open>Metadata_Service\<close> (\<open>deleteBucket_statements_alone\<close>).
  \<^item> \<open>Service_App\<close> (\<open>internal/app\<close>, \<open>cmd/server\<close>): the service provider, the start, and the process
    beside the shutdown of its closer, with the property of what its exit promises. \<open>Service_Apps\<close> has
    the starts of the storage, users and auth services, which are built the same way.

  \<^bold>\<open>Gateway\<close> (\<open>services/gateway\<close>).
  \<^item> \<open>Gateway_Client\<close>: the two clients and the object service; \<open>Gateway_HTTP\<close>: routing, the
    two methods with their verified copies, error statuses and request metrics.
  \<^item> \<open>Gateway_Spec\<close>: the lemmas over any upstream with the locale \<open>upstream_contract\<close>;
    \<open>Gateway_System\<close> interprets it on the models of the metadata and storage services behind a
    transport that may fail any call, before or after the server worked. The properties are in \<open>Gateway_Props\<close>.
  \<^item> \<open>Gateway_App\<close> (\<open>internal/config\<close>, \<open>internal/app\<close>, \<open>cmd/server\<close>): settings, start, run and stop,
    with the property that everything opened is closed. What \<open>CloseAll\<close> does is the argument
    \<open>close_all\<close>, from the closer at the call to the closer at the end: any run of \<open>Closer\<close> to its return.

  \<^bold>\<open>Users and auth\<close> (\<open>services/users\<close>, \<open>services/auth\<close>).
  \<^item> \<open>Users_Validate\<close>, \<open>Users_Repo\<close>, \<open>Users_Service\<close>: validation with the email pattern as a
    regular expression, the SQL and conversions, the services and handlers;
    \<open>Users_Spec\<close>: the invariant \<open>us_ok\<close>. The properties are in \<open>Users_Props\<close>.
  \<^item> \<open>Tokens\<close> (\<open>go-kit/tokens\<close>), \<open>Auth_Redis\<close> (the Redis client, its commands and the login
    counter), \<open>Auth_Service\<close> (service and handlers). \<open>Auth_Spec\<close>: the lemmas over any users
    service with the locale \<open>user_service\<close>, and with \<open>audited_user_service\<close>, which also records the
    passwords that are checked (the history \<open>checked\<close>); both are interpreted on the model of that service.
    The properties are in \<open>Auth_Props\<close>.

  \<^bold>\<open>Shared parts that run beside the services\<close> (\<open>go-kit\<close>).
  \<^item> \<open>Machine\<close>: runs of step relations, with the locales \<open>safe_machine\<close> and \<open>paying_machine\<close>.
  \<^item> \<open>Ratelimiter\<close>: the token bucket, its ticker and its interceptor; requests, ticks and the end
    of the context are the steps, and the interpretation \<open>bucket\<close> pays each handler from a credit.
  \<^item> \<open>Closer\<close>: \<open>CloseAll\<close> with its goroutines, channel and wait group as one step relation,
    panics of the close functions included; \<open>closing\<close> and \<open>explaining\<close> are its invariants.
  \<^item> \<open>Pg\<close>: the Postgres client with its timeouts, query log and settings, over a record of the
    calls of the driver. \<open>Kafka\<close>: the group handler, the consume loop and the producer.
    \<open>Interceptors\<close>: metrics, circuit breaker and tracing, the watcher goroutine of a
    traced client stream as the interpretation \<open>tracing\<close>. \<open>Logger\<close>: the global
    logger, the fields of a context and the export of records. \<open>Settings\<close>: what the four gRPC services
    load at their start. The properties are in \<open>Kit_Props\<close>.

  \<^bold>\<open>What stands outside.\<close> Code that is not in the repository is an argument of the model: the
  JSON codec of the staged files, bcrypt (what is assumed is \<open>bcrypt_ok\<close>: a hash accepts
  exactly the passwords with the same first 72 bytes), golang-jwt (\<open>jwt_ok\<close>: ideal signatures),
  the collation and the uuids of Postgres, the drivers of Postgres, the Kafka client and its broker,
  the circuit breaker, the tracer and its propagator, and the HTTP handler of the API pages. Each
  property with such a hypothesis has a witness with a concrete function.

  \<^bold>\<open>Loops.\<close> Loops over data are structural, or have a measure. The download loop \<open>retrieveLoop\<close>
  and the consume loop \<open>Consume\<close> are partial functions, where \<open>None\<close> is not returning: \<open>RetrieveObject_streams_range\<close>
  proves that a download returns, for every positive chunk size and all faults, and \<open>Consume\<close> returns at
  the first session that fails or ends after its context (\<open>Consume_stops\<close>); it is meant to run
  otherwise (\<open>Consume_continues\<close>). \<open>CloseAll\<close> has no fuel: \<open>CloseAll_returns\<close> bounds its own steps by \<open>work\<close>,
  which every one of them lowers. A rate limiter runs at most its limit of
  handlers, three more, and one for each interval (\<open>rate_limit_window\<close>).

  \<^bold>\<open>Simplifications.\<close> In \<open>assembleSession\<close> the error of a failed manifest does not carry the
  text of a failed cleanup after it. Seconds of a lifetime are whole numbers; the code
  converts a float. The lines of the closer's log have no durations. Text functions are exact on
  ASCII. Files keep no modes, owners or times. A statement of Postgres takes effect at once, or
  fails without effect; a commit may fail after it took effect where \<open>Transaction\<close> says so. The calls
  of a service run one after the other, but for \<open>Metadata_Race\<close>; there the other call commits as a
  whole, between two statements of the transaction, and only before it has written.

  \<^bold>\<open>Not modelled.\<close>
  \<^item> \<open>tracing/tracer.go\<close> and the set-up of metrics in \<open>metric/metrics.go\<close>: they construct objects of
    the telemetry libraries.
  \<^item> The smoke command and the test upstream of the gateway, the e2e suite: clients and fakes for
    tests; \<open>put_then_get\<close> states over the model what they sample.
  \<^item> Generated code, mocks, and the Python and Rust services.
\<close>

end
